(* ===== verification/Prelude.thy ===== *)
theory Prelude
  imports Main "HOL-Library.Word" "HOL-Library.Char_ord" "HOL-Library.List_Lexorder"
begin

text \<open>
  What every component shares: Go error values and their chains, the conversion between
  Go byte strings and byte buffers, and generic lemmas on lists.

  A Go \<open>string\<close> is a sequence of bytes; a HOL \<open>char\<close> is one of 256 values, so a Go
  string is a \<open>char list\<close>, one \<open>char\<close> per byte. A \<open>[]byte\<close> buffer on which the code
  works bitwise is an \<open>8 word list\<close>.
\<close>

subsection \<open>Hint collections\<close>

named_theorems go_defs \<open>definitions of the operations of one component, for unfolding\<close>
named_theorems codec \<open>round trips of encoders and decoders\<close>

type_synonym byte = "8 word"

subsection \<open>Error values\<close>

text \<open>
  \<open>ErrNew m\<close> is \<open>errors.New(m)\<close> (and any error of the environment, by its message),
  \<open>ErrAuth s\<close> is a value of the typed error \<open>domain.AuthError\<close>, \<open>ErrSentinel s\<close> a package
  level sentinel such as \<open>sql.ErrNoRows\<close>, and \<open>ErrWrap p e s\<close> is
  \<open>fmt.Errorf("p%ws", e)\<close>.
\<close>

datatype go_error =
    ErrNew string
  | ErrAuth string
  | ErrSentinel string
  | ErrWrap string go_error string

primrec error_string :: "go_error \<Rightarrow> string" where
  "error_string (ErrNew m) = m"
| "error_string (ErrAuth m) = m"
| "error_string (ErrSentinel m) = m"
| "error_string (ErrWrap p e s) = p @ error_string e @ s"

text \<open>
  \<open>errors.Is\<close> walks the chain of wrapped errors and compares each with the target. The
  code uses it with the targets \<open>AuthError\<close> and \<open>sql.ErrNoRows\<close> only, whose comparison
  is the equality of values.
\<close>

primrec errors_is :: "go_error \<Rightarrow> go_error \<Rightarrow> bool" where
  "errors_is (ErrNew m) t = (ErrNew m = t)"
| "errors_is (ErrAuth m) t = (ErrAuth m = t)"
| "errors_is (ErrSentinel m) t = (ErrSentinel m = t)"
| "errors_is (ErrWrap p e s) t = (ErrWrap p e s = t \<or> errors_is e t)"

text \<open>\<open>errors.As\<close> with a target of type \<open>*AuthError\<close>: the first \<open>AuthError\<close> of the chain.\<close>

primrec errors_as_auth :: "go_error \<Rightarrow> string option" where
  "errors_as_auth (ErrNew m) = None"
| "errors_as_auth (ErrAuth m) = Some m"
| "errors_as_auth (ErrSentinel m) = None"
| "errors_as_auth (ErrWrap p e s) = errors_as_auth e"

text \<open>The error at the end of the chain, which wrapping never changes.\<close>

primrec root_error :: "go_error \<Rightarrow> go_error" where
  "root_error (ErrNew m) = ErrNew m"
| "root_error (ErrAuth m) = ErrAuth m"
| "root_error (ErrSentinel m) = ErrSentinel m"
| "root_error (ErrWrap p e s) = root_error e"

lemma errors_is_root_auth: "errors_is e (ErrAuth a) \<longleftrightarrow> root_error e = ErrAuth a"
  by (induction e) auto

lemma errors_as_auth_root: "errors_as_auth e = Some a \<longleftrightarrow> root_error e = ErrAuth a"
  by (induction e) auto

subsection \<open>Bytes of strings and buffers\<close>

definition byte_of_char :: "char \<Rightarrow> byte" where
  "byte_of_char c = word_of_nat (of_char c)"

definition char_of_byte :: "byte \<Rightarrow> char" where
  "char_of_byte b = char_of (unat b)"

abbreviation ord :: "char \<Rightarrow> nat" where
  "ord c \<equiv> of_char c"

abbreviation chr :: "nat \<Rightarrow> char" where
  "chr n \<equiv> char_of n"

text \<open>The conversions \<open>[]byte(s)\<close> and \<open>string(b)\<close>.\<close>

definition to_bytes :: "string \<Rightarrow> byte list" where
  "to_bytes s = map byte_of_char s"

definition of_bytes :: "byte list \<Rightarrow> string" where
  "of_bytes bs = map char_of_byte bs"

lemma ord_lt_256 [simp]: "ord c < (256 :: nat)"
  by (rule nat_of_char_less_256)

lemma ord_chr [simp]: "n < 256 \<Longrightarrow> ord (chr n) = n"
  by simp

lemma chr_eq_iff: "n < 256 \<Longrightarrow> chr n = c \<longleftrightarrow> ord c = n"
  by (metis char_of_char ord_chr)

lemma char_of_byte_of_char [simp]: "char_of_byte (byte_of_char c) = c"
  by (simp add: char_of_byte_def byte_of_char_def unat_of_nat)

lemma byte_of_char_of_byte [simp]: "byte_of_char (char_of_byte b) = b"
proof -
  have "unat b < 2 ^ LENGTH(8)" by (rule unsigned_less)
  then have "unat b mod 256 = unat b" by simp
  then show ?thesis by (simp add: char_of_byte_def byte_of_char_def)
qed

lemma of_to_bytes [simp, codec]: "of_bytes (to_bytes s) = s"
  by (simp add: of_bytes_def to_bytes_def comp_def)

lemma to_of_bytes [simp, codec]: "to_bytes (of_bytes bs) = bs"
  by (simp add: of_bytes_def to_bytes_def comp_def)

lemma length_to_bytes [simp]: "length (to_bytes s) = length s"
  by (simp add: to_bytes_def)

lemma length_of_bytes [simp]: "length (of_bytes bs) = length bs"
  by (simp add: of_bytes_def)

lemma ord_char_of_byte [simp]: "ord (char_of_byte b) = unat b"
proof -
  have "unat b < 2 ^ LENGTH(8)" by (rule unsigned_less)
  then show ?thesis by (simp add: char_of_byte_def)
qed

subsection \<open>Lists\<close>

lemma takeWhile_append_stop:
  "\<forall>x\<in>set xs. P x \<Longrightarrow> \<not> P y \<Longrightarrow> takeWhile P (xs @ y # ys) = xs"
  by (induction xs) auto

lemma dropWhile_append_stop:
  "\<forall>x\<in>set xs. P x \<Longrightarrow> \<not> P y \<Longrightarrow> dropWhile P (xs @ y # ys) = y # ys"
  by (induction xs) auto

lemma length_filter_partition:
  "length (filter P xs) + length (filter (\<lambda>x. \<not> P x) xs) = length xs"
  by (induction xs) auto

lemma filter_eq_self_iff: "filter P xs = xs \<longleftrightarrow> (\<forall>x\<in>set xs. P x)"
  by (rule filter_id_conv)

end
