(* ===== verification/GoStrings.thy ===== *)
theory GoStrings
  imports Prelude
begin

text \<open>
  The operations of Go's \<open>strings\<close>, \<open>strconv\<close> and \<open>fmt\<close> packages that the gateway calls,
  on byte strings, and the laws its components rest on: splitting and joining, prefixes,
  decimal and hexadecimal digits.
\<close>

subsection \<open>Prefixes and substrings\<close>

definition has_prefix :: "string \<Rightarrow> string \<Rightarrow> bool" where
  "has_prefix s p \<longleftrightarrow> take (length p) s = p"

definition trim_prefix :: "string \<Rightarrow> string \<Rightarrow> string" where
  "trim_prefix s p = (if has_prefix s p then drop (length p) s else s)"

fun contains_sub :: "string \<Rightarrow> string \<Rightarrow> bool" where
  "contains_sub [] p = (p = [])"
| "contains_sub (c # s) p = (has_prefix (c # s) p \<or> contains_sub s p)"

lemma has_prefix_append [simp]: "has_prefix (p @ s) p"
  by (simp add: has_prefix_def)

lemma trim_prefix_append [simp]: "trim_prefix (p @ s) p = s"
  by (simp add: trim_prefix_def)

lemma has_prefix_iff: "has_prefix s p \<longleftrightarrow> (\<exists>r. s = p @ r)"
  by (metis append_take_drop_id has_prefix_append has_prefix_def)

lemma contains_sub_append: "contains_sub (a @ p @ b) p"
proof (induction a)
  case Nil
  have "has_prefix (p @ b) p" by simp
  then show ?case by (cases "p @ b") auto
next
  case (Cons x a)
  then show ?case by simp
qed

subsection \<open>Split and Join\<close>

text \<open>\<open>strings.Split(s, sep)\<close> for a separator of one byte: never an empty list.\<close>

fun go_split :: "char \<Rightarrow> string \<Rightarrow> string list" where
  "go_split sep [] = [[]]"
| "go_split sep (c # s) =
     (if c = sep then [] # go_split sep s
      else (case go_split sep s of [] \<Rightarrow> [[c]] | p # ps \<Rightarrow> (c # p) # ps))"

text \<open>\<open>strings.SplitN(s, sep, 2)\<close>.\<close>

definition go_split2 :: "char \<Rightarrow> string \<Rightarrow> string list" where
  "go_split2 sep s =
     (if sep \<in> set s
      then [takeWhile (\<lambda>c. c \<noteq> sep) s, tl (dropWhile (\<lambda>c. c \<noteq> sep) s)]
      else [s])"

fun go_join :: "string \<Rightarrow> string list \<Rightarrow> string" where
  "go_join sep [] = []"
| "go_join sep [p] = p"
| "go_join sep (p # q # ps) = p @ sep @ go_join sep (q # ps)"

lemma go_split_nonempty [simp]: "go_split sep s \<noteq> []"
  by (cases s) (auto split: list.splits)

lemma go_join_Cons: "ps \<noteq> [] \<Longrightarrow> go_join sep (p # ps) = p @ sep @ go_join sep ps"
  by (cases ps) auto

lemma go_join_split [simp, codec]: "go_join [sep] (go_split sep s) = s"
proof (induction s)
  case Nil
  show ?case by simp
next
  case (Cons c s)
  then show ?case
  proof (cases "go_split sep s")
    case Nil
    then show ?thesis by simp
  next
    case (Cons p ps)
    with \<open>go_join [sep] (go_split sep s) = s\<close> show ?thesis
      by (cases ps) (auto simp: go_join_Cons)
  qed
qed

lemma go_split_no_sep [simp]: "sep \<notin> set s \<Longrightarrow> go_split sep s = [s]"
  by (induction s) auto

lemma go_split_append:
  "sep \<notin> set p \<Longrightarrow> go_split sep (p @ sep # s) = p # go_split sep s"
  by (induction p) auto

lemma go_split_parts: "p \<in> set (go_split sep s) \<Longrightarrow> sep \<notin> set p"
proof (induction s arbitrary: p)
  case Nil
  then show ?case by simp
next
  case (Cons c s)
  then show ?case by (cases "go_split sep s") (auto split: if_splits)
qed

lemma go_split_three [codec]:
  assumes "sep \<notin> set a" "sep \<notin> set b" "sep \<notin> set c"
  shows "go_split sep (a @ [sep] @ b @ [sep] @ c) = [a, b, c]"
  using assms by (simp add: go_split_append)

lemma go_split_three_iff:
  "go_split sep s = [a, b, c] \<longleftrightarrow>
     s = a @ [sep] @ b @ [sep] @ c \<and> sep \<notin> set a \<and> sep \<notin> set b \<and> sep \<notin> set c"
proof
  assume sp: "go_split sep s = [a, b, c]"
  then have "s = go_join [sep] [a, b, c]" by (metis go_join_split)
  moreover have "\<forall>p\<in>set [a, b, c]. sep \<notin> set p"
    using sp go_split_parts by metis
  ultimately show "s = a @ [sep] @ b @ [sep] @ c \<and> sep \<notin> set a \<and> sep \<notin> set b \<and> sep \<notin> set c"
    by simp
next
  assume "s = a @ [sep] @ b @ [sep] @ c \<and> sep \<notin> set a \<and> sep \<notin> set b \<and> sep \<notin> set c"
  then show "go_split sep s = [a, b, c]" using go_split_three by metis
qed

lemma length_go_split2: "length (go_split2 sep s) = 2 \<longleftrightarrow> sep \<in> set s"
  by (simp add: go_split2_def)

lemma go_split2_append [simp]:
  "sep \<notin> set p \<Longrightarrow> go_split2 sep (p @ sep # s) = [p, s]"
  by (subst go_split2_def, subst takeWhile_append_stop, auto)
     (subst dropWhile_append_stop, auto)

subsection \<open>White space\<close>

text \<open>
  The width in bytes of the white space rune (\<open>unicode.IsSpace\<close>) at the head of a string,
  0 when there is none. The lead bytes of these encodings never occur inside another rune,
  so looking at the bytes alone decides the rune.
\<close>

definition ascii_space :: "char \<Rightarrow> bool" where
  "ascii_space c \<longleftrightarrow> ord c \<in> {9, 10, 11, 12, 13, 32 :: nat}"

definition space_runes2 :: "nat list list" where
  "space_runes2 = [[0xC2, 0x85], [0xC2, 0xA0]]"

definition space_runes3 :: "nat list list" where
  "space_runes3 =
     [[0xE1, 0x9A, 0x80], [0xE2, 0x80, 0x80], [0xE2, 0x80, 0x81], [0xE2, 0x80, 0x82],
      [0xE2, 0x80, 0x83], [0xE2, 0x80, 0x84], [0xE2, 0x80, 0x85], [0xE2, 0x80, 0x86],
      [0xE2, 0x80, 0x87], [0xE2, 0x80, 0x88], [0xE2, 0x80, 0x89], [0xE2, 0x80, 0x8A],
      [0xE2, 0x80, 0xA8], [0xE2, 0x80, 0xA9], [0xE2, 0x80, 0xAF], [0xE2, 0x81, 0x9F],
      [0xE3, 0x80, 0x80]]"

definition space_width :: "string \<Rightarrow> nat" where
  "space_width s =
     (if s \<noteq> [] \<and> ascii_space (hd s) then 1
      else if map ord (take 2 s) \<in> set space_runes2 then 2
      else if map ord (take 3 s) \<in> set space_runes3 then 3
      else 0)"

text \<open>\<open>strings.Fields\<close>: the maximal runs of bytes between white space.\<close>

function fields_from :: "string \<Rightarrow> string \<Rightarrow> string list" where
  "fields_from acc [] = (if acc = [] then [] else [rev acc])"
| "fields_from acc (c # s) =
     (if space_width (c # s) > 0
      then (if acc = [] then [] else [rev acc]) @
           fields_from [] (drop (space_width (c # s) - 1) s)
      else fields_from (c # acc) s)"
  by pat_completeness auto
termination
  by (relation "measure (\<lambda>(acc, s). length s)") auto

definition go_fields :: "string \<Rightarrow> string list" where
  "go_fields s = fields_from [] s"

text \<open>\<open>strings.TrimSpace\<close>.\<close>

function trim_left :: "string \<Rightarrow> string" where
  "trim_left s =
     (if s \<noteq> [] \<and> space_width s > 0 then trim_left (drop (space_width s) s) else s)"
  by pat_completeness auto
termination
  by (relation "measure length") auto

definition space_suffix :: "string \<Rightarrow> nat" where
  "space_suffix s =
     (if s \<noteq> [] \<and> ascii_space (last s) then 1
      else if map ord (drop (length s - 2) s) \<in> set space_runes2 then 2
      else if map ord (drop (length s - 3) s) \<in> set space_runes3 then 3
      else 0)"

function trim_right :: "string \<Rightarrow> string" where
  "trim_right s =
     (if s \<noteq> [] \<and> space_suffix s > 0
      then trim_right (take (length s - space_suffix s) s) else s)"
  by pat_completeness auto
termination
  by (relation "measure length") auto

declare trim_left.simps [simp del] trim_right.simps [simp del]

definition trim_space :: "string \<Rightarrow> string" where
  "trim_space s = trim_right (trim_left s)"

lemma fields_from_nonempty: "p \<in> set (fields_from acc s) \<Longrightarrow> p \<noteq> []"
proof (induction acc s arbitrary: p rule: fields_from.induct)
  case (1 acc)
  then show ?case by (auto split: if_splits)
next
  case (2 acc c s)
  then show ?case by (auto split: if_splits)
qed

lemma go_fields_nonempty: "p \<in> set (go_fields s) \<Longrightarrow> p \<noteq> []"
  by (auto simp: go_fields_def dest: fields_from_nonempty)

subsection \<open>Lower case\<close>

text \<open>
  \<open>strings.ToLower\<close> maps ASCII letters byte by byte when the string is ASCII, and otherwise
  maps each rune by the Unicode tables of the Go distribution; the latter is the parameter
  \<open>ulower\<close>.
\<close>

definition is_ascii :: "string \<Rightarrow> bool" where
  "is_ascii s \<longleftrightarrow> (\<forall>c\<in>set s. ord c < (128 :: nat))"

definition ascii_lower :: "char \<Rightarrow> char" where
  "ascii_lower c = (if 65 \<le> ord c \<and> ord c \<le> (90 :: nat) then chr (ord c + 32) else c)"

definition to_lower :: "(string \<Rightarrow> string) \<Rightarrow> string \<Rightarrow> string" where
  "to_lower ulower s = (if is_ascii s then map ascii_lower s else ulower s)"

subsection \<open>Decimal numbers\<close>

text \<open>\<open>strconv.FormatInt(n, 10)\<close> and the verb \<open>%d\<close>, and \<open>strconv.ParseInt(s, 10, 64)\<close>.\<close>

definition dec_digit :: "nat \<Rightarrow> char" where
  "dec_digit n = chr (48 + n)"

definition is_digit :: "char \<Rightarrow> bool" where
  "is_digit c \<longleftrightarrow> 48 \<le> ord c \<and> ord c \<le> (57 :: nat)"

definition digit_val :: "char \<Rightarrow> nat" where
  "digit_val c = ord c - 48"

fun nat_dec :: "nat \<Rightarrow> string" where
  "nat_dec n = (if n < 10 then [dec_digit n] else nat_dec (n div 10) @ [dec_digit (n mod 10)])"

declare nat_dec.simps [simp del]

definition int_dec :: "int \<Rightarrow> string" where
  "int_dec i = (if i < 0 then CHR ''-'' # nat_dec (nat (- i)) else nat_dec (nat i))"

definition digits_val :: "string \<Rightarrow> nat" where
  "digits_val s = foldl (\<lambda>a c. 10 * a + digit_val c) 0 s"

definition in_int64 :: "int \<Rightarrow> bool" where
  "in_int64 i \<longleftrightarrow> - (2 ^ 63) \<le> i \<and> i < 2 ^ 63"

definition parse_int64 :: "string \<Rightarrow> int option" where
  "parse_int64 s =
     (let neg = (s \<noteq> [] \<and> hd s = CHR ''-'');
          ds = (if s \<noteq> [] \<and> (hd s = CHR ''-'' \<or> hd s = CHR ''+'') then tl s else s);
          v = (if neg then - int (digits_val ds) else int (digits_val ds))
      in if ds \<noteq> [] \<and> list_all is_digit ds \<and> in_int64 v then Some v else None)"

lemma is_digit_dec_digit [simp]: "n < 10 \<Longrightarrow> is_digit (dec_digit n)"
  by (simp add: is_digit_def dec_digit_def)

lemma digit_val_dec_digit [simp]: "n < 10 \<Longrightarrow> digit_val (dec_digit n) = n"
  by (simp add: digit_val_def dec_digit_def)

lemma nat_dec_digits: "c \<in> set (nat_dec n) \<Longrightarrow> is_digit c"
proof (induction n rule: nat_dec.induct)
  case (1 n)
  show ?case
  proof (cases "n < 10")
    case True
    with 1 show ?thesis by (simp add: nat_dec.simps [of n])
  next
    case False
    with 1 show ?thesis by (auto simp: nat_dec.simps [of n])
  qed
qed

lemma nat_dec_nonempty [simp]: "nat_dec n \<noteq> []"
  by (subst nat_dec.simps) simp

lemma digits_val_nat_dec [simp]: "digits_val (nat_dec n) = n"
proof (induction n rule: nat_dec.induct)
  case (1 n)
  then show ?case by (cases "n < 10") (simp_all add: nat_dec.simps [of n] digits_val_def)
qed

lemma nat_dec_eq_iff [simp]: "nat_dec m = nat_dec n \<longleftrightarrow> m = n"
  by (metis digits_val_nat_dec)

lemma nat_dec_zero_head: "hd (nat_dec n) = CHR ''0'' \<Longrightarrow> nat_dec n = ''0''"
proof (induction n rule: nat_dec.induct)
  case (1 n)
  show ?case
  proof (cases "n < 10")
    case True
    with 1 show ?thesis by (simp add: nat_dec.simps [of n])
  next
    case False
    with 1 have "hd (nat_dec (n div 10)) = CHR ''0''" by (simp add: nat_dec.simps [of n])
    with 1 False have "nat_dec (n div 10) = ''0''" by simp
    then have "digits_val (nat_dec (n div 10)) = digits_val ''0''" by simp
    then have "n div 10 = digits_val ''0''" by (simp only: digits_val_nat_dec)
    then have "n div 10 = 0" by (simp add: digits_val_def digit_val_def)
    with False show ?thesis by simp
  qed
qed

lemma is_digit_not [simp]:
  "\<not> is_digit (CHR ''-'')" "\<not> is_digit (CHR ''+'')" "\<not> is_digit (CHR '':'')" "\<not> is_digit (CHR ''.'')"
  by (simp_all add: is_digit_def)

lemma hd_nat_dec_digit [simp]: "is_digit (hd (nat_dec n))"
  by (rule nat_dec_digits [of _ n]) simp

lemma hd_nat_dec_not [simp]: "hd (nat_dec n) \<noteq> CHR ''-''" "hd (nat_dec n) \<noteq> CHR ''+''"
  using hd_nat_dec_digit [of n] is_digit_not by metis+

lemma parse_int_dec [simp, codec]: "in_int64 i \<Longrightarrow> parse_int64 (int_dec i) = Some i"
  by (auto simp: parse_int64_def int_dec_def Let_def list_all_iff nat_dec_digits)

lemma int_dec_colon: "CHR '':'' \<notin> set (int_dec i)"
  using nat_dec_digits [of "CHR '':''"] by (auto simp: int_dec_def)

lemma int_dec_inj [simp]: "int_dec i = int_dec j \<longleftrightarrow> i = j"
proof
  assume eq: "int_dec i = int_dec j"
  show "i = j"
  proof (cases "i < 0")
    case True
    with eq have "j < 0" by (metis hd_nat_dec_not(1) int_dec_def list.sel(1))
    with True eq show ?thesis by (simp add: int_dec_def)
  next
    case False
    with eq have "\<not> j < 0" by (metis hd_nat_dec_not(1) int_dec_def list.sel(1))
    with False eq show ?thesis by (simp add: int_dec_def)
  qed
qed simp

lemma int_dec_nonempty [simp]: "int_dec i \<noteq> []"
  by (simp add: int_dec_def)

end
