(* ===== verification/GoEncoding.thy ===== *)
theory GoEncoding
  imports GoStrings
begin

text \<open>
  Go's \<open>encoding/base64\<close> and \<open>encoding/hex\<close> on byte strings. One encoder and two decoders
  (unpadded and padded) take the alphabet as a parameter; the locale \<open>base64_alphabet\<close>
  states what an alphabet promises, and the URL-safe and the standard alphabet interpret it.
\<close>

subsection \<open>Alphabets\<close>

definition url_char :: "nat \<Rightarrow> char" where
  "url_char n =
     (if n < 26 then chr (65 + n) else if n < 52 then chr (71 + n)
      else if n < 62 then chr (n - 4) else if n = 62 then CHR ''-'' else CHR ''_'')"

definition std_char :: "nat \<Rightarrow> char" where
  "std_char n =
     (if n < 26 then chr (65 + n) else if n < 52 then chr (71 + n)
      else if n < 62 then chr (n - 4) else if n = 62 then CHR ''+'' else CHR ''/'')"

definition alnum_val :: "nat \<Rightarrow> nat option" where
  "alnum_val n =
     (if 65 \<le> n \<and> n \<le> 90 then Some (n - 65)
      else if 97 \<le> n \<and> n \<le> 122 then Some (n - 71)
      else if 48 \<le> n \<and> n \<le> 57 then Some (n + 4) else None)"

definition url_val :: "char \<Rightarrow> nat option" where
  "url_val c =
     (let n = ord c in
      if n = ord (CHR ''-'') then Some 62 else if n = ord (CHR ''_'') then Some 63
      else alnum_val n)"

definition std_val :: "char \<Rightarrow> nat option" where
  "std_val c =
     (let n = ord c in
      if n = ord (CHR ''+'') then Some 62 else if n = ord (CHR ''/'') then Some 63
      else alnum_val n)"

subsection \<open>Encoder and decoders\<close>

fun b64_enc :: "(nat \<Rightarrow> char) \<Rightarrow> string \<Rightarrow> string" where
  "b64_enc f [] = []"
| "b64_enc f [a] = [f (ord a div 4), f (ord a mod 4 * 16)]"
| "b64_enc f [a, b] =
     [f (ord a div 4), f (ord a mod 4 * 16 + ord b div 16), f (ord b mod 16 * 4)]"
| "b64_enc f (a # b # c # s) =
     f (ord a div 4) # f (ord a mod 4 * 16 + ord b div 16) #
     f (ord b mod 16 * 4 + ord c div 64) # f (ord c mod 64) # b64_enc f s"

definition b64_out1 :: "nat \<Rightarrow> nat \<Rightarrow> string" where
  "b64_out1 x y = [chr (x * 4 + y div 16)]"

definition b64_out2 :: "nat \<Rightarrow> nat \<Rightarrow> nat \<Rightarrow> string" where
  "b64_out2 x y z = [chr (x * 4 + y div 16), chr (y mod 16 * 16 + z div 4)]"

definition b64_out3 :: "nat \<Rightarrow> nat \<Rightarrow> nat \<Rightarrow> nat \<Rightarrow> string" where
  "b64_out3 x y z w =
     [chr (x * 4 + y div 16), chr (y mod 16 * 16 + z div 4), chr (z mod 4 * 64 + w)]"

text \<open>
  \<open>RawURLEncoding\<close> decodes without padding: a final quantum of two or three characters is
  accepted, one of a single character is not. The bits a short quantum leaves over are
  ignored, as the decoders are not in strict mode.
\<close>

fun b64_dec_raw :: "(char \<Rightarrow> nat option) \<Rightarrow> string \<Rightarrow> string option" where
  "b64_dec_raw v [] = Some []"
| "b64_dec_raw v [p] = None"
| "b64_dec_raw v [p, q] =
     (case (v p, v q) of (Some x, Some y) \<Rightarrow> Some (b64_out1 x y) | _ \<Rightarrow> None)"
| "b64_dec_raw v [p, q, r] =
     (case (v p, v q, v r) of (Some x, Some y, Some z) \<Rightarrow> Some (b64_out2 x y z) | _ \<Rightarrow> None)"
| "b64_dec_raw v (p # q # r # t # s) =
     (case (v p, v q, v r, v t) of
        (Some x, Some y, Some z, Some w) \<Rightarrow> map_option ((@) (b64_out3 x y z w)) (b64_dec_raw v s)
      | _ \<Rightarrow> None)"

text \<open>The padded encodings: the last quantum may end in one or two \<open>=\<close>.\<close>

fun b64_dec_pad :: "(char \<Rightarrow> nat option) \<Rightarrow> string \<Rightarrow> string option" where
  "b64_dec_pad v [] = Some []"
| "b64_dec_pad v (p # q # r # t # s) =
     (case (v p, v q, v r, v t) of
        (Some x, Some y, Some z, Some w) \<Rightarrow> map_option ((@) (b64_out3 x y z w)) (b64_dec_pad v s)
      | (Some x, Some y, Some z, None) \<Rightarrow>
          (if t = CHR ''='' \<and> s = [] then Some (b64_out2 x y z) else None)
      | (Some x, Some y, None, None) \<Rightarrow>
          (if r = CHR ''='' \<and> t = CHR ''='' \<and> s = [] then Some (b64_out1 x y) else None)
      | _ \<Rightarrow> None)"
| "b64_dec_pad v s = None"

text \<open>All decoders skip the characters \<open>\r\<close> and \<open>\n\<close> wherever they occur.\<close>

definition drop_newlines :: "string \<Rightarrow> string" where
  "drop_newlines s = filter (\<lambda>c. ord c \<noteq> (10 :: nat) \<and> ord c \<noteq> (13 :: nat)) s"

definition raw_url_encode :: "string \<Rightarrow> string" where
  "raw_url_encode s = b64_enc url_char s"

definition raw_url_decode :: "string \<Rightarrow> string option" where
  "raw_url_decode s = b64_dec_raw url_val (drop_newlines s)"

definition url_decode :: "string \<Rightarrow> string option" where
  "url_decode s = b64_dec_pad url_val (drop_newlines s)"

definition std_decode :: "string \<Rightarrow> string option" where
  "std_decode s = b64_dec_pad std_val (drop_newlines s)"

subsection \<open>Sextets\<close>

lemma sextets:
  fixes a b c :: char
  shows "ord a div 4 < (64 :: nat)" and "ord a mod 4 * 16 < (64 :: nat)"
    and "ord a mod 4 * 16 + ord b div 16 < (64 :: nat)" and "ord b mod 16 * 4 < (64 :: nat)"
    and "ord b mod 16 * 4 + ord c div 64 < (64 :: nat)" and "ord c mod 64 < (64 :: nat)"
proof -
  have lt: "ord a < (256 :: nat)" "ord b < (256 :: nat)" "ord c < (256 :: nat)" by simp_all
  have m: "ord a mod 4 < (4 :: nat)" "ord b mod 16 < (16 :: nat)" by simp_all
  have d: "ord b div 16 < (16 :: nat)" "ord c div 64 < (4 :: nat)"
    using lt by (simp_all add: less_mult_imp_div_less)
  show "ord a div 4 < (64 :: nat)" using lt by (simp add: less_mult_imp_div_less)
  show "ord a mod 4 * 16 < (64 :: nat)" using m by linarith
  show "ord a mod 4 * 16 + ord b div 16 < (64 :: nat)" using m d by linarith
  show "ord b mod 16 * 4 < (64 :: nat)" using m by linarith
  show "ord b mod 16 * 4 + ord c div 64 < (64 :: nat)" using m d by linarith
  show "ord c mod 64 < (64 :: nat)" by simp
qed

lemma threes_induct [case_names Nil One Two Three]:
  fixes s :: string
  assumes "P []" "\<And>a. P [a]" "\<And>a b. P [a, b]" "\<And>a b c s. P s \<Longrightarrow> P (a # b # c # s)"
  shows "P s"
  using assms by (rule b64_enc.induct [where P = "\<lambda>_. P"])

lemma divmod_parts: "y < k \<Longrightarrow> (x * k + y) div k = (x :: nat)" "y < k \<Longrightarrow> (x * k + y) mod k = (y :: nat)"
  by simp_all

lemma b64_bytes:
  fixes a b c :: char
  shows "b64_out1 (ord a div 4) (ord a mod 4 * 16) = [a]"
    and "b64_out2 (ord a div 4) (ord a mod 4 * 16 + ord b div 16) (ord b mod 16 * 4) = [a, b]"
    and "b64_out3 (ord a div 4) (ord a mod 4 * 16 + ord b div 16)
           (ord b mod 16 * 4 + ord c div 64) (ord c mod 64) = [a, b, c]"
proof -
  have lt: "ord b div 16 < (16 :: nat)" "ord c div 64 < (4 :: nat)"
    by (simp_all add: less_mult_imp_div_less)
  have x: "(ord a mod 4 * 16 + ord b div 16) div 16 = (ord a mod 4 :: nat)"
    "(ord a mod 4 * 16 + ord b div 16) mod 16 = (ord b div 16 :: nat)"
    by (rule divmod_parts [OF lt(1)])+
  have y: "(ord b mod 16 * 4 + ord c div 64) div 4 = (ord b mod 16 :: nat)"
    "(ord b mod 16 * 4 + ord c div 64) mod 4 = (ord c div 64 :: nat)"
    by (rule divmod_parts [OF lt(2)])+
  have z: "ord a mod 4 * 16 div 16 = (ord a mod 4 :: nat)" "ord b mod 16 * 4 div 4 = (ord b mod 16 :: nat)"
    by simp_all
  show "b64_out1 (ord a div 4) (ord a mod 4 * 16) = [a]"
    by (simp only: b64_out1_def z div_mult_mod_eq char_of_char)
  show "b64_out2 (ord a div 4) (ord a mod 4 * 16 + ord b div 16) (ord b mod 16 * 4) = [a, b]"
    by (simp only: b64_out2_def x z div_mult_mod_eq char_of_char)
  show "b64_out3 (ord a div 4) (ord a mod 4 * 16 + ord b div 16)
           (ord b mod 16 * 4 + ord c div 64) (ord c mod 64) = [a, b, c]"
    by (simp only: b64_out3_def x y div_mult_mod_eq char_of_char)
qed

subsection \<open>What an alphabet promises\<close>

locale base64_alphabet =
  fixes enc_char :: "nat \<Rightarrow> char"
    and dec_val :: "char \<Rightarrow> nat option"
  assumes dec_enc: "n < 64 \<Longrightarrow> dec_val (enc_char n) = Some n"
    and dec_printable: "dec_val c = Some n \<Longrightarrow> 32 < ord c \<and> ord c < (127 :: nat)"
begin

lemma enc_printable: "n < 64 \<Longrightarrow> 32 < ord (enc_char n) \<and> ord (enc_char n) < (127 :: nat)"
  using dec_enc dec_printable by blast

lemma b64_digits:
  fixes a b c :: char
  shows "dec_val (enc_char (ord a div 4)) = Some (ord a div 4)"
    and "dec_val (enc_char (ord a mod 4 * 16)) = Some (ord a mod 4 * 16)"
    and "dec_val (enc_char (ord a mod 4 * 16 + ord b div 16)) = Some (ord a mod 4 * 16 + ord b div 16)"
    and "dec_val (enc_char (ord b mod 16 * 4)) = Some (ord b mod 16 * 4)"
    and "dec_val (enc_char (ord b mod 16 * 4 + ord c div 64)) = Some (ord b mod 16 * 4 + ord c div 64)"
    and "dec_val (enc_char (ord c mod 64)) = Some (ord c mod 64)"
  by (rule dec_enc, rule sextets)+

lemma dec_raw_enc: "b64_dec_raw dec_val (b64_enc enc_char s) = Some s"
  by (induction s rule: threes_induct) (simp_all add: b64_digits b64_bytes)

lemma enc_chars: "c \<in> set (b64_enc enc_char s) \<Longrightarrow> \<exists>n<64. c = enc_char n"
  by (induction s rule: threes_induct) (auto intro: sextets)

lemma enc_no_newlines: "drop_newlines (b64_enc enc_char s) = b64_enc enc_char s"
proof -
  have "ord c \<noteq> (10 :: nat) \<and> ord c \<noteq> (13 :: nat)" if "c \<in> set (b64_enc enc_char s)" for c
    using enc_chars [OF that] enc_printable by fastforce
  then show ?thesis by (simp add: drop_newlines_def filter_eq_self_iff)
qed

lemma dec_enc_skip: "b64_dec_raw dec_val (drop_newlines (b64_enc enc_char s)) = Some s"
  by (simp add: enc_no_newlines dec_raw_enc)

end

lemma alnum_val_range: "alnum_val n = Some k \<Longrightarrow> 32 < n \<and> n < 127"
  by (auto simp: alnum_val_def split: if_splits)

lemma url_val_char: "n < 64 \<Longrightarrow> url_val (url_char n) = Some n"
  by (auto simp: url_val_def url_char_def alnum_val_def Let_def)

lemma std_val_char: "n < 64 \<Longrightarrow> std_val (std_char n) = Some n"
  by (auto simp: std_val_def std_char_def alnum_val_def Let_def)

interpretation url64: base64_alphabet url_char url_val
  by (unfold_locales, erule url_val_char)
    (auto simp: url_val_def Let_def dest: alnum_val_range split: if_splits)

interpretation std64: base64_alphabet std_char std_val
  by (unfold_locales, erule std_val_char)
    (auto simp: std_val_def Let_def dest: alnum_val_range split: if_splits)

lemma raw_url_roundtrip [simp, codec]: "raw_url_decode (raw_url_encode s) = Some s"
  unfolding raw_url_decode_def raw_url_encode_def by (rule url64.dec_enc_skip)

lemma length_b64_enc: "length (b64_enc f s) = (4 * length s + 2) div 3"
  by (induction f s rule: b64_enc.induct) auto

text \<open>The characters of the URL-safe alphabet.\<close>

definition url_safe :: "char \<Rightarrow> bool" where
  "url_safe c \<longleftrightarrow> url_val c \<noteq> None"

lemma raw_url_encode_safe: "c \<in> set (raw_url_encode s) \<Longrightarrow> url_safe c"
  using url64.enc_chars [of c s] url_val_char by (auto simp: raw_url_encode_def url_safe_def)

lemma url_safe_not: "url_safe c \<Longrightarrow> c \<noteq> CHR ''.'' \<and> c \<noteq> CHR ''='' \<and> c \<noteq> CHR '' ''"
  by (auto simp: url_safe_def url_val_def alnum_val_def)

lemma raw_url_encode_no_dot [simp]: "CHR ''.'' \<notin> set (raw_url_encode s)"
  using raw_url_encode_safe url_safe_not by blast

subsection \<open>Hexadecimal\<close>

definition hex_digit :: "nat \<Rightarrow> char" where
  "hex_digit n = (if n < 10 then chr (48 + n) else chr (87 + n))"

definition hex_val :: "char \<Rightarrow> nat option" where
  "hex_val c =
     (let n = ord c in
      if 48 \<le> n \<and> n \<le> 57 then Some (n - 48)
      else if 97 \<le> n \<and> n \<le> 102 then Some (n - 87)
      else if 65 \<le> n \<and> n \<le> 70 then Some (n - 55) else None)"

text \<open>\<open>hex.EncodeToString\<close>, and the verb \<open>%x\<close> of \<open>fmt\<close> on a byte slice.\<close>

definition hex_encode :: "string \<Rightarrow> string" where
  "hex_encode s = concat (map (\<lambda>c. [hex_digit (ord c div 16), hex_digit (ord c mod 16)]) s)"

text \<open>\<open>hex.DecodeString\<close>: an error for an odd length or a character that is no digit.\<close>

fun hex_decode :: "string \<Rightarrow> string option" where
  "hex_decode [] = Some []"
| "hex_decode [p] = None"
| "hex_decode (p # q # s) =
     (case (hex_val p, hex_val q) of
        (Some x, Some y) \<Rightarrow> map_option ((#) (chr (x * 16 + y))) (hex_decode s)
      | _ \<Rightarrow> None)"

lemma hex_val_digit: "n < 16 \<Longrightarrow> hex_val (hex_digit n) = Some n"
  by (auto simp: hex_val_def hex_digit_def Let_def)

lemma hex_roundtrip [simp, codec]: "hex_decode (hex_encode s) = Some s"
proof (induction s)
  case Nil
  show ?case by (simp add: hex_encode_def)
next
  case (Cons c s)
  have "ord c div 16 < (16 :: nat)" by (simp add: less_mult_imp_div_less)
  moreover have "chr (ord c div 16 * 16 + ord c mod 16) = c"
    by (simp only: div_mult_mod_eq char_of_char)
  ultimately show ?case using Cons by (simp add: hex_encode_def hex_val_digit)
qed

lemma length_hex_encode [simp]: "length (hex_encode s) = 2 * length s"
  by (induction s) (simp_all add: hex_encode_def)

lemma hex_encode_append: "hex_encode (s @ t) = hex_encode s @ hex_encode t"
  by (simp add: hex_encode_def)

end
