(* ===== verification/GoHash.thy ===== *)
theory GoHash
  imports Prelude
begin

text \<open>
  Go's \<open>crypto/sha256\<close> and \<open>crypto/hmac\<close> on byte buffers: SHA-256 (FIPS 180-4) on 32-bit
  words with wrap-around addition, and HMAC with its 64-byte block.
\<close>

unbundle bit_operations_syntax

type_synonym u32 = "32 word"

definition rotr32 :: "nat \<Rightarrow> u32 \<Rightarrow> u32" where
  "rotr32 n x = drop_bit n x OR push_bit (32 - n) x"

definition sha_ch :: "u32 \<Rightarrow> u32 \<Rightarrow> u32 \<Rightarrow> u32" where
  "sha_ch x y z = (x AND y) XOR (NOT x AND z)"

definition sha_maj :: "u32 \<Rightarrow> u32 \<Rightarrow> u32 \<Rightarrow> u32" where
  "sha_maj x y z = (x AND y) XOR (x AND z) XOR (y AND z)"

definition sha_S0 :: "u32 \<Rightarrow> u32" where
  "sha_S0 x = rotr32 2 x XOR rotr32 13 x XOR rotr32 22 x"

definition sha_S1 :: "u32 \<Rightarrow> u32" where
  "sha_S1 x = rotr32 6 x XOR rotr32 11 x XOR rotr32 25 x"

definition sha_s0 :: "u32 \<Rightarrow> u32" where
  "sha_s0 x = rotr32 7 x XOR rotr32 18 x XOR drop_bit 3 x"

definition sha_s1 :: "u32 \<Rightarrow> u32" where
  "sha_s1 x = rotr32 17 x XOR rotr32 19 x XOR drop_bit 10 x"

definition sha_K :: "u32 list" where
  "sha_K =
    [1116352408, 1899447441, 3049323471, 3921009573, 961987163, 1508970993, 2453635748, 2870763221,
     3624381080, 310598401, 607225278, 1426881987, 1925078388, 2162078206, 2614888103, 3248222580,
     3835390401, 4022224774, 264347078, 604807628, 770255983, 1249150122, 1555081692, 1996064986,
     2554220882, 2821834349, 2952996808, 3210313671, 3336571891, 3584528711, 113926993, 338241895,
     666307205, 773529912, 1294757372, 1396182291, 1695183700, 1986661051, 2177026350, 2456956037,
     2730485921, 2820302411, 3259730800, 3345764771, 3516065817, 3600352804, 4094571909, 275423344,
     430227734, 506948616, 659060556, 883997877, 958139571, 1322822218, 1537002063, 1747873779,
     1955562222, 2024104815, 2227730452, 2361852424, 2428436474, 2756734187, 3204031479, 3329325298]"

type_synonym sha_state = "u32 \<times> u32 \<times> u32 \<times> u32 \<times> u32 \<times> u32 \<times> u32 \<times> u32"

definition sha_H0 :: sha_state where
  "sha_H0 = (1779033703, 3144134277, 1013904242, 2773480762,
             1359893119, 2600822924, 528734635, 1541459225)"

definition word_of_bytes4 :: "byte list \<Rightarrow> u32" where
  "word_of_bytes4 bs = foldl (\<lambda>w b. push_bit 8 w OR ucast b) 0 bs"

fun words_of_bytes :: "nat \<Rightarrow> byte list \<Rightarrow> u32 list" where
  "words_of_bytes 0 bs = []"
| "words_of_bytes (Suc n) bs = word_of_bytes4 (take 4 bs) # words_of_bytes n (drop 4 bs)"

definition bytes_of_word :: "u32 \<Rightarrow> byte list" where
  "bytes_of_word w = [ucast (drop_bit 24 w), ucast (drop_bit 16 w), ucast (drop_bit 8 w), ucast w]"

text \<open>The message schedule: a window of the last 16 words, newest at the end.\<close>

fun sha_schedule :: "nat \<Rightarrow> u32 list \<Rightarrow> u32 list" where
  "sha_schedule 0 win = win"
| "sha_schedule (Suc n) win =
     hd win # sha_schedule n
       (tl win @ [sha_s1 (win ! 14) + win ! 9 + sha_s0 (win ! 1) + win ! 0])"

definition sha_round :: "sha_state \<Rightarrow> u32 \<times> u32 \<Rightarrow> sha_state" where
  "sha_round st kw = (case st of (a, b, c, d, e, f, g, h) \<Rightarrow>
     (let t1 = h + sha_S1 e + sha_ch e f g + fst kw + snd kw;
          t2 = sha_S0 a + sha_maj a b c
      in (t1 + t2, a, b, c, d + t1, e, f, g)))"

definition sha_add :: "sha_state \<Rightarrow> sha_state \<Rightarrow> sha_state" where
  "sha_add s t = (case s of (a, b, c, d, e, f, g, h) \<Rightarrow> case t of (a', b', c', d', e', f', g', h') \<Rightarrow>
     (a + a', b + b', c + c', d + d', e + e', f + f', g + g', h + h'))"

definition sha_block :: "sha_state \<Rightarrow> byte list \<Rightarrow> sha_state" where
  "sha_block st blk =
     sha_add st (foldl sha_round st (zip sha_K (sha_schedule 48 (words_of_bytes 16 blk))))"

function sha_blocks :: "sha_state \<Rightarrow> byte list \<Rightarrow> sha_state" where
  "sha_blocks st bs = (if bs = [] then st else sha_blocks (sha_block st (take 64 bs)) (drop 64 bs))"
  by pat_completeness auto
termination
  by (relation "measure (\<lambda>(st, bs). length bs)") auto

declare sha_blocks.simps [simp del]

text \<open>The length in bits, as a big-endian 64-bit word.\<close>

definition sha_length_bytes :: "nat \<Rightarrow> byte list" where
  "sha_length_bytes n =
     (let w = (word_of_nat n :: 64 word)
      in map (\<lambda>i. ucast (drop_bit (8 * i) w)) [7, 6, 5, 4, 3, 2, 1, 0])"

definition sha_pad :: "byte list \<Rightarrow> byte list" where
  "sha_pad bs =
     bs @ 0x80 # replicate ((119 - length bs mod 64) mod 64) 0 @ sha_length_bytes (8 * length bs)"

definition sha_digest :: "sha_state \<Rightarrow> byte list" where
  "sha_digest st = (case st of (a, b, c, d, e, f, g, h) \<Rightarrow>
     concat (map bytes_of_word [a, b, c, d, e, f, g, h]))"

text \<open>\<open>sha256.Sum256\<close>.\<close>

definition sha256 :: "byte list \<Rightarrow> byte list" where
  "sha256 bs = sha_digest (sha_blocks sha_H0 (sha_pad bs))"

text \<open>\<open>hmac.New(sha256.New, key)\<close>, one \<open>Write\<close>, \<open>Sum(nil)\<close>.\<close>

definition hmac_key :: "byte list \<Rightarrow> byte list" where
  "hmac_key key =
     (let k = (if length key > 64 then sha256 key else key) in k @ replicate (64 - length k) 0)"

definition hmac_sha256 :: "byte list \<Rightarrow> byte list \<Rightarrow> byte list" where
  "hmac_sha256 key msg =
     (let k = hmac_key key in
      sha256 (map (\<lambda>b. b XOR 0x5c) k @ sha256 (map (\<lambda>b. b XOR 0x36) k @ msg)))"

lemma length_sha_digest [simp]: "length (sha_digest st) = 32"
  by (simp add: sha_digest_def bytes_of_word_def split: prod.splits)

lemma length_sha256 [simp]: "length (sha256 bs) = 32"
  by (simp add: sha256_def)

lemma length_hmac_sha256 [simp]: "length (hmac_sha256 key msg) = 32"
  by (simp add: hmac_sha256_def Let_def)

lemma length_hmac_key: "length (hmac_key key) = 64"
  by (auto simp: hmac_key_def Let_def)

text \<open>Padding fills whole blocks, as the compression loop needs.\<close>

lemma sha_pad_blocks: "length (sha_pad bs) mod 64 = 0"
proof -
  have len: "length (sha_length_bytes n) = 8" for n
    by (simp add: sha_length_bytes_def Let_def)
  have "(9 + (n + (119 - n mod 64) mod 64)) mod 64 = 0" for n :: nat
  proof -
    have "(9 + (n + (119 - n mod 64) mod 64)) mod 64 = (9 + (n mod 64 + (119 - n mod 64))) mod 64"
      by (metis mod_add_left_eq mod_add_right_eq)
    also have "9 + (n mod 64 + (119 - n mod 64)) = 128"
      using mod_less_divisor [of 64 n] by linarith
    finally show ?thesis by simp
  qed
  then show ?thesis by (simp add: sha_pad_def len ac_simps)
qed

end
