(* ===== verification/GoJSON.thy ===== *)
theory GoJSON
  imports GoStrings GoEncoding
begin

text \<open>
  Go's \<open>encoding/json\<close> at the level of bytes: the encoder (with its HTML and UTF-8
  escaping), the scanner as a token machine with an explicit stack of open arrays and
  objects (nesting limit 10000), \<open>Unmarshal\<close> and \<open>Decoder.Decode\<close>, and the decoding of
  values into fields (case-insensitive keys, last occurrence wins, \<open>null\<close> leaves a
  field as it is, a type mismatch is an error).
\<close>

datatype json =
    JNull
  | JBool bool
  | JNum string
  | JStr string
  | JArr "json list"
  | JObj "(string \<times> json) list"

subsection \<open>UTF-8\<close>

definition utf8_cont :: "char \<Rightarrow> bool" where
  "utf8_cont c \<longleftrightarrow> 128 \<le> ord c \<and> ord c \<le> (191 :: nat)"

text \<open>The number of bytes of the rune at the head of a string, 0 if the head is no valid rune.\<close>

definition cont_at :: "string \<Rightarrow> nat \<Rightarrow> bool" where
  "cont_at t i \<longleftrightarrow> i < length t \<and> utf8_cont (t ! i)"

text \<open>The bounds on the second byte that exclude overlong forms, surrogates and runes above U+10FFFF.\<close>

definition second_ok :: "nat \<Rightarrow> string \<Rightarrow> bool" where
  "second_ok n t \<longleftrightarrow>
     (n = 0xE0 \<longrightarrow> 0xA0 \<le> ord (t ! 0)) \<and> (n = 0xED \<longrightarrow> ord (t ! 0) \<le> (0x9F :: nat)) \<and>
     (n = 0xF0 \<longrightarrow> 0x90 \<le> ord (t ! 0)) \<and> (n = 0xF4 \<longrightarrow> ord (t ! 0) \<le> (0x8F :: nat))"

definition utf8_multi :: "nat \<Rightarrow> string \<Rightarrow> nat" where
  "utf8_multi n t =
     (if 0xC2 \<le> n \<and> n \<le> 0xDF then (if cont_at t 0 then 2 else 0)
      else if 0xE0 \<le> n \<and> n \<le> 0xEF
      then (if cont_at t 0 \<and> cont_at t 1 \<and> second_ok n t then 3 else 0)
      else if 0xF0 \<le> n \<and> n \<le> 0xF4
      then (if cont_at t 0 \<and> cont_at t 1 \<and> cont_at t 2 \<and> second_ok n t then 4 else 0)
      else 0)"

fun utf8_width :: "string \<Rightarrow> nat" where
  "utf8_width [] = 0"
| "utf8_width (c # t) = (if ord c < (0x80 :: nat) then 1 else utf8_multi (ord c) t)"

declare utf8_width.simps(2) [simp del]

function valid_utf8 :: "string \<Rightarrow> bool" where
  "valid_utf8 [] = True"
| "valid_utf8 (c # s) =
     (utf8_width (c # s) > 0 \<and> valid_utf8 (drop (utf8_width (c # s) - 1) s))"
  by pat_completeness auto
termination
  by (relation "measure length") auto

definition utf8_encode :: "nat \<Rightarrow> string" where
  "utf8_encode r =
     (if r < 0x80 then [chr r]
      else if r < 0x800 then [chr (0xC0 + r div 64), chr (0x80 + r mod 64)]
      else if r < 0x10000
      then [chr (0xE0 + r div 4096), chr (0x80 + r div 64 mod 64), chr (0x80 + r mod 64)]
      else [chr (0xF0 + r div 262144), chr (0x80 + r div 4096 mod 64),
            chr (0x80 + r div 64 mod 64), chr (0x80 + r mod 64)])"

definition rune_error :: string where
  "rune_error = [chr 0xEF, chr 0xBF, chr 0xBD]"

lemma cont_at_length: "cont_at t i \<Longrightarrow> Suc i \<le> length t"
  by (simp add: cont_at_def)

lemma cont_at_append: "cont_at t i \<Longrightarrow> cont_at (t @ q) i"
  by (simp add: cont_at_def nth_append)

lemma second_ok_append: "cont_at t 0 \<Longrightarrow> second_ok n (t @ q) = second_ok n t"
  by (simp add: second_ok_def cont_at_def nth_append)

lemma utf8_multi_le: "utf8_multi n t \<le> Suc (length t)"
  by (auto simp: utf8_multi_def dest: cont_at_length)

lemma utf8_multi_append: "0 < utf8_multi n t \<Longrightarrow> utf8_multi n (t @ q) = utf8_multi n t"
  by (simp add: utf8_multi_def cont_at_append second_ok_append split: if_split_asm)

lemma utf8_width_le: "utf8_width s \<le> length s"
  using utf8_multi_le by (cases s) (auto simp: utf8_width.simps(2))

lemma utf8_width_append: "0 < utf8_width p \<Longrightarrow> utf8_width (p @ q) = utf8_width p"
  by (cases p) (auto simp: utf8_width.simps(2) utf8_multi_append)

lemma cont_at_take: "i < k \<Longrightarrow> cont_at (take k t) i = cont_at t i"
  by (simp add: cont_at_def)

lemma second_ok_take: "0 < k \<Longrightarrow> second_ok n (take k t) = second_ok n t"
  by (simp add: second_ok_def)

lemma utf8_width_take: "0 < utf8_width s \<Longrightarrow> utf8_width (take (utf8_width s) s) = utf8_width s"
proof (cases s)
  case (Cons c t)
  have "utf8_multi n (take (utf8_multi n t - 1) t) = utf8_multi n t" if "0 < utf8_multi n t" for n
    using that by (simp add: utf8_multi_def cont_at_take second_ok_take split: if_split_asm)
  from this [of "ord c"] show "0 < utf8_width s \<Longrightarrow> ?thesis" using Cons
    by (cases "utf8_width s") (auto simp: utf8_width.simps(2))
qed simp

lemma utf8_width_ascii: "ord c < (0x80 :: nat) \<Longrightarrow> utf8_width (c # s) = 1"
  by (simp add: utf8_width.simps(2))

lemma ascii_valid_utf8: "is_ascii s \<Longrightarrow> valid_utf8 s"
  by (induction s) (auto simp: is_ascii_def utf8_width_ascii)

subsection \<open>Strings\<close>

abbreviation quote_char :: char where
  "quote_char \<equiv> CHR 0x22"

abbreviation bslash :: char where
  "bslash \<equiv> CHR 0x5C"

definition esc_ascii :: "char \<Rightarrow> string" where
  "esc_ascii c =
     (let n = (ord c :: nat) in
      if n = 0x5C \<or> n = 0x22 then [bslash, c]
      else if n = 8 then [bslash, CHR ''b''] else if n = 12 then [bslash, CHR ''f'']
      else if n = 10 then [bslash, CHR ''n''] else if n = 13 then [bslash, CHR ''r'']
      else if n = 9 then [bslash, CHR ''t'']
      else if n < 32 \<or> n = 0x3C \<or> n = 0x3E \<or> n = 0x26
      then bslash # ''u00'' @ [hex_digit (n div 16), hex_digit (n mod 16)]
      else [c])"

text \<open>
  The escape of the rune (or invalid byte) at the head of \<open>c # s\<close>, and the rest.
\<close>

definition esc_rune :: "char \<Rightarrow> string \<Rightarrow> string \<times> string" where
  "esc_rune c s =
     (let w = utf8_width (c # s); head = map ord (take 3 (c # s)) in
      if ord c < (0x80 :: nat) then (esc_ascii c, s)
      else if w = 0 then (bslash # ''ufffd'', s)
      else if head = [0xE2, 0x80, 0xA8 :: nat] then (bslash # ''u2028'', drop 2 s)
      else if head = [0xE2, 0x80, 0xA9 :: nat] then (bslash # ''u2029'', drop 2 s)
      else (take w (c # s), drop (w - 1) s))"

function json_escape :: "string \<Rightarrow> string" where
  "json_escape [] = []"
| "json_escape (c # s) = fst (esc_rune c s) @ json_escape (snd (esc_rune c s))"
  by pat_completeness auto
termination
  by (relation "measure length") (auto simp: esc_rune_def Let_def)

text \<open>Four hexadecimal digits after \<open>\u\<close>.\<close>

definition hex4 :: "string \<Rightarrow> (nat \<times> string) option" where
  "hex4 s = (case s of
     a # b # c # d # t \<Rightarrow>
       (case (hex_val a, hex_val b, hex_val c, hex_val d) of
          (Some w, Some x, Some y, Some z) \<Rightarrow> Some (((w * 16 + x) * 16 + y) * 16 + z, t)
        | _ \<Rightarrow> None)
   | _ \<Rightarrow> None)"

definition simple_escape :: "char \<Rightarrow> char option" where
  "simple_escape c =
     (if c \<in> {quote_char, bslash, CHR ''/''} then Some c
      else if c = CHR ''b'' then Some (chr 8) else if c = CHR ''f'' then Some (chr 12)
      else if c = CHR ''n'' then Some (chr 10) else if c = CHR ''r'' then Some (chr 13)
      else if c = CHR ''t'' then Some (chr 9) else None)"

text \<open>
  The rune of a \<open>\u\<close> escape: a high surrogate followed by an escaped low surrogate is one
  rune, any other surrogate is replaced by U+FFFD.
\<close>

definition unicode_escape :: "string \<Rightarrow> (string \<times> string) option" where
  "unicode_escape s = (case hex4 s of None \<Rightarrow> None | Some (r, t) \<Rightarrow>
     if r < 0xD800 \<or> 0xDFFF < r then Some (utf8_encode r, t)
     else if r < 0xDC00 \<and> has_prefix t [bslash, CHR ''u'']
     then (case hex4 (drop 2 t) of
             None \<Rightarrow> Some (rune_error, t)
           | Some (r2, t2) \<Rightarrow>
               if 0xDC00 \<le> r2 \<and> r2 \<le> 0xDFFF
               then Some (utf8_encode ((r - 0xD800) * 0x400 + (r2 - 0xDC00) + 0x10000), t2)
               else Some (rune_error, t))
     else Some (rune_error, t))"

lemma hex4_shorter: "hex4 s = Some (n, t) \<Longrightarrow> length t + 4 = length s"
  by (auto simp: hex4_def split: option.splits list.splits)

lemma unicode_escape_shorter:
  assumes "unicode_escape s = Some (v, t)"
  shows "length t < length s"
proof -
  from assms obtain r t1 where h: "hex4 s = Some (r, t1)"
    by (auto simp: unicode_escape_def split: option.splits)
  have d: "hex4 (drop 2 t1) = Some (n, t) \<Longrightarrow> length t < length s" for n
    using hex4_shorter [OF h] by (auto dest!: hex4_shorter)
  have "t = t1 \<or> (\<exists>n. hex4 (drop 2 t1) = Some (n, t))"
    using assms h by (simp add: unicode_escape_def split: if_split_asm option.split_asm prod.split_asm)
  with d hex4_shorter [OF h] show ?thesis by auto
qed

text \<open>
  One character of a string literal: the bytes it stands for and the rest, \<open>None\<close> where the
  scanner reports an error. \<open>c\<close> is not the closing quote.
\<close>

definition json_char :: "char \<Rightarrow> string \<Rightarrow> (string \<times> string) option" where
  "json_char c s =
     (let w = utf8_width (c # s) in
      if c = bslash
      then (case s of [] \<Rightarrow> None | e # t \<Rightarrow>
              if e = CHR ''u'' then unicode_escape t
              else map_option (\<lambda>d. ([d], t)) (simple_escape e))
      else if ord c < (0x20 :: nat) then None
      else if ord c < (0x80 :: nat) then Some ([c], s)
      else if w = 0 then Some (rune_error, s)
      else Some (take w (c # s), drop (w - 1) s))"

lemma json_char_shorter: "json_char c s = Some (v, t) \<Longrightarrow> length t \<le> length s"
  by (auto simp: json_char_def Let_def split: if_splits list.splits dest: unicode_escape_shorter)

text \<open>The body of a string literal after its opening quote: the value and what follows it.\<close>

function json_unquote :: "string \<Rightarrow> (string \<times> string) option" where
  "json_unquote [] = None"
| "json_unquote (c # s) =
     (if c = quote_char then Some ([], s)
      else (case json_char c s of
              None \<Rightarrow> None
            | Some (v, t) \<Rightarrow> map_option (\<lambda>(w, r). (v @ w, r)) (json_unquote t)))"
  by pat_completeness auto
termination
  by (relation "measure length") (auto dest: json_char_shorter)

lemma json_unquote_shorter: "json_unquote s = Some (v, r) \<Longrightarrow> length r < length s"
proof (induction s arbitrary: v r rule: json_unquote.induct)
  case 1
  then show ?case by simp
next
  case (2 c s)
  show ?case
  proof (cases "c = quote_char")
    case True
    with 2 show ?thesis by simp
  next
    case False
    with 2 obtain w t v' where "json_char c s = Some (w, t)" "json_unquote t = Some (v', r)"
      by (auto split: option.splits)
    with 2(1) False json_char_shorter show ?thesis by fastforce
  qed
qed

text \<open>An encoded string is read back as it was, if it is valid UTF-8.\<close>

lemma hex_val_zero: "hex_val (CHR ''0'') = Some 0"
  by (simp add: hex_val_def)

lemma json_char_esc_ascii:
  assumes "ord c < (0x80 :: nat)"
  shows "\<exists>d e. esc_ascii c = d # e \<and> d \<noteq> quote_char \<and> json_char d (e @ r) = Some ([c], r)"
proof -
  have ctrl: "json_char bslash (CHR ''u'' # ''00'' @ hex_digit (ord c div 16) # hex_digit (ord c mod 16) # r)
      = Some ([c], r)"
  proof -
    have "ord c div 16 < (16 :: nat)" using assms by (simp add: less_mult_imp_div_less)
    then have "hex4 (''00'' @ hex_digit (ord c div 16) # hex_digit (ord c mod 16) # r) = Some (ord c, r)"
      by (simp add: hex4_def hex_val_zero hex_val_digit)
    with assms show ?thesis
      by (simp add: json_char_def unicode_escape_def utf8_encode_def)
  qed
  have chr_ord: "ord c = n \<Longrightarrow> c = chr n" for n :: nat
    by (metis char_of_char)
  let ?n = "ord c :: nat"
  let ?ctrl = "?n < 32 \<or> ?n = 0x3C \<or> ?n = 0x3E \<or> ?n = 0x26"
  consider "?n = 0x5C \<or> ?n = 0x22" | "?n \<in> {8, 12, 10, 13, 9}"
    | "?ctrl" "?n \<notin> {8, 12, 10, 13, 9}"
    | "\<not> ?ctrl" "\<not> (?n = 0x5C \<or> ?n = 0x22)" by blast
  then show ?thesis
  proof cases
    case 1
    then have "ord c = (ord bslash :: nat) \<or> ord c = (ord quote_char :: nat)" by simp
    then have "c = bslash \<or> c = quote_char" by (simp only: of_char_eq_iff)
    then show ?thesis by (auto simp: esc_ascii_def Let_def json_char_def simple_escape_def)
  next
    case 2
    then have "c \<in> {chr 8, chr 12, chr 10, chr 13, chr 9}" using chr_ord by blast
    then show ?thesis by (auto simp: esc_ascii_def Let_def json_char_def simple_escape_def)
  next
    case 3
    then have "esc_ascii c = bslash # ''u00'' @ [hex_digit (?n div 16), hex_digit (?n mod 16)]"
      by (auto simp: esc_ascii_def Let_def)
    with ctrl show ?thesis by simp
  next
    case 4
    then have "esc_ascii c = [c]" "c \<noteq> quote_char" "c \<noteq> bslash"
      by (auto simp: esc_ascii_def Let_def)
    with 4 assms show ?thesis by (simp add: json_char_def)
  qed
qed

lemma json_char_multi:
  assumes "0x80 \<le> (ord c :: nat)" "0 < utf8_width (c # s)"
  obtains d e where "fst (esc_rune c s) = d # e" "d \<noteq> quote_char"
    "json_char d (e @ r) = Some (take (utf8_width (c # s)) (c # s), r)"
    "snd (esc_rune c s) = drop (utf8_width (c # s) - 1) s"
proof -
  let ?w = "utf8_width (c # s)" and ?head = "map ord (take 3 (c # s)) :: nat list"
  have cne: "c \<noteq> bslash" "c \<noteq> quote_char" using assms(1) by auto
  have sep: "take ?w (c # s) = p" "?w = 3" if "?head = map ord p" "p \<in> {[chr 0xE2, chr 0x80, chr 0xA8], [chr 0xE2, chr 0x80, chr 0xA9]}" for p
  proof -
    have "take 3 (c # s) = p" using that(1) by (simp only: map_injective [OF _ inj_of_char])
    then have "c # s = p @ drop 3 (c # s)" by (metis append_take_drop_id)
    then have "?w = utf8_width (p @ drop 3 (c # s))" by (rule arg_cong)
    also have "\<dots> = 3" using that(2)
      by (auto simp: utf8_width.simps utf8_multi_def cont_at_def utf8_cont_def second_ok_def)
    finally show "?w = 3" .
    with \<open>take 3 (c # s) = p\<close> show "take ?w (c # s) = p" by simp
  qed
  consider "?head = [0xE2, 0x80, 0xA8]" | "?head = [0xE2, 0x80, 0xA9]"
    | "?head \<noteq> [0xE2, 0x80, 0xA8]" "?head \<noteq> [0xE2, 0x80, 0xA9]" by blast
  then show ?thesis
  proof cases
    case 1
    then have "?w = 3" "take ?w (c # s) = [chr 0xE2, chr 0x80, chr 0xA8]"
      using sep [of "[chr 0xE2, chr 0x80, chr 0xA8]"] by simp_all
    with 1 assms show ?thesis
      by (intro that [of bslash "''u2028''"])
        (simp_all add: esc_rune_def Let_def json_char_def unicode_escape_def hex4_def hex_val_def
           utf8_encode_def)
  next
    case 2
    then have "?w = 3" "take ?w (c # s) = [chr 0xE2, chr 0x80, chr 0xA9]"
      using sep [of "[chr 0xE2, chr 0x80, chr 0xA9]"] by simp_all
    with 2 assms show ?thesis
      by (intro that [of bslash "''u2029''"])
        (simp_all add: esc_rune_def Let_def json_char_def unicode_escape_def hex4_def hex_val_def
           utf8_encode_def)
  next
    case 3
    let ?e = "take (?w - 1) s"
    have tk: "take ?w (c # s) = c # ?e" using assms(2) by (cases ?w) auto
    have w: "utf8_width (c # ?e @ r) = ?w"
    proof -
      have "utf8_width (take ?w (c # s)) = ?w" using assms(2) by (rule utf8_width_take)
      then show ?thesis using tk utf8_width_append [of "take ?w (c # s)" r] assms(2) by simp
    qed
    from 3 assms have "esc_rune c s = (take ?w (c # s), drop (?w - 1) s)"
      by (auto simp: esc_rune_def Let_def)
    moreover have "json_char c (?e @ r) = Some (take ?w (c # s), r)"
    proof -
      have "length ?e = ?w - 1" using utf8_width_le [of "c # s"] by simp
      then have "take ?w (c # ?e @ r) = c # ?e" "drop (?w - 1) (?e @ r) = r"
        using assms(2) by (simp_all add: take_Cons' del: length_take)
      with assms cne w tk show ?thesis by (simp add: json_char_def Let_def)
    qed
    ultimately show ?thesis using cne tk by (intro that [of c ?e]) simp_all
  qed
qed

lemma json_string_roundtrip [codec]:
  "valid_utf8 s \<Longrightarrow> json_unquote (json_escape s @ quote_char # r) = Some (s, r)"
proof (induction s rule: valid_utf8.induct)
  case 1
  show ?case by simp
next
  case (2 c s)
  let ?w = "utf8_width (c # s)"
  from 2 have w: "0 < ?w" and v: "valid_utf8 (drop (?w - 1) s)" by simp_all
  let ?rest = "json_escape (drop (?w - 1) s) @ quote_char # r"
  have "\<exists>d e. fst (esc_rune c s) = d # e \<and> d \<noteq> quote_char \<and>
      json_char d (e @ ?rest) = Some (take ?w (c # s), ?rest) \<and>
      snd (esc_rune c s) = drop (?w - 1) s"
  proof (cases "ord c < (0x80 :: nat)")
    case True
    then have "?w = 1" "esc_rune c s = (esc_ascii c, s)"
      by (simp_all add: utf8_width_ascii esc_rune_def)
    with json_char_esc_ascii [OF True] show ?thesis by fastforce
  next
    case False
    then show ?thesis using json_char_multi [of c s ?rest] w by (metis linorder_not_less)
  qed
  then obtain d e where de: "fst (esc_rune c s) = d # e" "d \<noteq> quote_char"
    "json_char d (e @ ?rest) = Some (take ?w (c # s), ?rest)"
    "snd (esc_rune c s) = drop (?w - 1) s" by blast
  have "json_unquote ?rest = Some (drop (?w - 1) s, r)" using 2(1) v w by simp
  moreover have "take ?w (c # s) @ drop (?w - 1) s = c # s"
    using w by (cases ?w) auto
  ultimately show ?case using de by simp
qed

subsection \<open>The scanner\<close>

datatype tok =
    TLBrace | TRBrace | TLBrack | TRBrack | TColon | TComma
  | TStr string | TNum string | TLit json

definition json_space :: "char \<Rightarrow> bool" where
  "json_space c \<longleftrightarrow> ord c \<in> {32, 9, 13, 10 :: nat}"

definition skip_ws :: "string \<Rightarrow> string" where
  "skip_ws s = dropWhile json_space s"

text \<open>Numbers: \<open>-? (0 | [1-9][0-9]*) (. [0-9]+)? ([eE] [+-]? [0-9]+)?\<close>.\<close>

definition lex_exp :: "string \<Rightarrow> string \<Rightarrow> (string \<times> string) option" where
  "lex_exp acc s = (case s of [] \<Rightarrow> Some (acc, []) | e # r \<Rightarrow>
     if e = CHR ''e'' \<or> e = CHR ''E''
     then (let sg = (if r \<noteq> [] \<and> (hd r = CHR ''+'' \<or> hd r = CHR ''-'') then [hd r] else []);
               u = drop (length sg) r
           in if takeWhile is_digit u = [] then None
              else Some (acc @ [e] @ sg @ takeWhile is_digit u, dropWhile is_digit u))
     else Some (acc, s))"

definition lex_frac :: "string \<Rightarrow> string \<Rightarrow> (string \<times> string) option" where
  "lex_frac acc s =
     (if s \<noteq> [] \<and> hd s = CHR ''.''
      then (if takeWhile is_digit (tl s) = [] then None
            else lex_exp (acc @ ''.'' @ takeWhile is_digit (tl s)) (dropWhile is_digit (tl s)))
      else lex_exp acc s)"

definition lex_number :: "string \<Rightarrow> (string \<times> string) option" where
  "lex_number s =
     (let sg = (if s \<noteq> [] \<and> hd s = CHR ''-'' then ''-'' else []);
          t = drop (length sg) s
      in if t \<noteq> [] \<and> hd t = CHR ''0'' then lex_frac (sg @ ''0'') (tl t)
         else if t \<noteq> [] \<and> is_digit (hd t)
         then lex_frac (sg @ takeWhile is_digit t) (dropWhile is_digit t)
         else None)"

lemma lex_exp_shorter: "lex_exp acc s = Some (n, r) \<Longrightarrow> length r \<le> length s"
proof (cases s)
  case (Cons e t)
  have k: "length (dropWhile is_digit (drop k t)) \<le> Suc (length t)" for k
    by (metis length_dropWhile_le length_drop diff_le_self le_trans le_SucI)
  from k [of 0] k [of 1] Cons show "lex_exp acc s = Some (n, r) \<Longrightarrow> ?thesis"
    by (auto simp: lex_exp_def Let_def split: if_split_asm)
qed (simp add: lex_exp_def)

lemma lex_frac_shorter:
  assumes "lex_frac acc s = Some (n, r)"
  shows "length r \<le> length s"
proof -
  have "length (dropWhile is_digit (tl s)) \<le> length s"
    by (metis diff_le_self le_trans length_dropWhile_le length_tl)
  moreover from assms obtain acc' s' where "lex_exp acc' s' = Some (n, r)"
    "s' = s \<or> s' = dropWhile is_digit (tl s)"
    unfolding lex_frac_def by (metis option.distinct(1))
  ultimately show ?thesis using lex_exp_shorter by fastforce
qed

lemma lex_number_shorter:
  assumes "lex_number s = Some (n, r)"
  shows "length r < length s"
proof -
  have drop: "length (dropWhile is_digit t) < length t" if "t \<noteq> []" "is_digit (hd t)" for t
    using that by (cases t) (auto simp: le_imp_less_Suc length_dropWhile_le)
  from assms obtain acc t k where t: "t = drop k s" "t \<noteq> []"
    "lex_frac acc (tl t) = Some (n, r) \<or>
     is_digit (hd t) \<and> lex_frac acc (dropWhile is_digit t) = Some (n, r)"
    unfolding lex_number_def Let_def by (metis option.distinct(1))
  then have "length r < length t" using drop lex_frac_shorter
    by (metis length_tl diff_less le_less_trans length_greater_0_conv zero_less_one)
  with t(1) show ?thesis by simp
qed

definition tok_at :: "char \<Rightarrow> string \<Rightarrow> (tok \<times> string) option" where
  "tok_at c r =
     (if c = CHR ''{'' then Some (TLBrace, r) else if c = CHR ''}'' then Some (TRBrace, r)
      else if c = CHR ''['' then Some (TLBrack, r) else if c = CHR '']'' then Some (TRBrack, r)
      else if c = CHR '':'' then Some (TColon, r) else if c = CHR '','' then Some (TComma, r)
      else if c = quote_char then map_option (\<lambda>(v, t). (TStr v, t)) (json_unquote r)
      else if has_prefix (c # r) ''true'' then Some (TLit (JBool True), drop 3 r)
      else if has_prefix (c # r) ''false'' then Some (TLit (JBool False), drop 4 r)
      else if has_prefix (c # r) ''null'' then Some (TLit JNull, drop 3 r)
      else map_option (\<lambda>(n, t). (TNum n, t)) (lex_number (c # r)))"

definition next_tok :: "string \<Rightarrow> (tok \<times> string) option" where
  "next_tok s = (case skip_ws s of [] \<Rightarrow> None | c # r \<Rightarrow> tok_at c r)"

lemma tok_at_shorter: "tok_at c r = Some (t, r') \<Longrightarrow> length r' \<le> length r"
proof -
  assume ta: "tok_at c r = Some (t, r')"
  then consider "r' = r" | k where "r' = drop k r" | v where "json_unquote r = Some (v, r')"
    | n where "lex_number (c # r) = Some (n, r')"
    unfolding tok_at_def by (simp split: if_split_asm) (blast | fastforce)+
  then show ?thesis
    by cases (auto dest: json_unquote_shorter lex_number_shorter)
qed

lemma next_tok_shorter:
  assumes "next_tok s = Some (t, r)"
  shows "length r < length s"
proof -
  from assms obtain c u where u: "skip_ws s = c # u" "tok_at c u = Some (t, r)"
    by (auto simp: next_tok_def split: list.splits)
  have "length (c # u) \<le> length s" by (metis u(1) skip_ws_def length_dropWhile_le)
  with tok_at_shorter [OF u(2)] show ?thesis by simp
qed

text \<open>
  The frames of the stack are the arrays and objects still open, with what they hold so
  far in reverse; an object frame also holds the key whose value is being read. The mode
  says which token may follow.
\<close>

datatype frame = FArr "json list" | FObj "(string \<times> json) list" string

datatype jmode = MVal | MValOrEnd | MKey | MKeyOrEnd | MColon | MAfter

datatype jres = JErr | JDone json | JNext jmode "frame list"

definition max_depth :: nat where
  "max_depth = 10000"

fun jcomplete :: "json \<Rightarrow> frame list \<Rightarrow> jres" where
  "jcomplete v [] = JDone v"
| "jcomplete v (FArr vs # st) = JNext MAfter (FArr (v # vs) # st)"
| "jcomplete v (FObj kvs k # st) = JNext MAfter (FObj ((k, v) # kvs) k # st)"

definition jopen :: "frame \<Rightarrow> jmode \<Rightarrow> frame list \<Rightarrow> jres" where
  "jopen f m st = (if length st < max_depth then JNext m (f # st) else JErr)"

fun jvalue :: "frame list \<Rightarrow> tok \<Rightarrow> jres" where
  "jvalue st TLBrace = jopen (FObj [] []) MKeyOrEnd st"
| "jvalue st TLBrack = jopen (FArr []) MValOrEnd st"
| "jvalue st (TStr s) = jcomplete (JStr s) st"
| "jvalue st (TNum n) = jcomplete (JNum n) st"
| "jvalue st (TLit v) = jcomplete v st"
| "jvalue st _ = JErr"

fun jstep :: "jmode \<Rightarrow> frame list \<Rightarrow> tok \<Rightarrow> jres" where
  "jstep MVal st t = jvalue st t"
| "jstep MValOrEnd (FArr vs # st) TRBrack = jcomplete (JArr (rev vs)) st"
| "jstep MValOrEnd st t = jvalue st t"
| "jstep MKeyOrEnd (FObj kvs k # st) TRBrace = jcomplete (JObj (rev kvs)) st"
| "jstep MKeyOrEnd (FObj kvs k # st) (TStr s) = JNext MColon (FObj kvs s # st)"
| "jstep MKey (FObj kvs k # st) (TStr s) = JNext MColon (FObj kvs s # st)"
| "jstep MColon st TColon = JNext MVal st"
| "jstep MAfter (FArr vs # st) TComma = JNext MVal (FArr vs # st)"
| "jstep MAfter (FArr vs # st) TRBrack = jcomplete (JArr (rev vs)) st"
| "jstep MAfter (FObj kvs k # st) TComma = JNext MKey (FObj kvs k # st)"
| "jstep MAfter (FObj kvs k # st) TRBrace = jcomplete (JObj (rev kvs)) st"
| "jstep _ _ _ = JErr"

function jrun :: "jmode \<Rightarrow> frame list \<Rightarrow> string \<Rightarrow> (json \<times> string) option" where
  "jrun m st s = (case next_tok s of
     None \<Rightarrow> None
   | Some (t, r) \<Rightarrow> (case jstep m st t of
       JErr \<Rightarrow> None | JDone v \<Rightarrow> Some (v, r) | JNext m' st' \<Rightarrow> jrun m' st' r))"
  by pat_completeness auto
termination
  by (relation "measure (\<lambda>(m, st, s). length s)") (auto dest: next_tok_shorter)

declare jrun.simps [simp del]

text \<open>
  \<open>json.NewDecoder(r).Decode\<close> reads one value and leaves what follows; \<open>json.Unmarshal\<close>
  wants nothing but white space after it.
\<close>

definition json_decode :: "string \<Rightarrow> json option" where
  "json_decode s = map_option fst (jrun MVal [] s)"

definition json_unmarshal :: "string \<Rightarrow> json option" where
  "json_unmarshal s = (case jrun MVal [] s of
     Some (v, r) \<Rightarrow> if skip_ws r = [] then Some v else None
   | None \<Rightarrow> None)"

subsection \<open>The encoder\<close>

definition json_quote :: "string \<Rightarrow> string" where
  "json_quote s = quote_char # json_escape s @ [quote_char]"

fun json_print :: "json \<Rightarrow> string" where
  "json_print JNull = ''null''"
| "json_print (JBool b) = (if b then ''true'' else ''false'')"
| "json_print (JNum n) = n"
| "json_print (JStr s) = json_quote s"
| "json_print (JArr vs) = ''['' @ go_join '','' (map json_print vs) @ '']''"
| "json_print (JObj kvs) =
     ''{'' @ go_join '','' (map (\<lambda>(k, v). json_quote k @ '':'' @ json_print v) kvs) @ ''}''"

text \<open>A Go map is encoded with its keys in byte order.\<close>

definition json_map :: "(string \<times> json) list \<Rightarrow> json" where
  "json_map kvs = JObj (sort_key fst kvs)"

subsection \<open>What is printed is read back\<close>

definition delim :: "string \<Rightarrow> bool" where
  "delim r \<longleftrightarrow> r = [] \<or> ord (hd r) \<in> {44, 93, 125, 32, 9, 13, 10 :: nat}"

lemma delim_simps [simp]:
  "delim []" "delim (CHR '','' # r)" "delim (CHR '']'' # r)" "delim (CHR ''}'' # r)"
  "delim (CHR 0x0A # r)"
  by (simp_all add: delim_def)

lemma delim_not:
  assumes "delim r" "r \<noteq> []"
  shows "\<not> is_digit (hd r)" "hd r \<noteq> CHR ''.''" "hd r \<noteq> CHR ''e''" "hd r \<noteq> CHR ''E''"
  using assms by (auto simp: delim_def is_digit_def)

lemma lex_frac_delim: "delim r \<Longrightarrow> lex_frac acc r = Some (acc, r)"
  by (cases r) (auto simp: lex_frac_def lex_exp_def dest: delim_not)

lemma span_digits:
  assumes "\<forall>c\<in>set ds. is_digit c" "delim r"
  shows "takeWhile is_digit (ds @ r) = ds" "dropWhile is_digit (ds @ r) = r"
  using assms delim_not(1) [of r] by (cases r; simp add: takeWhile_append2 dropWhile_append2)+

lemma lex_nat_dec:
  assumes "delim r" and sg: "sg = [] \<or> sg = ''-''"
  shows "lex_number (sg @ nat_dec n @ r) = Some (sg @ nat_dec n, r)"
proof -
  have ne: "nat_dec n @ r \<noteq> []" "hd (nat_dec n @ r) = hd (nat_dec n)"
    "hd (nat_dec n) \<noteq> CHR ''-''" by simp_all
  have digs: "\<forall>c\<in>set (nat_dec n). is_digit c" using nat_dec_digits by blast
  have zero: "nat_dec n = ''0''" if "hd (nat_dec n) = CHR ''0''"
    using that by (rule nat_dec_zero_head)
  have core: "(if hd (nat_dec n) = CHR ''0'' then lex_frac (sg @ ''0'') (tl (nat_dec n @ r))
       else lex_frac (sg @ takeWhile is_digit (nat_dec n @ r)) (dropWhile is_digit (nat_dec n @ r)))
      = Some (sg @ nat_dec n, r)"
    using zero lex_frac_delim [OF assms(1)] span_digits [OF digs assms(1)] by auto
  from sg ne core show ?thesis
    by (elim disjE) (simp_all add: lex_number_def Let_def split: if_split_asm)
qed

lemma lex_int_dec: "delim r \<Longrightarrow> lex_number (int_dec i @ r) = Some (int_dec i, r)"
  using lex_nat_dec [of r "''-''"] lex_nat_dec [of r "[]"] by (simp add: int_dec_def)

fun json_ok :: "json \<Rightarrow> bool" where
  "json_ok (JNum n) = (\<exists>i. n = int_dec i)"
| "json_ok (JStr s) = valid_utf8 s"
| "json_ok (JArr vs) = (\<forall>v\<in>set vs. json_ok v)"
| "json_ok (JObj kvs) = (\<forall>(k, v)\<in>set kvs. valid_utf8 k \<and> json_ok v)"
| "json_ok _ = True"

fun jdepth :: "json \<Rightarrow> nat" where
  "jdepth (JArr vs) = Suc (Max (insert 0 (set (map jdepth vs))))"
| "jdepth (JObj kvs) = Suc (Max (insert 0 (set (map (\<lambda>(k, v). jdepth v) kvs))))"
| "jdepth _ = 0"

fun jfin :: "jres \<Rightarrow> string \<Rightarrow> (json \<times> string) option" where
  "jfin JErr r = None"
| "jfin (JDone v) r = Some (v, r)"
| "jfin (JNext m st) r = jrun m st r"

lemma jrun_tok: "next_tok s = Some (t, r) \<Longrightarrow> jrun m st s = jfin (jstep m st t) r"
  by (simp add: jrun.simps [of m st s] split: jres.split)

lemma next_tok_punct [simp]:
  "next_tok (CHR ''{'' # r) = Some (TLBrace, r)" "next_tok (CHR ''}'' # r) = Some (TRBrace, r)"
  "next_tok (CHR ''['' # r) = Some (TLBrack, r)" "next_tok (CHR '']'' # r) = Some (TRBrack, r)"
  "next_tok (CHR '':'' # r) = Some (TColon, r)" "next_tok (CHR '','' # r) = Some (TComma, r)"
  by (simp_all add: next_tok_def skip_ws_def json_space_def tok_at_def)

lemma next_tok_lit [simplified, simp]:
  "next_tok (''true'' @ r) = Some (TLit (JBool True), r)"
  "next_tok (''false'' @ r) = Some (TLit (JBool False), r)"
  "next_tok (''null'' @ r) = Some (TLit JNull, r)"
  by (simp_all add: next_tok_def skip_ws_def json_space_def tok_at_def has_prefix_def)

lemma next_tok_quote [simp]:
  "valid_utf8 s \<Longrightarrow> next_tok (json_quote s @ r) = Some (TStr s, r)"
  by (simp add: next_tok_def skip_ws_def json_space_def tok_at_def json_quote_def
      json_string_roundtrip)

lemma next_tok_int [simp]:
  assumes "delim r"
  shows "next_tok (int_dec i @ r) = Some (TNum (int_dec i), r)"
proof -
  obtain c u where cu: "int_dec i = c # u" "c = CHR ''-'' \<or> is_digit c"
    using hd_nat_dec_digit nat_dec_nonempty by (metis int_dec_def list.collapse)
  then have "\<not> json_space c" "c \<notin> {CHR ''{'', CHR ''}'', CHR ''['', CHR '']'', CHR '':'', CHR '','',
      quote_char, CHR ''t'', CHR ''f'', CHR ''n''}"
    by (auto simp: json_space_def is_digit_def)
  with lex_int_dec [OF assms, of i] cu(1) show ?thesis
    by (simp add: next_tok_def skip_ws_def tok_at_def has_prefix_def)
qed

lemma jstep_value [simp]: "t \<noteq> TRBrack \<Longrightarrow> jstep MValOrEnd st t = jvalue st t"
  by (cases "(MValOrEnd, st, t)" rule: jstep.cases) auto

lemma jdepth_member:
  "v \<in> set vs \<Longrightarrow> jdepth v < jdepth (JArr vs)"
  "(k, v) \<in> set kvs \<Longrightarrow> jdepth v < jdepth (JObj kvs)"
proof -
  show "v \<in> set vs \<Longrightarrow> jdepth v < jdepth (JArr vs)"
    by (simp add: less_Suc_eq_le)
  assume "(k, v) \<in> set kvs"
  then have "jdepth v \<in> insert 0 (set (map (\<lambda>(k, v). jdepth v) kvs))" by force
  then have "jdepth v \<le> Max (insert 0 (set (map (\<lambda>(k, v). jdepth v) kvs)))"
    by (rule Max_ge [rotated]) simp
  then show "jdepth v < jdepth (JObj kvs)" by simp
qed

lemma go_join_concat: "go_join sep (p # ps) = p @ concat (map ((@) sep) ps)"
  by (induction ps arbitrary: p) (auto simp: go_join_Cons)

text \<open>\<open>reads d v\<close>: under at most \<open>d\<close> open frames, the machine reads back what is printed for \<open>v\<close>.\<close>

definition reads :: "nat \<Rightarrow> json \<Rightarrow> bool" where
  "reads d v \<longleftrightarrow> (\<forall>m st r. length st \<le> d \<longrightarrow> m \<in> {MVal, MValOrEnd} \<longrightarrow> delim r \<longrightarrow>
     jrun m st (json_print v @ r) = jfin (jcomplete v st) r)"

lemma readsD:
  "reads d v \<Longrightarrow> length st \<le> d \<Longrightarrow> m \<in> {MVal, MValOrEnd} \<Longrightarrow> delim r \<Longrightarrow>
     jrun m st (json_print v @ r) = jfin (jcomplete v st) r"
  unfolding reads_def by blast

definition print_member :: "string \<times> json \<Rightarrow> string" where
  "print_member kv = json_quote (fst kv) @ '':'' @ json_print (snd kv)"

lemma json_print_obj: "json_print (JObj kvs) = ''{'' @ go_join '','' (map print_member kvs) @ ''}''"
  by (simp add: print_member_def [abs_def] split_def)

lemma delim_tails:
  "delim (concat (map (\<lambda>x. '','' @ f x) xs) @ '']'' @ r)"
  "delim (concat (map (\<lambda>x. '','' @ f x) xs) @ ''}'' @ r)"
  by (cases xs; simp)+

lemma jrun_array_tail:
  assumes "\<forall>v\<in>set vs. reads d v" "Suc (length st) \<le> d"
  shows "jrun MAfter (FArr acc # st) (concat (map (\<lambda>v. '','' @ json_print v) vs) @ '']'' @ r)
    = jfin (jcomplete (JArr (rev acc @ vs)) st) r"
  using assms
proof (induction vs arbitrary: acc)
  case Nil
  show ?case by (simp add: jrun_tok)
next
  case (Cons v vs)
  let ?r = "concat (map (\<lambda>v. '','' @ json_print v) vs) @ '']'' @ r"
  have "delim ?r" by (rule delim_tails)
  then have "jrun MVal (FArr acc # st) (json_print v @ ?r) = jrun MAfter (FArr (v # acc) # st) ?r"
    using readsD [of d v "FArr acc # st" MVal ?r] Cons.prems by simp
  also have "\<dots> = jfin (jcomplete (JArr (rev (v # acc) @ vs)) st) r"
    using Cons by simp
  finally show ?case by (simp add: jrun_tok)
qed

lemma jrun_member:
  assumes "reads d v" "valid_utf8 k" "Suc (length st) \<le> d" "delim r" "m \<in> {MKey, MKeyOrEnd}"
  shows "jrun m (FObj acc k0 # st) (print_member (k, v) @ r) = jrun MAfter (FObj ((k, v) # acc) k # st) r"
  using assms readsD [of d v "FObj acc k # st" MVal r]
  by (auto simp: print_member_def jrun_tok)

lemma jrun_object_tail:
  assumes "\<forall>(k, v)\<in>set kvs. reads d v \<and> valid_utf8 k" "Suc (length st) \<le> d"
  shows "jrun MAfter (FObj acc k0 # st) (concat (map (\<lambda>kv. '','' @ print_member kv) kvs) @ ''}'' @ r)
    = jfin (jcomplete (JObj (rev acc @ kvs)) st) r"
  using assms
proof (induction kvs arbitrary: acc k0)
  case Nil
  show ?case by (simp add: jrun_tok)
next
  case (Cons kv kvs)
  obtain k v where kv: "kv = (k, v)" by force
  let ?r = "concat (map (\<lambda>kv. '','' @ print_member kv) kvs) @ ''}'' @ r"
  have "delim ?r" by (rule delim_tails)
  then have "jrun MKey (FObj acc k0 # st) (print_member (k, v) @ ?r)
      = jrun MAfter (FObj ((k, v) # acc) k # st) ?r"
    using jrun_member [of d v k st ?r MKey] Cons.prems kv by simp
  also have "\<dots> = jfin (jcomplete (JObj (rev ((k, v) # acc) @ kvs)) st) r"
    using Cons by simp
  finally show ?case using kv by (simp add: jrun_tok)
qed

lemma jrun_array:
  assumes "\<forall>v\<in>set vs. reads d v" "Suc (length st) \<le> d" "length st < max_depth"
    and m: "m \<in> {MVal, MValOrEnd}"
  shows "jrun m st (json_print (JArr vs) @ r) = jfin (jcomplete (JArr vs) st) r"
proof -
  have opened: "jrun m st (json_print (JArr vs) @ r)
      = jrun MValOrEnd (FArr [] # st) (go_join '','' (map json_print vs) @ '']'' @ r)"
    using assms(3) m by (auto simp: jrun_tok jopen_def)
  show ?thesis
  proof (cases vs)
    case Nil
    then show ?thesis using opened by (simp add: jrun_tok)
  next
    case (Cons v vs')
    let ?r = "concat (map (\<lambda>v. '','' @ json_print v) vs') @ '']'' @ r"
    have "delim ?r" by (rule delim_tails)
    then have "jrun MValOrEnd (FArr [] # st) (json_print v @ ?r) = jrun MAfter (FArr [v] # st) ?r"
      using readsD [of d v "FArr [] # st" MValOrEnd ?r] assms(1,2) Cons by simp
    then show ?thesis
      using opened assms(1,2) Cons jrun_array_tail [of vs' d st "[v]" r]
      by (simp add: go_join_concat comp_def)
  qed
qed

lemma jrun_object:
  assumes "\<forall>(k, v)\<in>set kvs. reads d v \<and> valid_utf8 k" "Suc (length st) \<le> d" "length st < max_depth"
    and m: "m \<in> {MVal, MValOrEnd}"
  shows "jrun m st (json_print (JObj kvs) @ r) = jfin (jcomplete (JObj kvs) st) r"
proof -
  have opened: "jrun m st (json_print (JObj kvs) @ r)
      = jrun MKeyOrEnd (FObj [] [] # st) (go_join '','' (map print_member kvs) @ ''}'' @ r)"
    using assms(3) m by (auto simp: jrun_tok jopen_def json_print_obj simp del: json_print.simps)
  show ?thesis
  proof (cases kvs)
    case Nil
    then show ?thesis using opened by (simp add: jrun_tok)
  next
    case (Cons kv kvs')
    obtain k v where kv: "kv = (k, v)" by force
    let ?r = "concat (map (\<lambda>kv. '','' @ print_member kv) kvs') @ ''}'' @ r"
    have "delim ?r" by (rule delim_tails)
    then have "jrun MKeyOrEnd (FObj [] [] # st) (print_member (k, v) @ ?r)
        = jrun MAfter (FObj [(k, v)] k # st) ?r"
      using jrun_member [of d v k st ?r MKeyOrEnd] assms(1,2) Cons kv by simp
    then show ?thesis
      using opened assms(1,2) Cons kv jrun_object_tail [of kvs' d st "[(k, v)]" k r]
      by (simp add: go_join_concat comp_def del: json_print.simps)
  qed
qed

lemma reads_mono: "reads d v \<Longrightarrow> d' \<le> d \<Longrightarrow> reads d' v"
  by (auto simp: reads_def)

lemma reads_print: "json_ok j \<Longrightarrow> jdepth j \<le> max_depth \<Longrightarrow> reads (max_depth - jdepth j) j"
proof (induction j)
  case (JArr vs)
  have el: "\<forall>v\<in>set vs. reads (Suc (max_depth - jdepth (JArr vs))) v"
  proof
    fix v assume v: "v \<in> set vs"
    with jdepth_member(1) [OF v] JArr have "reads (max_depth - jdepth v) v" by simp
    then show "reads (Suc (max_depth - jdepth (JArr vs))) v"
      by (rule reads_mono) (use jdepth_member(1) [OF v] JArr.prems in linarith)
  qed
  have "0 < jdepth (JArr vs)" by simp
  with JArr.prems show ?case
    unfolding reads_def [of _ "JArr vs"] by (intro allI impI jrun_array [OF el]) linarith+
next
  case (JObj kvs)
  have el: "\<forall>(k, v)\<in>set kvs. reads (Suc (max_depth - jdepth (JObj kvs))) v \<and> valid_utf8 k"
  proof clarify
    fix k v assume v: "(k, v) \<in> set kvs"
    then have snd: "v \<in> Basic_BNFs.snds (k, v)" by simp
    from v JObj.prems have ok: "json_ok v" "valid_utf8 k" by auto
    with jdepth_member(2) [OF v] JObj v snd have "reads (max_depth - jdepth v) v" by simp
    then have "reads (Suc (max_depth - jdepth (JObj kvs))) v"
      by (rule reads_mono) (use jdepth_member(2) [OF v] JObj.prems in linarith)
    with ok show "reads (Suc (max_depth - jdepth (JObj kvs))) v \<and> valid_utf8 k" by simp
  qed
  have "0 < jdepth (JObj kvs)" by simp
  with JObj.prems show ?case
    unfolding reads_def [of _ "JObj kvs"] by (intro allI impI jrun_object [OF el]) linarith+
qed (auto simp: reads_def jrun_tok)

lemma jrun_print:
  "json_ok j \<Longrightarrow> jdepth j \<le> max_depth \<Longrightarrow> delim r \<Longrightarrow> jrun MVal [] (json_print j @ r) = Some (j, r)"
  using readsD [OF reads_print, of j "[]" MVal r] by simp

lemma json_unmarshal_print [codec]:
  "json_ok j \<Longrightarrow> jdepth j \<le> max_depth \<Longrightarrow> json_unmarshal (json_print j) = Some j"
  using jrun_print [of j "[]"] by (simp add: json_unmarshal_def skip_ws_def)

lemma json_decode_print [codec]:
  "json_ok j \<Longrightarrow> jdepth j \<le> max_depth \<Longrightarrow> delim r \<Longrightarrow> json_decode (json_print j @ r) = Some j"
  using jrun_print [of j r] by (simp add: json_decode_def)

subsection \<open>Decoding into fields\<close>

text \<open>
  A key names a field if it equals the field's name up to Unicode simple case folding; for
  the ASCII names of the program these are the ASCII letters and the two runes outside
  ASCII that fold to one, U+017F (to \<open>S\<close>) and U+212A (to \<open>K\<close>).
\<close>

definition ascii_upper :: "char \<Rightarrow> char" where
  "ascii_upper c = (if 97 \<le> ord c \<and> ord c \<le> (122 :: nat) then chr (ord c - 32) else c)"

function fold_key :: "string \<Rightarrow> string" where
  "fold_key [] = []"
| "fold_key (c # s) =
     (if map ord (take 2 (c # s)) = [0xC5, 0xBF :: nat] then CHR ''S'' # fold_key (drop 1 s)
      else if map ord (take 3 (c # s)) = [0xE2, 0x84, 0xAA :: nat]
      then CHR ''K'' # fold_key (drop 2 s)
      else ascii_upper c # fold_key s)"
  by pat_completeness auto
termination
  by (relation "measure length") auto

definition key_matches :: "string \<Rightarrow> string \<Rightarrow> bool" where
  "key_matches name k \<longleftrightarrow> fold_key k = fold_key name"

lemma key_matches_refl [simp]: "key_matches name name"
  by (simp add: key_matches_def)

text \<open>Field decoders: the old value of the field, a JSON value, the new value or a type error.\<close>

definition dec_string :: "string \<Rightarrow> json \<Rightarrow> string option" where
  "dec_string old j = (case j of JStr s \<Rightarrow> Some s | JNull \<Rightarrow> Some old | _ \<Rightarrow> None)"

definition dec_bool :: "bool \<Rightarrow> json \<Rightarrow> bool option" where
  "dec_bool old j = (case j of JBool b \<Rightarrow> Some b | JNull \<Rightarrow> Some old | _ \<Rightarrow> None)"

definition dec_int64 :: "int \<Rightarrow> json \<Rightarrow> int option" where
  "dec_int64 old j = (case j of JNum n \<Rightarrow> parse_int64 n | JNull \<Rightarrow> Some old | _ \<Rightarrow> None)"

text \<open>
  A \<open>[]string\<close>: an array element that is \<open>null\<close> keeps the element the slice had at its
  position, the empty string when it had none.
\<close>

fun dec_elems :: "string list \<Rightarrow> json list \<Rightarrow> string list option" where
  "dec_elems old [] = Some []"
| "dec_elems old (j # js) =
     (case dec_string (case old of [] \<Rightarrow> [] | o' # _ \<Rightarrow> o') j of
        None \<Rightarrow> None
      | Some s \<Rightarrow> map_option ((#) s) (dec_elems (tl old) js))"

definition dec_strings :: "string list \<Rightarrow> json \<Rightarrow> string list option" where
  "dec_strings old j = (case j of JArr js \<Rightarrow> dec_elems old js | JNull \<Rightarrow> Some [] | _ \<Rightarrow> None)"

text \<open>A \<open>[]byte\<close> is a base64 string, or an array of numbers below 256.\<close>

fun dec_octets :: "string \<Rightarrow> json list \<Rightarrow> string option" where
  "dec_octets old [] = Some []"
| "dec_octets old (j # js) =
     (case (case j of
              JNum n \<Rightarrow> (case parse_int64 n of
                 Some i \<Rightarrow> if 0 \<le> i \<and> i < 256 then Some (chr (nat i)) else None
               | None \<Rightarrow> None)
            | JNull \<Rightarrow> Some (case old of [] \<Rightarrow> chr 0 | o' # _ \<Rightarrow> o')
            | _ \<Rightarrow> None) of
        None \<Rightarrow> None
      | Some c \<Rightarrow> map_option ((#) c) (dec_octets (tl old) js))"

definition dec_bytes :: "string \<Rightarrow> json \<Rightarrow> string option" where
  "dec_bytes old j =
     (case j of JStr s \<Rightarrow> std_decode s | JArr js \<Rightarrow> dec_octets old js | JNull \<Rightarrow> Some [] | _ \<Rightarrow> None)"

text \<open>
  A struct: the members of the object in order, each by the step function of the struct
  (which field the key names, and how its value is decoded).
\<close>

fun decode_members :: "('r \<Rightarrow> string \<Rightarrow> json \<Rightarrow> 'r option) \<Rightarrow> 'r \<Rightarrow> (string \<times> json) list \<Rightarrow> 'r option" where
  "decode_members f r [] = Some r"
| "decode_members f r ((k, v) # kvs) =
     (case f r k v of None \<Rightarrow> None | Some r' \<Rightarrow> decode_members f r' kvs)"

definition decode_struct :: "('r \<Rightarrow> string \<Rightarrow> json \<Rightarrow> 'r option) \<Rightarrow> 'r \<Rightarrow> json \<Rightarrow> 'r option" where
  "decode_struct f r j =
     (case j of JObj kvs \<Rightarrow> decode_members f r kvs | JNull \<Rightarrow> Some r | _ \<Rightarrow> None)"

text \<open>A \<open>map[string]any\<close>: an object (later members replace earlier ones) or \<open>null\<close>.\<close>

definition decode_map :: "json \<Rightarrow> (string \<times> json) list option" where
  "decode_map j = (case j of JObj kvs \<Rightarrow> Some kvs | JNull \<Rightarrow> Some [] | _ \<Rightarrow> None)"

definition map_get :: "(string \<times> json) list \<Rightarrow> string \<Rightarrow> json option" where
  "map_get kvs k = map_of (rev kvs) k"

lemma dec_elems_strings: "dec_elems old (map JStr ss) = Some ss"
  by (induction ss arbitrary: old) (auto simp: dec_string_def)

lemma dec_simps [simp]:
  "dec_string old (JStr s) = Some s" "dec_bool b0 (JBool b) = Some b"
  "in_int64 i \<Longrightarrow> dec_int64 i0 (JNum (int_dec i)) = Some i"
  "dec_strings ss0 (JArr (map JStr ss)) = Some ss"
  by (simp_all add: dec_string_def dec_bool_def dec_int64_def dec_strings_def dec_elems_strings)

text \<open>Literals are decided by the ASCII rules, without running the decoders.\<close>

lemma is_ascii_simps [simp]:
  "is_ascii []" "is_ascii (c # s) \<longleftrightarrow> ord c < (128 :: nat) \<and> is_ascii s"
  "is_ascii (s @ t) \<longleftrightarrow> is_ascii s \<and> is_ascii t"
  by (auto simp: is_ascii_def)

declare valid_utf8.simps [simp del] utf8_width.simps [simp del] fold_key.simps [simp del]

end
