(* ===== verification/GoTime.thy ===== *)
theory GoTime
  imports GoStrings
begin

text \<open>
  Go's \<open>time\<close>. An \<open>instant\<close> is a value of the wall clock in nanoseconds since the Unix
  epoch, ordered; the code adds durations to it, compares it and takes its seconds. A
  \<open>civil\<close> time is a \<open>time.Time\<close> as it comes from and goes to JSON: date, clock and zone
  offset, in RFC 3339.
\<close>

subsection \<open>Instants and durations\<close>

datatype instant = Instant (nanos: int)

instantiation instant :: linorder
begin

definition less_eq_instant :: "instant \<Rightarrow> instant \<Rightarrow> bool" where
  "s \<le> t \<longleftrightarrow> nanos s \<le> nanos t"

definition less_instant :: "instant \<Rightarrow> instant \<Rightarrow> bool" where
  "s < t \<longleftrightarrow> nanos s < nanos t"

instance
  by standard (auto simp: less_eq_instant_def less_instant_def instant.expand)

end

text \<open>Durations are nanoseconds.\<close>

definition second :: int where "second = 1000000000"
definition minute :: int where "minute = 60 * second"
definition hour :: int where "hour = 60 * minute"

definition time_add :: "instant \<Rightarrow> int \<Rightarrow> instant" where
  "time_add t d = Instant (nanos t + d)"

definition time_after :: "instant \<Rightarrow> instant \<Rightarrow> bool" where
  "time_after s t \<longleftrightarrow> t < s"

definition time_unix :: "instant \<Rightarrow> int" where
  "time_unix t = nanos t div second"

definition time_unix_milli :: "instant \<Rightarrow> int" where
  "time_unix_milli t = nanos t div 1000000"

text \<open>\<open>Duration.Milliseconds\<close> and the conversion of \<open>Duration.Seconds\<close> to an integer truncate.\<close>

definition toward_zero :: "int \<Rightarrow> int \<Rightarrow> int" where
  "toward_zero d unit = (if 0 \<le> d then d div unit else - (- d div unit))"

definition duration_millis :: "int \<Rightarrow> int" where
  "duration_millis d = toward_zero d 1000000"

definition duration_seconds :: "int \<Rightarrow> int" where
  "duration_seconds d = toward_zero d second"

lemma time_unix_add_seconds: "time_unix (time_add t (k * second)) = time_unix t + k"
  by (simp add: time_unix_def time_add_def second_def)

lemma time_unix_mono: "s \<le> t \<Longrightarrow> time_unix s \<le> time_unix t"
  by (simp add: time_unix_def less_eq_instant_def second_def zdiv_mono1)

subsection \<open>Civil times\<close>

record civil =
  cyear :: nat
  cmonth :: nat
  cday :: nat
  chour :: nat
  cmin :: nat
  csec :: nat
  cnano :: nat
  coffset :: int  \<comment> \<open>minutes east of UTC\<close>

definition leap_year :: "nat \<Rightarrow> bool" where
  "leap_year y \<longleftrightarrow> y mod 4 = 0 \<and> (y mod 100 \<noteq> 0 \<or> y mod 400 = 0)"

definition days_in :: "nat \<Rightarrow> nat \<Rightarrow> nat" where
  "days_in y m =
     (if m = 2 then (if leap_year y then 29 else 28)
      else if m \<in> {4, 6, 9, 11} then 30 else 31)"

text \<open>Days from 1970-01-01 to the first day of a month.\<close>

definition days_before_year :: "nat \<Rightarrow> int" where
  "days_before_year y =
     (let p = int y - 1 in 365 * p + p div 4 - p div 100 + p div 400 - 719162)"

definition days_before_month :: "nat \<Rightarrow> nat \<Rightarrow> nat" where
  "days_before_month y m = sum_list (map (days_in y) [1..<m])"

text \<open>\<open>Time.Unix\<close> and \<open>Time.IsZero\<close> (January 1, year 1, 00:00:00 UTC).\<close>

definition civil_unix :: "civil \<Rightarrow> int" where
  "civil_unix t =
     (days_before_year (cyear t) + int (days_before_month (cyear t) (cmonth t)) + int (cday t) - 1)
       * 86400 + int (chour t * 3600 + cmin t * 60 + csec t) - 60 * coffset t"

definition civil_is_zero :: "civil \<Rightarrow> bool" where
  "civil_is_zero t \<longleftrightarrow> civil_unix t = -62135596800 \<and> cnano t = 0"

text \<open>The zero value of \<open>time.Time\<close>.\<close>

definition civil_zero :: civil where
  "civil_zero = \<lparr>cyear = 1, cmonth = 1, cday = 1, chour = 0, cmin = 0, csec = 0, cnano = 0, coffset = 0\<rparr>"

definition civil_ok :: "civil \<Rightarrow> bool" where
  "civil_ok t \<longleftrightarrow> cyear t \<le> 9999 \<and> 1 \<le> cmonth t \<and> cmonth t \<le> 12 \<and>
     1 \<le> cday t \<and> cday t \<le> days_in (cyear t) (cmonth t) \<and>
     chour t \<le> 23 \<and> cmin t \<le> 59 \<and> csec t \<le> 59 \<and> cnano t < 1000000000 \<and>
     \<bar>coffset t\<bar> < 24 * 60"

lemma civil_zero_is_zero: "civil_is_zero civil_zero"
  by (simp add: civil_is_zero_def civil_unix_def civil_zero_def days_before_year_def
      days_before_month_def)

lemma civil_epoch:
  "civil_unix \<lparr>cyear = 1970, cmonth = 1, cday = 1, chour = 0, cmin = 0, csec = 0, cnano = 0,
     coffset = 0\<rparr> = 0"
  by (simp add: civil_unix_def days_before_year_def days_before_month_def)

subsection \<open>RFC 3339\<close>

text \<open>\<open>n\<close> decimal digits of a number, most significant first.\<close>

fun fixed_dec :: "nat \<Rightarrow> nat \<Rightarrow> string" where
  "fixed_dec 0 v = []"
| "fixed_dec (Suc n) v = fixed_dec n (v div 10) @ [dec_digit (v mod 10)]"

text \<open>Nine digits of a second without trailing zeros, after a point; nothing for a whole second.\<close>

definition print_fraction :: "nat \<Rightarrow> string" where
  "print_fraction n =
     (if n = 0 then [] else CHR ''.'' # rev (dropWhile (\<lambda>c. c = CHR ''0'') (rev (fixed_dec 9 n))))"

definition print_zone :: "int \<Rightarrow> string" where
  "print_zone z =
     (if z = 0 then ''Z''
      else (if z < 0 then CHR ''-'' else CHR ''+'') #
           fixed_dec 2 (nat \<bar>z\<bar> div 60) @ '':'' @ fixed_dec 2 (nat \<bar>z\<bar> mod 60))"

definition print_rfc3339 :: "civil \<Rightarrow> string" where
  "print_rfc3339 t =
     fixed_dec 4 (cyear t) @ ''-'' @ fixed_dec 2 (cmonth t) @ ''-'' @ fixed_dec 2 (cday t) @ ''T'' @
     fixed_dec 2 (chour t) @ '':'' @ fixed_dec 2 (cmin t) @ '':'' @ fixed_dec 2 (csec t) @
     print_fraction (cnano t) @ print_zone (coffset t)"

text \<open>A field of \<open>n\<close> digits, and a literal character, each with the rest of the input.\<close>

definition take_num :: "nat \<Rightarrow> string \<Rightarrow> (nat \<times> string) option" where
  "take_num n s =
     (if n \<le> length s \<and> list_all is_digit (take n s)
      then Some (digits_val (take n s), drop n s) else None)"

definition take_lit :: "char \<Rightarrow> string \<Rightarrow> string option" where
  "take_lit c s = (case s of [] \<Rightarrow> None | d # t \<Rightarrow> if d = c then Some t else None)"

text \<open>An hour may be written with one digit.\<close>

definition take_hour :: "string \<Rightarrow> (nat \<times> string) option" where
  "take_hour s =
     (case s of [] \<Rightarrow> None | c # t \<Rightarrow>
        if \<not> is_digit c then None
        else if t \<noteq> [] \<and> is_digit (hd t) then take_num 2 s else Some (digit_val c, t))"

text \<open>Digits beyond the ninth are dropped; a comma may stand for the point.\<close>

definition take_fraction :: "string \<Rightarrow> nat \<times> string" where
  "take_fraction s =
     (case s of [] \<Rightarrow> (0, s) | c # t \<Rightarrow>
        if (c = CHR ''.'' \<or> c = CHR '','') \<and> takeWhile is_digit t \<noteq> []
        then (digits_val (take 9 (takeWhile is_digit t @ replicate 9 (CHR ''0''))),
              dropWhile is_digit t)
        else (0, s))"

text \<open>The parser accepts offsets up to 24 hours and 60 minutes.\<close>

definition take_zone :: "string \<Rightarrow> int option" where
  "take_zone s =
     (if s = ''Z'' then Some 0
      else (case s of [] \<Rightarrow> None | c # t \<Rightarrow>
        if c \<noteq> CHR ''+'' \<and> c \<noteq> CHR ''-'' then None
        else (case take_num 2 t of None \<Rightarrow> None | Some (h, t1) \<Rightarrow>
          (case take_lit (CHR '':'') t1 of None \<Rightarrow> None | Some t2 \<Rightarrow>
            (case take_num 2 t2 of None \<Rightarrow> None | Some (m, t3) \<Rightarrow>
               if t3 = [] \<and> h \<le> 24 \<and> m \<le> 60
               then Some ((if c = CHR ''-'' then -1 else 1) * int (h * 60 + m)) else None)))))"

definition parse_clock :: "string \<Rightarrow> ((nat \<times> nat \<times> nat \<times> nat) \<times> string) option" where
  "parse_clock s =
     (case take_hour s of None \<Rightarrow> None | Some (h, s1) \<Rightarrow>
      (case take_lit (CHR '':'') s1 of None \<Rightarrow> None | Some s2 \<Rightarrow>
      (case take_num 2 s2 of None \<Rightarrow> None | Some (m, s3) \<Rightarrow>
      (case take_lit (CHR '':'') s3 of None \<Rightarrow> None | Some s4 \<Rightarrow>
      (case take_num 2 s4 of None \<Rightarrow> None | Some (sec, s5) \<Rightarrow>
         if h < 24 \<and> m < 60 \<and> sec < 60
         then Some ((h, m, sec, fst (take_fraction s5)), snd (take_fraction s5)) else None)))))"

definition parse_date :: "string \<Rightarrow> ((nat \<times> nat \<times> nat) \<times> string) option" where
  "parse_date s =
     (case take_num 4 s of None \<Rightarrow> None | Some (y, s1) \<Rightarrow>
      (case take_lit (CHR ''-'') s1 of None \<Rightarrow> None | Some s2 \<Rightarrow>
      (case take_num 2 s2 of None \<Rightarrow> None | Some (mo, s3) \<Rightarrow>
      (case take_lit (CHR ''-'') s3 of None \<Rightarrow> None | Some s4 \<Rightarrow>
      (case take_num 2 s4 of None \<Rightarrow> None | Some (d, s5) \<Rightarrow>
         if 1 \<le> mo \<and> mo \<le> 12 \<and> 1 \<le> d \<and> d \<le> days_in y mo
         then Some ((y, mo, d), s5) else None)))))"

definition parse_rfc3339 :: "string \<Rightarrow> civil option" where
  "parse_rfc3339 s =
     (case parse_date s of None \<Rightarrow> None | Some ((y, mo, d), s1) \<Rightarrow>
      (case take_lit (CHR ''T'') s1 of None \<Rightarrow> None | Some s2 \<Rightarrow>
      (case parse_clock s2 of None \<Rightarrow> None | Some ((h, m, sec, ns), s3) \<Rightarrow>
      (case take_zone s3 of None \<Rightarrow> None | Some z \<Rightarrow>
         Some \<lparr>cyear = y, cmonth = mo, cday = d, chour = h, cmin = m, csec = sec, cnano = ns,
               coffset = z\<rparr>))))"

text \<open>\<open>Time.MarshalJSON\<close> refuses an offset of a day or more; the years parsed have four digits.\<close>

definition civil_marshal :: "civil \<Rightarrow> string option" where
  "civil_marshal t =
     (if cyear t \<le> 9999 \<and> \<bar>coffset t\<bar> < 24 * 60 then Some (print_rfc3339 t) else None)"

subsection \<open>What is printed is read back\<close>

lemma length_fixed_dec [simp]: "length (fixed_dec n v) = n"
  by (induction n arbitrary: v) auto

lemma fixed_dec_digits: "list_all is_digit (fixed_dec n v)"
  by (induction n arbitrary: v) auto

lemma digits_val_snoc: "digits_val (s @ [c]) = 10 * digits_val s + digit_val c"
  by (simp add: digits_val_def)

lemma digits_val_fixed_dec: "v < 10 ^ n \<Longrightarrow> digits_val (fixed_dec n v) = v"
proof (induction n arbitrary: v)
  case 0
  then show ?case by (simp add: digits_val_def)
next
  case (Suc n)
  then have "v div 10 < 10 ^ n" by auto
  with Suc.IH show ?case by (simp add: digits_val_snoc)
qed

lemma take_num_fixed [simp]: "v < 10 ^ n \<Longrightarrow> take_num n (fixed_dec n v @ s) = Some (v, s)"
  by (simp add: take_num_def fixed_dec_digits digits_val_fixed_dec)

lemma take_lit_same [simp]: "take_lit c (c # s) = Some s"
  by (simp add: take_lit_def)

lemma take_hour_fixed [simp]: "v < 24 \<Longrightarrow> take_hour (fixed_dec 2 v @ s) = Some (v, s)"
proof -
  assume v: "v < 24"
  obtain a b where ab: "fixed_dec 2 v = [a, b]" by (simp add: numeral_2_eq_2)
  with fixed_dec_digits [of 2 v] have "is_digit a" "is_digit b" by auto
  with ab v take_num_fixed [of v 2 s] show ?thesis by (simp add: take_hour_def)
qed

lemma digits_val_zeros [simp]: "digits_val (replicate k (CHR ''0'')) = 0"
  by (induction k) (simp_all add: digits_val_def digit_val_def)

lemma strip_suffix:
  "rev (dropWhile (\<lambda>c. c = z) (rev xs)) @
     replicate (length xs - length (dropWhile (\<lambda>c. c = z) (rev xs))) z = xs"
proof -
  have "\<forall>c\<in>set (takeWhile (\<lambda>c. c = z) (rev xs)). c = z" by (auto dest: set_takeWhileD)
  then have "takeWhile (\<lambda>c. c = z) (rev xs) =
      replicate (length (takeWhile (\<lambda>c. c = z) (rev xs))) z"
    by (metis replicate_length_same)
  moreover have "length (takeWhile (\<lambda>c. c = z) (rev xs)) =
      length xs - length (dropWhile (\<lambda>c. c = z) (rev xs))"
    by (metis add_diff_cancel_right' length_append length_rev takeWhile_dropWhile_id)
  ultimately have "takeWhile (\<lambda>c. c = z) (rev xs) =
      replicate (length xs - length (dropWhile (\<lambda>c. c = z) (rev xs))) z" by simp
  then have "rev (rev xs) = rev (replicate (length xs - length (dropWhile (\<lambda>c. c = z) (rev xs))) z
      @ dropWhile (\<lambda>c. c = z) (rev xs))" by (metis takeWhile_dropWhile_id)
  then show ?thesis by simp
qed

lemma fraction_roundtrip:
  assumes "n < 1000000000" "r \<noteq> []" "\<not> is_digit (hd r)" "hd r \<noteq> CHR ''.''" "hd r \<noteq> CHR '',''"
  shows "take_fraction (print_fraction n @ r) = (n, r)"
proof (cases "n = 0")
  case True
  with assms show ?thesis by (cases r) (auto simp: take_fraction_def print_fraction_def)
next
  case False
  define ds where "ds = rev (dropWhile (\<lambda>c. c = CHR ''0'') (rev (fixed_dec 9 n)))"
  obtain c r' where r: "r = c # r'" using assms(2) by (cases r) auto
  have full: "ds @ replicate (9 - length ds) (CHR ''0'') = fixed_dec 9 n"
    using strip_suffix [of "CHR ''0''" "fixed_dec 9 n"] by (simp add: ds_def)
  have len: "length ds \<le> 9" using full by (metis length_append length_fixed_dec le_add1)
  then have t9: "take 9 (ds @ replicate 9 (CHR ''0'')) = fixed_dec 9 n"
    using full by simp
  have val: "digits_val (fixed_dec 9 n) = n" by (rule digits_val_fixed_dec) (use assms(1) in simp)
  have ne: "ds \<noteq> []"
  proof
    assume "ds = []"
    with full have "fixed_dec 9 n = replicate 9 (CHR ''0'')" by simp
    then have "digits_val (fixed_dec 9 n) = digits_val (replicate 9 (CHR ''0''))" by simp
    then have "n = 0" using val by simp
    with False show False by simp
  qed
  have dig: "\<forall>c\<in>set ds. is_digit c"
    using fixed_dec_digits [of 9 n] full by (metis list_all_iff list_all_append)
  have "takeWhile is_digit (ds @ c # r') = ds" "dropWhile is_digit (ds @ c # r') = c # r'"
    using takeWhile_append_stop [OF dig] dropWhile_append_stop [OF dig] assms(3) r by auto
  with False ne t9 val r show ?thesis
    by (simp add: take_fraction_def print_fraction_def ds_def [symmetric])
qed

lemma print_zone_hd:
  "print_zone z \<noteq> []" "\<not> is_digit (hd (print_zone z))"
  "hd (print_zone z) \<noteq> CHR ''.''" "hd (print_zone z) \<noteq> CHR '',''"
  by (auto simp: print_zone_def is_digit_def)

lemma zone_roundtrip: "\<bar>z\<bar> < 24 * 60 \<Longrightarrow> take_zone (print_zone z) = Some z"
proof -
  assume z: "\<bar>z\<bar> < 24 * 60"
  have h: "nat \<bar>z\<bar> div 60 < 10 ^ 2" "nat \<bar>z\<bar> mod 60 < 10 ^ 2" "nat \<bar>z\<bar> div 60 \<le> 24"
    "nat \<bar>z\<bar> mod 60 \<le> 60"
    using z by auto
  have n1: "take_num 2 (fixed_dec 2 (nat \<bar>z\<bar> div 60) @ CHR '':'' # fixed_dec 2 (nat \<bar>z\<bar> mod 60)) =
      Some (nat \<bar>z\<bar> div 60, CHR '':'' # fixed_dec 2 (nat \<bar>z\<bar> mod 60))"
    by (rule take_num_fixed) (rule h)
  have n2: "take_num 2 (fixed_dec 2 (nat \<bar>z\<bar> mod 60)) = Some (nat \<bar>z\<bar> mod 60, [])"
    using take_num_fixed [OF h(2), of "[]"] by simp
  have "int (nat \<bar>z\<bar> div 60 * 60 + nat \<bar>z\<bar> mod 60) = \<bar>z\<bar>" by simp
  with h n1 n2 show ?thesis by (auto simp: take_zone_def print_zone_def)
qed

lemma rfc3339_roundtrip [codec]: "civil_ok t \<Longrightarrow> parse_rfc3339 (print_rfc3339 t) = Some t"
proof -
  assume ok: "civil_ok t"
  then have y: "cyear t < 10 ^ 4" and mo: "cmonth t < 10 ^ 2"
    and h: "chour t < 24" and m: "cmin t < 10 ^ 2" "cmin t < 60" and s: "csec t < 10 ^ 2" "csec t < 60"
    and ns: "cnano t < 1000000000" and z: "\<bar>coffset t\<bar> < 24 * 60"
    by (auto simp: civil_ok_def)
  have "days_in (cyear t) (cmonth t) \<le> 31" by (simp add: days_in_def)
  with ok have d: "cday t < 10 ^ 2" by (auto simp: civil_ok_def)
  let ?tail = "print_fraction (cnano t) @ print_zone (coffset t)"
  have date: "parse_date (print_rfc3339 t) = Some ((cyear t, cmonth t, cday t),
      CHR ''T'' # fixed_dec 2 (chour t) @ '':'' @ fixed_dec 2 (cmin t) @ '':'' @ fixed_dec 2 (csec t) @ ?tail)"
    using ok y mo d
    by (simp add: parse_date_def print_rfc3339_def civil_ok_def)
  have clock: "parse_clock (fixed_dec 2 (chour t) @ '':'' @ fixed_dec 2 (cmin t) @ '':'' @
      fixed_dec 2 (csec t) @ ?tail) = Some ((chour t, cmin t, csec t, cnano t), print_zone (coffset t))"
    using h m s by (simp add: parse_clock_def fraction_roundtrip [OF ns print_zone_hd])
  from date clock show ?thesis by (simp add: parse_rfc3339_def zone_roundtrip [OF z])
qed

lemma digit_ascii: "is_digit c \<Longrightarrow> ord c < (128 :: nat)"
  by (simp add: is_digit_def)

lemma fixed_dec_ascii: "c \<in> set (fixed_dec n v) \<Longrightarrow> ord c < (128 :: nat)"
  using fixed_dec_digits [of n v] by (auto simp: list_all_iff digit_ascii)

lemma print_fraction_ascii: "c \<in> set (print_fraction n) \<Longrightarrow> ord c < (128 :: nat)"
  by (auto simp: print_fraction_def fixed_dec_ascii dest!: set_dropWhileD split: if_split_asm)

lemma rfc3339_ascii: "is_ascii (print_rfc3339 t)"
  by (auto simp: is_ascii_def print_rfc3339_def print_zone_def
      dest: fixed_dec_ascii print_fraction_ascii split: if_split_asm)

end
