(* ===== verification/GoUrl.thy ===== *)
theory GoUrl
  imports GoEncoding
begin

text \<open>
  The part of Go's \<open>net/url\<close> that the gateway uses: query escaping, \<open>url.Values\<close> filled by
  \<open>Set\<close> and encoded with its keys in order, the parsing of a raw query, and the printing of
  the authorization URL. Escaping is undone by unescaping, and an encoded set of values is
  parsed back.
\<close>

subsection \<open>Query escaping\<close>

text \<open>Upper case hexadecimal digits, as \<open>url.QueryEscape\<close> writes them.\<close>

definition upper_hex :: "nat \<Rightarrow> char" where
  "upper_hex n = (if n < 10 then chr (48 + n) else chr (55 + n))"

definition unreserved :: "char \<Rightarrow> bool" where
  "unreserved c \<longleftrightarrow>
     (let n = (ord c :: nat) in 48 \<le> n \<and> n \<le> 57 \<or> 65 \<le> n \<and> n \<le> 90 \<or> 97 \<le> n \<and> n \<le> 122) \<or>
     c \<in> {CHR ''-'', CHR ''_'', CHR ''.'', CHR ''~''}"

definition pct :: "char \<Rightarrow> string" where
  "pct c = [CHR ''%'', upper_hex (ord c div 16), upper_hex (ord c mod 16)]"

definition esc_query_char :: "char \<Rightarrow> string" where
  "esc_query_char c = (if unreserved c then [c] else if c = CHR '' '' then ''+'' else pct c)"

definition query_escape :: "string \<Rightarrow> string" where
  "query_escape s = concat (map esc_query_char s)"

fun query_unescape :: "string \<Rightarrow> string option" where
  "query_unescape [] = Some []"
| "query_unescape (c # s) =
     (if c = CHR ''%''
      then (case s of h # l # r \<Rightarrow>
              (case (hex_val h, hex_val l) of
                 (Some a, Some b) \<Rightarrow> map_option ((#) (chr (16 * a + b))) (query_unescape r)
               | _ \<Rightarrow> None)
            | _ \<Rightarrow> None)
      else map_option ((#) (if c = CHR ''+'' then CHR '' '' else c)) (query_unescape s))"

lemma hex_val_upper: "n < 16 \<Longrightarrow> hex_val (upper_hex n) = Some n"
  by (auto simp: hex_val_def upper_hex_def)

lemma unreserved_not:
  "unreserved c \<Longrightarrow> c \<noteq> CHR ''%'' \<and> c \<noteq> CHR ''+'' \<and> c \<noteq> CHR ''&'' \<and> c \<noteq> CHR ''='' \<and> c \<noteq> CHR '';''"
  by (auto simp: unreserved_def)

lemma chr_ord_16: "chr (16 * (ord c div 16) + ord c mod 16) = c"
  by simp

lemma query_unescape_char:
  "query_unescape (esc_query_char c @ s) = map_option ((#) c) (query_unescape s)"
proof -
  consider "unreserved c" | "\<not> unreserved c" "c = CHR '' ''" | "\<not> unreserved c" "c \<noteq> CHR '' ''"
    by blast
  then show ?thesis
  proof cases
    case 1
    then show ?thesis using unreserved_not [OF 1] by (simp add: esc_query_char_def)
  next
    case 2
    then show ?thesis by (simp add: esc_query_char_def)
  next
    case 3
    have "ord c div 16 < (16 :: nat)" using ord_lt_256 [of c] by linarith
    with 3 show ?thesis
      by (simp add: esc_query_char_def pct_def hex_val_upper)
  qed
qed

lemma query_escape_roundtrip [simp, codec]: "query_unescape (query_escape s) = Some s"
  by (induction s) (simp_all add: query_escape_def query_unescape_char)

lemma query_escape_no_delim:
  assumes "c \<in> set (query_escape s)"
  shows "c \<noteq> CHR ''&'' \<and> c \<noteq> CHR ''='' \<and> c \<noteq> CHR '';''"
proof -
  from assms obtain d where d: "c \<in> set (esc_query_char d)" by (auto simp: query_escape_def)
  have hex: "upper_hex n \<noteq> CHR ''&'' \<and> upper_hex n \<noteq> CHR ''='' \<and> upper_hex n \<noteq> CHR '';''"
    if "n < 16" for n
  proof -
    from that have "hex_val (upper_hex n) = Some n" by (rule hex_val_upper)
    moreover have "hex_val (CHR ''&'') = None" "hex_val (CHR ''='') = None" "hex_val (CHR '';'') = None"
      by (simp_all add: hex_val_def)
    ultimately show ?thesis by force
  qed
  have n: "ord d div 16 < (16 :: nat)" "ord d mod 16 < (16 :: nat)"
    using ord_lt_256 [of d] by linarith+
  show ?thesis
  proof (cases "unreserved d")
    case True
    with d unreserved_not [OF True] show ?thesis by (simp add: esc_query_char_def)
  next
    case False
    with d hex [OF n(1)] hex [OF n(2)] show ?thesis
      by (auto simp: esc_query_char_def pct_def split: if_split_asm)
  qed
qed

subsection \<open>Values\<close>

text \<open>
  A \<open>url.Values\<close> filled with \<open>Set\<close> only: one value per key. \<open>Encode\<close> writes the pairs with
  the keys in byte order.
\<close>

type_synonym url_values = "(string \<times> string) list"

fun values_set :: "string \<Rightarrow> string \<Rightarrow> url_values \<Rightarrow> url_values" where
  "values_set k v [] = [(k, v)]"
| "values_set k v ((k', v') # vs) = (if k' = k then (k, v) # vs else (k', v') # values_set k v vs)"

definition encode_pair :: "string \<times> string \<Rightarrow> string" where
  "encode_pair kv = query_escape (fst kv) @ ''='' @ query_escape (snd kv)"

definition values_encode :: "url_values \<Rightarrow> string" where
  "values_encode vs = go_join ''&'' (map encode_pair (sort_key fst vs))"

text \<open>
  \<open>URL.Query\<close>: the pairs of a raw query in order; a part that holds a semicolon or a broken
  escape is skipped. \<open>Get\<close> is the first value of a key, or the empty string.
\<close>

definition cut :: "char \<Rightarrow> string \<Rightarrow> string \<times> string" where
  "cut sep s = (takeWhile (\<lambda>c. c \<noteq> sep) s, tl (dropWhile (\<lambda>c. c \<noteq> sep) s))"

definition parse_pair :: "string \<Rightarrow> (string \<times> string) option" where
  "parse_pair p =
     (if p = [] \<or> CHR '';'' \<in> set p then None
      else (case (query_unescape (fst (cut (CHR ''='') p)), query_unescape (snd (cut (CHR ''='') p))) of
              (Some k, Some v) \<Rightarrow> Some (k, v)
            | _ \<Rightarrow> None))"

definition parse_query :: "string \<Rightarrow> url_values" where
  "parse_query raw = List.map_filter parse_pair (go_split (CHR ''&'') raw)"

definition query_get :: "string \<Rightarrow> string \<Rightarrow> string" where
  "query_get raw k = (case map_of (parse_query raw) k of Some v \<Rightarrow> v | None \<Rightarrow> [])"

lemma parse_encode_pair: "parse_pair (encode_pair (k, v)) = Some (k, v)"
proof -
  have k: "\<forall>c\<in>set (query_escape k). c \<noteq> CHR ''=''" using query_escape_no_delim by blast
  have "CHR '';'' \<notin> set (query_escape k)" "CHR '';'' \<notin> set (query_escape v)"
    using query_escape_no_delim by blast+
  moreover have "cut (CHR ''='') (query_escape k @ CHR ''='' # query_escape v) = (query_escape k, query_escape v)"
    by (simp add: cut_def takeWhile_append_stop [OF k] dropWhile_append_stop [OF k])
  ultimately show ?thesis by (simp add: parse_pair_def encode_pair_def)
qed

lemma encode_pair_no_amp: "CHR ''&'' \<notin> set (encode_pair kv)"
  using query_escape_no_delim by (auto simp: encode_pair_def)

lemma split_join_pairs:
  "kvs \<noteq> [] \<Longrightarrow> go_split (CHR ''&'') (go_join ''&'' (map encode_pair kvs)) = map encode_pair kvs"
proof (induction kvs)
  case (Cons kv kvs)
  show ?case
  proof (cases kvs)
    case Nil
    then show ?thesis by (simp add: encode_pair_no_amp)
  next
    case (Cons kv' kvs')
    with \<open>kvs \<noteq> [] \<Longrightarrow> _\<close> show ?thesis
      by (simp add: go_split_append encode_pair_no_amp)
  qed
qed simp

lemma map_filter_encode: "List.map_filter parse_pair (map encode_pair kvs) = kvs"
  by (induction kvs) (auto simp: List.map_filter_simps parse_encode_pair)

lemma parse_query_encode [codec]: "parse_query (values_encode vs) = sort_key fst vs"
proof (cases "vs = []")
  case True
  then show ?thesis
    by (simp add: values_encode_def parse_query_def List.map_filter_simps parse_pair_def)
next
  case False
  then have "sort_key fst vs \<noteq> []" by (metis length_0_conv length_sort)
  then show ?thesis
    by (simp add: values_encode_def parse_query_def split_join_pairs map_filter_encode)
qed

lemma query_get_encode:
  assumes "distinct (map fst vs)" "(k, v) \<in> set vs"
  shows "query_get (values_encode vs) k = v"
proof -
  have "distinct (map fst (sort_key fst vs))"
    using assms(1) by (simp add: distinct_map)
  with assms(2) show ?thesis by (simp add: query_get_def parse_query_encode map_of_is_SomeI)
qed

lemma fst_values_set: "fst ` set (values_set k v vs) = insert k (fst ` set vs)"
  by (induction k v vs rule: values_set.induct) (simp_all add: insert_commute)

lemma distinct_values_set [simp]:
  "distinct (map fst vs) \<Longrightarrow> distinct (map fst (values_set k v vs))"
  by (induction k v vs rule: values_set.induct) (auto simp: fst_values_set)

lemma values_set_mem [simp]:
  "distinct (map fst vs) \<Longrightarrow>
   (k', v') \<in> set (values_set k v vs) \<longleftrightarrow> (k' = k \<and> v' = v) \<or> (k' \<noteq> k \<and> (k', v') \<in> set vs)"
  by (induction vs) force+

subsection \<open>URLs\<close>

text \<open>\<open>URL.String\<close> for a URL with scheme, host, absolute path of plain characters and query.\<close>

definition esc_host_char :: "char \<Rightarrow> string" where
  "esc_host_char c = (if unreserved c \<or> c \<in> set ''!$&()*+,;=:[]<>'' \<or> ord c \<in> {34, 39 :: nat}
     then [c] else pct c)"

definition host_escape :: "string \<Rightarrow> string" where
  "host_escape h = concat (map esc_host_char h)"

definition url_string :: "string \<Rightarrow> string \<Rightarrow> string \<Rightarrow> string \<Rightarrow> string" where
  "url_string scheme host path raw_query =
     scheme @ ''://'' @ host_escape host @ path @ (if raw_query = [] then [] else ''?'' @ raw_query)"

end
