(* ===== verification/GoFloat.thy ===== *)
theory GoFloat
  imports GoJSON "HOL-Library.Log_Nat"
begin

text \<open>
  The decimal numbers of JSON as rationals and their rounding to \<open>float64\<close>, IEEE 754 to the
  nearest with ties to even, as \<open>strconv.ParseFloat\<close> does it; \<open>encoding/json\<close> rounds the
  numbers it decodes into an \<open>interface{}\<close> in this way.
\<close>

subsection \<open>Decimal literals\<close>

definition exponent_val :: "string \<Rightarrow> int" where
  "exponent_val s =
     (case s of [] \<Rightarrow> 0
      | c # t \<Rightarrow> if c = CHR ''-'' then - int (digits_val t)
                else if c = CHR ''+'' then int (digits_val t) else int (digits_val s))"

definition num_rat :: "string \<Rightarrow> rat" where
  "num_rat s =
     (let neg = (s \<noteq> [] \<and> hd s = CHR ''-'');
          t = (if neg then tl s else s);
          ip = takeWhile is_digit t; t1 = dropWhile is_digit t;
          dot = (t1 \<noteq> [] \<and> hd t1 = CHR ''.'');
          fp = (if dot then takeWhile is_digit (tl t1) else []);
          t2 = (if dot then dropWhile is_digit (tl t1) else t1);
          ex = (if t2 = [] then 0 else exponent_val (tl t2));
          v = of_nat (digits_val (ip @ fp)) * 10 powi (ex - int (length fp))
      in if neg then - v else v)"

lemma nat_dec_all: "takeWhile is_digit (nat_dec n) = nat_dec n" "dropWhile is_digit (nat_dec n) = []"
  using nat_dec_digits by (simp_all add: takeWhile_eq_all_conv)

lemma num_rat_int [simp]: "num_rat (int_dec i) = of_int i"
proof (cases "i < 0")
  case True
  then have "int_dec i = CHR ''-'' # nat_dec (nat (- i))" by (simp add: int_dec_def)
  with True show ?thesis by (simp add: num_rat_def nat_dec_all Let_def)
next
  case False
  then have d: "int_dec i = nat_dec (nat i)" by (simp add: int_dec_def)
  have "hd (nat_dec (nat i)) \<noteq> CHR ''-''" by simp
  with False d show ?thesis by (simp add: num_rat_def nat_dec_all Let_def)
qed

subsection \<open>Rounding\<close>

text \<open>To the nearest integer, ties to even.\<close>

definition round_even :: "rat \<Rightarrow> int" where
  "round_even x =
     (let f = \<lfloor>x\<rfloor>; d = x - of_int f in
      if d < 1 / 2 then f else if d > 1 / 2 then f + 1 else if even f then f else f + 1)"

text \<open>The exponent of the binade of a positive rational.\<close>

definition ilog2 :: "rat \<Rightarrow> int" where
  "ilog2 x =
     (case quotient_of x of (a, b) \<Rightarrow>
        let k = int (floorlog 2 (nat a)) - int (floorlog 2 (nat b)) in if 2 powi k \<le> x then k else k - 1)"

definition float64 :: "rat \<Rightarrow> rat option" where
  "float64 x =
     (if x = 0 then Some 0
      else let ulp = 2 powi (max (ilog2 \<bar>x\<bar>) (- 1022) - 52); y = of_int (round_even (x / ulp)) * ulp
           in if 2 ^ 1024 \<le> \<bar>y\<bar> then None else Some y)"

lemma round_even_ge: "of_int n \<le> x \<Longrightarrow> n \<le> round_even x"
proof -
  assume "of_int n \<le> x"
  then have "n \<le> \<lfloor>x\<rfloor>" by (simp add: le_floor_iff)
  then show ?thesis by (simp add: round_even_def Let_def)
qed

lemma round_even_le:
  assumes "x \<le> of_int n"
  shows "round_even x \<le> n"
proof (cases "x = of_int n")
  case True
  then show ?thesis by (simp add: round_even_def)
next
  case False
  with assms have "x < of_int n" by simp
  then have "\<lfloor>x\<rfloor> < n" by (simp add: floor_less_iff)
  then show ?thesis by (auto simp: round_even_def Let_def)
qed

lemma powi_split: "(2 :: rat) powi (int m - int n) = 2 ^ m / 2 ^ n"
  by (simp add: power_int_diff)

lemma floorlog_int:
  assumes "0 < i"
  shows "(2 :: rat) ^ (floorlog 2 (nat i) - 1) \<le> of_int i" "of_int i < (2 :: rat) ^ floorlog 2 (nat i)"
    "0 < floorlog 2 (nat i)"
proof -
  from assms obtain n where i: "i = int n" and n: "0 < n" using zero_less_imp_eq_int by blast
  have b: "2 ^ (floorlog 2 n - 1) \<le> n \<and> n < 2 ^ floorlog 2 n" using n by (rule floorlog_bounds) simp
  then have "(of_nat (2 ^ (floorlog 2 n - 1)) :: rat) \<le> of_nat n" "(of_nat n :: rat) < of_nat (2 ^ floorlog 2 n)"
    by (simp_all only: of_nat_le_iff of_nat_less_iff)
  then show "(2 :: rat) ^ (floorlog 2 (nat i) - 1) \<le> of_int i" "of_int i < (2 :: rat) ^ floorlog 2 (nat i)"
    by (simp_all add: i)
  show "0 < floorlog 2 (nat i)" using n b by (auto simp: i intro!: gr0I)
qed

lemma ilog2_bounds:
  assumes "0 < x"
  shows "2 powi ilog2 x \<le> x" "x < 2 powi (ilog2 x + 1)"
proof -
  obtain a b where q: "quotient_of x = (a, b)" by fastforce
  then have b: "0 < b" and x: "x = of_int a / of_int b" using quotient_of_denom_pos quotient_of_div by blast+
  with assms have a: "0 < a" by (simp add: zero_less_divide_iff)
  define m n where "m = floorlog 2 (nat a)" and "n = floorlog 2 (nat b)"
  have am: "(2 :: rat) ^ (m - 1) \<le> of_int a" "of_int a < (2 :: rat) ^ m" "0 < m"
    using floorlog_int [OF a] by (simp_all add: m_def)
  have bn: "(2 :: rat) ^ (n - 1) \<le> of_int b" "of_int b < (2 :: rat) ^ n" "0 < n"
    using floorlog_int [OF b] by (simp_all add: n_def)
  have two: "(2 :: rat) ^ m = 2 * 2 ^ (m - 1)" "(2 :: rat) ^ n = 2 * 2 ^ (n - 1)"
    using am(3) bn(3) by (simp_all flip: power_Suc)
  have "x < 2 ^ m / 2 ^ (n - 1)"
    unfolding x by (rule frac_less) (use am bn a in simp_all)
  then have hi: "x < 2 powi (int m - int n + 1)"
    using two by (simp add: power_int_add powi_split mult.commute)
  have "2 ^ (m - 1) / 2 ^ n < x"
    unfolding x by (rule frac_less2) (use am bn b in simp_all)
  then have lo: "2 powi (int m - int n - 1) \<le> x"
    using two by (simp add: power_int_diff powi_split)
  have il: "ilog2 x = (if 2 powi (int m - int n) \<le> x then int m - int n else int m - int n - 1)"
    by (simp add: ilog2_def q m_def n_def Let_def)
  show "2 powi ilog2 x \<le> x" using lo by (simp add: il)
  show "x < 2 powi (ilog2 x + 1)" using hi by (auto simp: il)
qed


text \<open>Rounding never crosses an integer below \<open>2 ^ 53\<close>.\<close>

lemma scaled_int:
  assumes "e \<le> (52 :: int)"
  shows "\<exists>k. (of_int n :: rat) = of_int k * 2 powi (e - 52)"
proof
  have "(2 :: rat) powi (52 - e) = of_int (2 ^ nat (52 - e))" using assms by (simp add: power_int_def)
  moreover have "(2 :: rat) powi (52 - e) * 2 powi (e - 52) = 1" by (simp flip: power_int_add)
  ultimately show "(of_int n :: rat) = of_int (n * 2 ^ nat (52 - e)) * 2 powi (e - 52)"
    by (simp add: mult.assoc)
qed

lemma round_scaled_ge:
  assumes "of_int k * u \<le> x" "(0 :: rat) < u"
  shows "of_int k * u \<le> of_int (round_even (x / u)) * u"
proof -
  have "of_int k \<le> x / u" using assms by (simp add: le_divide_eq)
  then have "k \<le> round_even (x / u)" by (rule round_even_ge)
  then show ?thesis using assms(2) by simp
qed

lemma round_scaled_le:
  assumes "x \<le> of_int k * u" "(0 :: rat) < u"
  shows "of_int (round_even (x / u)) * u \<le> of_int k * u"
proof -
  have "x / u \<le> of_int k" using assms by (simp add: divide_le_eq)
  then have "round_even (x / u) \<le> k" by (rule round_even_le)
  then show ?thesis using assms(2) by simp
qed

lemma float64_ge:
  assumes "of_int n \<le> x" "0 < n" "n \<le> 2 ^ 52" "float64 x = Some y"
  shows "of_int n \<le> y"
proof -
  from assms have x: "0 < x" by (metis of_int_0_less_iff less_le_trans)
  define u where "u = (2 :: rat) powi (max (ilog2 x) (- 1022) - 52)"
  have u: "0 < u" by (simp add: u_def)
  have y: "y = of_int (round_even (x / u)) * u"
    using assms(4) x by (auto simp: float64_def u_def Let_def split: if_splits)
  show ?thesis
  proof (cases "ilog2 x \<le> 52")
    case True
    then obtain k where k: "(of_int n :: rat) = of_int k * u" using scaled_int [of "max (ilog2 x) (- 1022)" n] by (auto simp: u_def)
    with assms(1) have "of_int k * u \<le> x" by simp
    from round_scaled_ge [OF this u] show ?thesis unfolding y k .
  next
    case False
    have "(2 :: rat) powi ilog2 x = of_int (2 ^ 52) * u"
      using False by (simp add: u_def power_int_diff)
    with ilog2_bounds(1) [OF x] have "of_int (2 ^ 52) * u \<le> x" by simp
    from round_scaled_ge [OF this u] have "of_int (2 ^ 52) * u \<le> y" unfolding y .
    moreover have "1 \<le> u" using False unfolding u_def by (intro one_le_power_int) auto
    then have "(of_int (2 ^ 52) :: rat) \<le> of_int (2 ^ 52) * u" by simp
    moreover have "(of_int n :: rat) \<le> of_int (2 ^ 52)" using assms(3) by (simp only: of_int_le_iff)
    ultimately show ?thesis by linarith
  qed
qed

lemma float64_le:
  assumes "x \<le> of_int n" "0 < n" "n \<le> 2 ^ 52" "float64 x = Some y"
  shows "y \<le> of_int n"
proof (cases "x = 0")
  case True
  with assms show ?thesis by (simp add: float64_def)
next
  case False
  define u where "u = (2 :: rat) powi (max (ilog2 \<bar>x\<bar>) (- 1022) - 52)"
  have u: "0 < u" by (simp add: u_def)
  have y: "y = of_int (round_even (x / u)) * u"
    using assms(4) False by (auto simp: float64_def u_def Let_def split: if_splits)
  show ?thesis
  proof (cases "x < 0")
    case True
    then have "x \<le> of_int 0 * u" by simp
    from round_scaled_le [OF this u] have "y \<le> 0" unfolding y by simp
    also have "0 \<le> (of_int n :: rat)" using assms(2) by simp
    finally show ?thesis .
  next
    case False
    with \<open>x \<noteq> 0\<close> have x: "0 < x" by simp
    have "ilog2 x \<le> 52"
    proof (rule ccontr)
      assume "\<not> ilog2 x \<le> 52"
      then have "(2 :: rat) powi 53 \<le> 2 powi ilog2 x" by (intro power_int_increasing) auto
      also have "\<dots> \<le> x" by (rule ilog2_bounds(1) [OF x])
      also have "x \<le> of_int (2 ^ 52)" using assms(1,3) by (meson of_int_le_iff order_trans)
      finally show False by simp
    qed
    then obtain k where k: "(of_int n :: rat) = of_int k * u"
      using scaled_int [of "max (ilog2 \<bar>x\<bar>) (- 1022)" n] x by (auto simp: u_def)
    with assms(1) have "x \<le> of_int k * u" by simp
    from round_scaled_le [OF this u] show ?thesis unfolding y k .
  qed
qed

lemma float64_int_less:
  assumes "float64 (of_int i) = Some y" "1 < n" "n \<le> 2 ^ 52"
  shows "y < of_int n \<longleftrightarrow> i < n"
proof
  assume "y < of_int n"
  then show "i < n" using float64_ge [of n "of_int i" y] assms by fastforce
next
  assume "i < n"
  then have "(of_int i :: rat) \<le> of_int (n - 1)" by (simp only: of_int_le_iff)
  from float64_le [OF this _ _ assms(1)] assms(2,3) show "y < of_int n" by simp
qed


lemma round_even_near: "\<bar>of_int (round_even x) - x\<bar> \<le> 1 / 2"
proof -
  have "of_int \<lfloor>x\<rfloor> \<le> x" "x < of_int \<lfloor>x\<rfloor> + 1" by (rule of_int_floor_le, rule floor_less_cancel) simp
  then show ?thesis unfolding round_even_def Let_def abs_if by (simp split: if_split) linarith
qed

lemma float64_int64:
  assumes "in_int64 i"
  shows "\<exists>y. float64 (of_int i) = Some y"
proof (cases "i = 0")
  case True
  then show ?thesis by (simp add: float64_def)
next
  case False
  define x where "x = (of_int i :: rat)"
  have x: "0 < \<bar>x\<bar>" using False by (simp add: x_def)
  have "\<bar>i\<bar> \<le> 2 ^ 63" using assms by (auto simp: in_int64_def)
  then have "(of_int \<bar>i\<bar> :: rat) \<le> of_int (2 ^ 63)" by (simp only: of_int_le_iff)
  then have b: "\<bar>x\<bar> \<le> 2 ^ 63" by (simp add: x_def)
  have "ilog2 \<bar>x\<bar> \<le> 63"
  proof (rule ccontr)
    assume "\<not> ilog2 \<bar>x\<bar> \<le> 63"
    then have "(2 :: rat) powi 64 \<le> 2 powi ilog2 \<bar>x\<bar>" by (intro power_int_increasing) auto
    also have "\<dots> \<le> \<bar>x\<bar>" by (rule ilog2_bounds(1) [OF x])
    finally show False using b by simp
  qed
  define u where "u = (2 :: rat) powi (max (ilog2 \<bar>x\<bar>) (- 1022) - 52)"
  have "u \<le> 2 powi 11" unfolding u_def using \<open>ilog2 \<bar>x\<bar> \<le> 63\<close> by (intro power_int_increasing) auto
  then have u: "0 < u" "u \<le> 2048" by (simp_all add: u_def)
  define y where "y = of_int (round_even (x / u)) * u"
  have "y - x = (of_int (round_even (x / u)) - x / u) * u" using u(1) by (simp add: y_def left_diff_distrib)
  then have "\<bar>y - x\<bar> = \<bar>of_int (round_even (x / u)) - x / u\<bar> * u" using u(1) by (simp add: abs_mult)
  also have "\<dots> \<le> 1 / 2 * u" using round_even_near u(1) by (intro mult_right_mono) auto
  finally have "\<bar>y\<bar> \<le> \<bar>x\<bar> + 1024" using u(2) by linarith
  also have "\<dots> \<le> 2 ^ 63 + 1024" using b by simp
  also have "\<dots> < (2 :: rat) ^ 1024" by simp
  finally have "\<bar>y\<bar> < 2 ^ 1024" .
  then have "float64 x = Some y"
    using x unfolding float64_def y_def u_def by (simp add: Let_def)
  then show ?thesis by (auto simp: x_def)
qed

lemma float64_nonneg:
  assumes "0 \<le> x" "float64 x = Some y"
  shows "0 \<le> y"
proof (cases "x = 0")
  case True
  with assms(2) show ?thesis by (simp add: float64_def)
next
  case False
  define u where "u = (2 :: rat) powi (max (ilog2 \<bar>x\<bar>) (- 1022) - 52)"
  have u: "0 < u" by (simp add: u_def)
  have y: "y = of_int (round_even (x / u)) * u"
    using assms(2) False by (auto simp: float64_def u_def Let_def split: if_splits)
  have "of_int 0 * u \<le> x" using assms(1) by simp
  from round_scaled_ge [OF this u] show ?thesis by (simp add: y)
qed

lemma float64_exact: "0 \<le> n \<Longrightarrow> n \<le> 2 ^ 52 \<Longrightarrow> float64 (of_int n) = Some (of_int n)"
proof -
  assume n: "0 \<le> n" "n \<le> 2 ^ 52"
  then have "in_int64 n" by (simp add: in_int64_def)
  then obtain y where y: "float64 (of_int n) = Some y" using float64_int64 by blast
  show ?thesis
  proof (cases "n = 0")
    case True
    then show ?thesis by (simp add: float64_def)
  next
    case False
    with n have "of_int n \<le> y" "y \<le> of_int n"
      using float64_ge [of n "of_int n" y] float64_le [of "of_int n" n y] y by simp_all
    with y show ?thesis by simp
  qed
qed

lemma float64_near:
  assumes "1 / 2 ^ 100 \<le> x" "x \<le> 2 ^ 200"
  shows "\<exists>y. float64 x = Some y \<and> \<bar>y - x\<bar> \<le> x / 2 ^ 53"
proof -
  have x: "0 < x" using less_le_trans [OF _ assms(1)] by simp
  have lo: "- 1022 \<le> ilog2 x"
  proof (rule ccontr)
    assume "\<not> - 1022 \<le> ilog2 x"
    then have "(2 :: rat) powi (ilog2 x + 1) \<le> 2 powi (- 1000)" by (intro power_int_increasing) auto
    also have "\<dots> \<le> 1 / 2 ^ 100" by (simp add: power_int_def divide_simps)
    finally show False using ilog2_bounds(2) [OF x] assms(1) by linarith
  qed
  define u where "u = (2 :: rat) powi (ilog2 x - 52)"
  have u: "0 < u" by (simp add: u_def)
  define y where "y = of_int (round_even (x / u)) * u"
  have "y - x = (of_int (round_even (x / u)) - x / u) * u" using u by (simp add: y_def left_diff_distrib)
  then have "\<bar>y - x\<bar> = \<bar>of_int (round_even (x / u)) - x / u\<bar> * u" using u by (simp add: abs_mult)
  also have "\<dots> \<le> 1 / 2 * u" using round_even_near u by (intro mult_right_mono) auto
  also have "\<dots> = 2 powi (ilog2 x) / 2 ^ 53" by (simp add: u_def power_int_diff)
  also have "\<dots> \<le> x / 2 ^ 53" by (rule divide_right_mono [OF ilog2_bounds(1) [OF x]]) simp
  finally have near: "\<bar>y - x\<bar> \<le> x / 2 ^ 53" .
  have "x / 2 ^ 53 \<le> x" using x by (simp add: divide_simps)
  with near have "\<bar>y\<bar> \<le> 2 * x" by linarith
  also have "\<dots> \<le> 2 * 2 ^ 200" using assms(2) by simp
  also have "\<dots> < (2 :: rat) ^ 1024" by simp
  finally have "\<not> 2 ^ 1024 \<le> \<bar>y\<bar>" by simp
  moreover have "max (ilog2 \<bar>x\<bar>) (- 1022) = ilog2 x" using lo x by simp
  ultimately have "float64 x = Some y"
    using x unfolding float64_def y_def u_def by (simp add: Let_def)
  with near show ?thesis by blast
qed

subsection \<open>Arithmetic\<close>

text \<open>The values of a float; every operation is the exact one followed by the rounding.\<close>

datatype float_val = Fin rat | PInf | NInf | NaN

definition round_float :: "rat \<Rightarrow> float_val" where
  "round_float x = (case float64 x of Some y \<Rightarrow> Fin y | None \<Rightarrow> if 0 < x then PInf else NInf)"

definition inf_of_sign :: "rat \<Rightarrow> float_val" where
  "inf_of_sign s = (if 0 < s then PInf else if s < 0 then NInf else NaN)"

text \<open>Quotients of finite numbers. A divisor of zero is a positive zero: it comes from an integer.\<close>

definition div_float :: "rat \<Rightarrow> rat \<Rightarrow> float_val" where
  "div_float x y = (if y = 0 then inf_of_sign x else round_float (x / y))"

text \<open>An integer as a float.\<close>

definition int_float :: "int \<Rightarrow> rat" where
  "int_float i = (case float64 (of_int i) of Some y \<Rightarrow> y | None \<Rightarrow> 0)"

lemma round_float_int: "0 \<le> n \<Longrightarrow> n \<le> 2 ^ 52 \<Longrightarrow> round_float (of_int n) = Fin (of_int n)"
  by (simp add: round_float_def float64_exact)

lemma int_float_id: "0 \<le> n \<Longrightarrow> n \<le> 2 ^ 52 \<Longrightarrow> int_float n = of_int n"
  by (simp add: int_float_def float64_exact)

text \<open>The comparison \<open>a >= b\<close> with a number.\<close>

definition float_ge :: "float_val \<Rightarrow> rat \<Rightarrow> bool" where
  "float_ge a b = (case a of Fin x \<Rightarrow> b \<le> x | PInf \<Rightarrow> True | _ \<Rightarrow> False)"

text \<open>Quotients of 32-bit integers reach a half exactly when the exact quotients do.\<close>

lemma float64_half: "float64 (1 / 2) = Some (1 / 2)"
proof -
  have "ilog2 (1 / 2) = - 1" by code_simp
  then have u: "(2 :: rat) powi (max (ilog2 \<bar>1 / 2\<bar>) (- 1022) - 52) = 1 / 2 ^ 53" by (simp add: power_int_def divide_simps)
  have "round_even (of_int (2 ^ 52)) = 2 ^ 52" unfolding round_even_def floor_of_int Let_def by simp
  moreover have "(1 / 2) / (1 / 2 ^ 53) = (of_int (2 ^ 52) :: rat)" by simp
  ultimately have r: "round_even ((1 / 2) / (1 / 2 ^ 53)) = 2 ^ 52" by simp
  show ?thesis unfolding float64_def u Let_def r by simp
qed

lemma quotient_half:
  assumes "0 \<le> f" "f < 2 ^ 32" "0 < n" "n < 2 ^ 32"
  shows "float_ge (div_float (int_float f) (int_float n)) (1 / 2) \<longleftrightarrow> n \<le> 2 * f"
proof -
  define x where "x = (of_int f / of_int n :: rat)"
  have n: "(0 :: rat) < of_int n" using assms(3) by simp
  have d: "div_float (int_float f) (int_float n) = round_float x"
    using assms by (simp add: div_float_def int_float_id x_def)
  consider "f = 0" | "0 < f" "2 * f = n" | "0 < f" "2 * f + 1 \<le> n" | "0 < f" "n + 1 \<le> 2 * f"
    using assms(1) by linarith
  then show ?thesis
  proof cases
    case 1
    then show ?thesis using assms(3) d by (simp add: x_def round_float_def float64_def float_ge_def)
  next
    case 2
    then have "of_int n = (of_int (2 * f) :: rat)" by simp
    then have r: "of_int n = (2 * of_int f :: rat)" by simp
    have h: "x = 1 / 2" unfolding x_def r using 2(1) by simp
    have "float64 x = Some (1 / 2)" unfolding h by (rule float64_half)
    then have "div_float (int_float f) (int_float n) = Fin (1 / 2)" unfolding d by (simp add: round_float_def)
    with 2(2) show ?thesis by (simp add: float_ge_def)
  next
    case 3
    have "of_int (2 * f + 1) \<le> (of_int n :: rat)" using 3(2) by (simp only: of_int_le_iff)
    then have r: "2 * of_int f + 1 \<le> (of_int n :: rat)" by simp
    have b: "(of_int n :: rat) \<le> 2 ^ 32" "1 \<le> (of_int f :: rat)" using assms(4) 3 by simp_all
    have hi: "x \<le> 1 / 2 - 1 / 2 ^ 33" unfolding x_def using r b n by (simp add: divide_le_eq)
    have lo: "1 / 2 ^ 32 \<le> x" unfolding x_def using b n by (simp add: le_divide_eq)
    obtain y where y: "float64 x = Some y" "\<bar>y - x\<bar> \<le> x / 2 ^ 53"
      using float64_near [of x] lo hi by auto
    have "y \<le> x + x / 2 ^ 53" using abs_le_D1 [OF y(2)] by linarith
    also have "\<dots> < 1 / 2" using hi by simp
    finally have "y < 1 / 2" .
    with y(1) d 3 show ?thesis by (simp add: round_float_def float_ge_def)
  next
    case 4
    have "of_int (n + 1) \<le> (of_int (2 * f) :: rat)" using 4(2) by (simp only: of_int_le_iff)
    then have r: "of_int n + 1 \<le> (2 * of_int f :: rat)" by simp
    have b: "(of_int n :: rat) \<le> 2 ^ 32" "1 \<le> (of_int n :: rat)" "(of_int f :: rat) \<le> 2 ^ 32" using assms 4 by simp_all
    have lo: "1 / 2 + 1 / 2 ^ 33 \<le> x" unfolding x_def using r b n by (simp add: le_divide_eq)
    have hi: "x \<le> 2 ^ 32" unfolding x_def using b n by (simp add: divide_le_eq)
    obtain y where y: "float64 x = Some y" "\<bar>y - x\<bar> \<le> x / 2 ^ 53"
      using float64_near [of x] lo hi by auto
    have "1 / 2 \<le> x - x / 2 ^ 53" using lo by simp
    also have "\<dots> \<le> y" using abs_le_D2 [OF y(2)] by linarith
    finally have "1 / 2 \<le> y" .
    with y(1) d 4 show ?thesis by (simp add: round_float_def float_ge_def)
  qed
qed

end
