(* ===== verification/CoreDomain.thy ===== *)
theory CoreDomain
  imports GoTime GoJSON
begin

text \<open>
  The domain of the login flow, \<open>internal/core/domain\<close>: the typed authentication errors and
  how a chain of wrapped errors is matched against them, the transient session, the token
  pair, and the user's profile with the masks its fields show in logs.
\<close>

subsection \<open>Errors (errors.go)\<close>

definition ErrSessionNotFound :: go_error where
  "ErrSessionNotFound = ErrAuth ''auth_session_not_found''"

definition ErrSessionExpired :: go_error where
  "ErrSessionExpired = ErrAuth ''auth_session_expired''"

definition ErrInvalidState :: go_error where
  "ErrInvalidState = ErrAuth ''invalid_oauth_state''"

definition ErrEgressFailed :: go_error where
  "ErrEgressFailed = ErrAuth ''external_identity_provider_unreachable''"

definition ErrTokenExchangeFailed :: go_error where
  "ErrTokenExchangeFailed = ErrAuth ''oauth_token_exchange_failed''"

definition ErrUnauthorized :: go_error where
  "ErrUnauthorized = ErrAuth ''user_identity_unauthorized''"

lemmas auth_errors = ErrSessionNotFound_def ErrSessionExpired_def ErrInvalidState_def
  ErrEgressFailed_def ErrTokenExchangeFailed_def ErrUnauthorized_def

text \<open>\<open>err\<close> may be nil, which \<open>errors.As\<close> never matches.\<close>

definition IsAuthError :: "go_error option \<Rightarrow> string \<Rightarrow> bool" where
  "IsAuthError err target =
     (case err of
        None \<Rightarrow> False
      | Some e \<Rightarrow> (case errors_as_auth e of Some a \<Rightarrow> a = target | None \<Rightarrow> False))"

text \<open>
  The helper agrees with \<open>errors.Is\<close> against the typed error, at any depth of wrapping.
\<close>

lemma IsAuthError_iff_is: "IsAuthError (Some e) a \<longleftrightarrow> errors_is e (ErrAuth a)"
  by (auto simp: IsAuthError_def errors_is_root_auth errors_as_auth_root [symmetric]
      split: option.splits)

lemma IsAuthError_wrap [simp]: "IsAuthError (Some (ErrWrap p e s)) a = IsAuthError (Some e) a"
  by (simp add: IsAuthError_iff_is)

subsection \<open>Sessions (session.go) and tokens (token.go)\<close>

record auth_session =
  session_id :: string
  session_state :: string
  code_verifier :: string
  redirect_uri :: string
  created_at :: instant
  expires_at :: instant

text \<open>\<open>IsExpired\<close> compares the clock with the end of the session's window.\<close>

definition IsExpired :: "instant \<Rightarrow> auth_session \<Rightarrow> bool" where
  "IsExpired now s = time_after now (expires_at s)"

record token_pair =
  access_token :: string
  refresh_token :: string
  id_token :: string
  expires_in :: int

definition token_pair_zero :: token_pair where
  "token_pair_zero = \<lparr>access_token = [], refresh_token = [], id_token = [], expires_in = 0\<rparr>"

subsection \<open>User profile (user.go)\<close>

record user_identity =
  user_sub :: string
  user_email :: string
  user_name :: string
  user_picture :: string
  email_verified :: bool

definition MaskedEmail_String :: "string \<Rightarrow> string" where
  "MaskedEmail_String e =
     (let parts = go_split2 (CHR ''@'') e in
      if length parts \<noteq> 2 then ''***''
      else let prefix = parts ! 0; host = parts ! 1 in
        if length prefix \<le> 1 then prefix @ ''***@'' @ host
        else take 1 prefix @ ''***@'' @ host)"

definition mask_segment :: "string \<Rightarrow> string" where
  "mask_segment part = (if length part \<le> 1 then part @ ''***'' else take 1 part @ ''***'')"

definition MaskedName_String :: "string \<Rightarrow> string" where
  "MaskedName_String n =
     (let parts = go_fields n in
      if length parts = 0 then ''***'' else go_join '' '' (map mask_segment parts))"

text \<open>The encoding of a profile: the masks apply to logs only, so the fields are in clear.\<close>

definition user_json :: "user_identity \<Rightarrow> json" where
  "user_json u =
     JObj ([(''sub'', JStr (user_sub u)), (''email'', JStr (user_email u)),
            (''name'', JStr (user_name u))] @
           (if user_picture u = [] then [] else [(''picture'', JStr (user_picture u))]) @
           [(''email_verified'', JBool (email_verified u))])"

lemma mask_segment_take [simp]: "mask_segment p = take 1 p @ ''***''"
  by (cases p) (auto simp: mask_segment_def)

lemma MaskedEmail_parts:
  assumes "CHR ''@'' \<notin> set local"
  shows "MaskedEmail_String (local @ CHR ''@'' # d) = take 1 local @ ''***@'' @ d"
proof -
  have "go_split2 (CHR ''@'') (local @ CHR ''@'' # d) = [local, d]" using assms by simp
  then show ?thesis by (cases local) (auto simp: MaskedEmail_String_def Let_def)
qed

lemma MaskedEmail_no_at: "CHR ''@'' \<notin> set e \<Longrightarrow> MaskedEmail_String e = ''***''"
  by (simp add: MaskedEmail_String_def go_split2_def)

lemma MaskedName_segments:
  "MaskedName_String n =
     (if go_fields n = [] then ''***''
      else go_join '' '' (map (\<lambda>p. take 1 p @ ''***'') (go_fields n)))"
  by (simp add: MaskedName_String_def cong: map_cong)

end
