(* ===== verification/BankDomain.thy ===== *)
theory BankDomain
  imports GoTime GoJSON
begin

text \<open>
  The banking domain, \<open>internal/banking/domain/banking.go\<close>: the account number masked in
  logs, the device key bound to a user, and the transfer payload with its JSON coding.
\<close>

subsection \<open>Masked accounts\<close>

text \<open>The loop of \<open>MaskedAccount.String\<close> appends one star per round.\<close>

fun star_loop :: "nat \<Rightarrow> string \<Rightarrow> string" where
  "star_loop 0 acc = acc"
| "star_loop (Suc n) acc = star_loop n (acc @ ''*'')"

definition MaskedAccount_String :: "string \<Rightarrow> string" where
  "MaskedAccount_String str =
     (if length str < 6 then ''***''
      else take 2 str @ star_loop (length str - 6) [] @ drop (length str - 4) str)"

lemma star_loop_replicate: "star_loop n acc = acc @ replicate n (CHR ''*'')"
  by (induction n arbitrary: acc) (auto simp: replicate_append_same [symmetric])

lemma MaskedAccount_long:
  "6 \<le> length a \<Longrightarrow>
   MaskedAccount_String a = take 2 a @ replicate (length a - 6) (CHR ''*'') @ drop (length a - 4) a"
  by (simp add: MaskedAccount_String_def star_loop_replicate)

lemma MaskedAccount_length:
  "length (MaskedAccount_String a) = (if length a < 6 then 3 else length a)"
  by (auto simp: MaskedAccount_String_def star_loop_replicate)

lemma MaskedAccount_eq_iff:
  assumes "6 \<le> length a" "6 \<le> length b"
  shows "MaskedAccount_String a = MaskedAccount_String b \<longleftrightarrow>
     length a = length b \<and> take 2 a = take 2 b \<and> drop (length a - 4) a = drop (length b - 4) b"
proof
  assume eq: "MaskedAccount_String a = MaskedAccount_String b"
  then have len: "length a = length b"
    using assms MaskedAccount_length [of a] MaskedAccount_length [of b] by simp
  with eq assms show "length a = length b \<and> take 2 a = take 2 b \<and>
      drop (length a - 4) a = drop (length b - 4) b"
    by (simp add: MaskedAccount_long)
next
  assume "length a = length b \<and> take 2 a = take 2 b \<and> drop (length a - 4) a = drop (length b - 4) b"
  with assms show "MaskedAccount_String a = MaskedAccount_String b"
    unfolding MaskedAccount_long [OF assms(1)] MaskedAccount_long [OF assms(2)] by metis
qed

lemma MaskedAccount_6_clear: "length a = 6 \<Longrightarrow> MaskedAccount_String a = a"
proof -
  assume a: "length a = 6"
  then have "MaskedAccount_String a = take 2 a @ drop 2 a" by (simp add: MaskedAccount_long)
  then show ?thesis by simp
qed

subsection \<open>Device keys\<close>

record enclave_key =
  key_id :: string
  key_user :: string
  public_key_pem :: string
  algorithm :: string
  registered_at :: instant

subsection \<open>Transfer payloads\<close>

record transfer_payload =
  tx_id :: string
  sender_account :: string
  receiver_account :: string
  amount_cents :: int
  currency :: string
  timestamp :: civil
  signature :: string

definition payload_zero :: transfer_payload where
  "payload_zero =
     \<lparr>tx_id = [], sender_account = [], receiver_account = [], amount_cents = 0, currency = [],
      timestamp = civil_zero, signature = []\<rparr>"

text \<open>
  A \<open>time.Time\<close> field is decoded by its \<open>UnmarshalJSON\<close>: a string in RFC 3339, or \<open>null\<close>,
  which leaves it as it was. (That method sees the raw string; a timestamp spelled with
  JSON escapes, which it refuses, is not told apart here from the plain one.)
\<close>

definition dec_time :: "civil \<Rightarrow> json \<Rightarrow> civil option" where
  "dec_time old j = (case j of JStr s \<Rightarrow> parse_rfc3339 s | JNull \<Rightarrow> Some old | _ \<Rightarrow> None)"

definition payload_field :: "transfer_payload \<Rightarrow> string \<Rightarrow> json \<Rightarrow> transfer_payload option" where
  "payload_field p k v =
     (if key_matches ''id'' k then map_option (\<lambda>s. p\<lparr>tx_id := s\<rparr>) (dec_string (tx_id p) v)
      else if key_matches ''sender_account'' k
      then map_option (\<lambda>s. p\<lparr>sender_account := s\<rparr>) (dec_string (sender_account p) v)
      else if key_matches ''receiver_account'' k
      then map_option (\<lambda>s. p\<lparr>receiver_account := s\<rparr>) (dec_string (receiver_account p) v)
      else if key_matches ''amount_cents'' k
      then map_option (\<lambda>i. p\<lparr>amount_cents := i\<rparr>) (dec_int64 (amount_cents p) v)
      else if key_matches ''currency'' k
      then map_option (\<lambda>s. p\<lparr>currency := s\<rparr>) (dec_string (currency p) v)
      else if key_matches ''timestamp'' k
      then map_option (\<lambda>t. p\<lparr>timestamp := t\<rparr>) (dec_time (timestamp p) v)
      else if key_matches ''signature'' k
      then map_option (\<lambda>s. p\<lparr>signature := s\<rparr>) (dec_string (signature p) v)
      else Some p)"

definition payload_of_json :: "json \<Rightarrow> transfer_payload option" where
  "payload_of_json j = decode_struct payload_field payload_zero j"

text \<open>\<open>json.Marshal(payload)\<close>; it fails when the timestamp's offset has no RFC 3339 form.\<close>

definition payload_json :: "transfer_payload \<Rightarrow> json option" where
  "payload_json p =
     map_option
       (\<lambda>t. JObj [(''id'', JStr (tx_id p)), (''sender_account'', JStr (sender_account p)),
                  (''receiver_account'', JStr (receiver_account p)),
                  (''amount_cents'', JNum (int_dec (amount_cents p))),
                  (''currency'', JStr (currency p)), (''timestamp'', JStr t),
                  (''signature'', JStr (signature p))])
       (civil_marshal (timestamp p))"

definition payload_marshal :: "transfer_payload \<Rightarrow> string option" where
  "payload_marshal p = map_option json_print (payload_json p)"

text \<open>Payloads whose fields JSON can carry: text in UTF-8, a 64-bit amount, a real date.\<close>

definition payload_ok :: "transfer_payload \<Rightarrow> bool" where
  "payload_ok p \<longleftrightarrow>
     valid_utf8 (tx_id p) \<and> valid_utf8 (sender_account p) \<and> valid_utf8 (receiver_account p) \<and>
     valid_utf8 (currency p) \<and> valid_utf8 (signature p) \<and> in_int64 (amount_cents p) \<and>
     civil_ok (timestamp p)"

text \<open>No two field names of the payload fold to the same key.\<close>

lemma payload_keys:
  "fold_key ''id'' = ''ID''" "fold_key ''sender_account'' = ''SENDER_ACCOUNT''"
  "fold_key ''receiver_account'' = ''RECEIVER_ACCOUNT''"
  "fold_key ''amount_cents'' = ''AMOUNT_CENTS''" "fold_key ''currency'' = ''CURRENCY''"
  "fold_key ''timestamp'' = ''TIMESTAMP''" "fold_key ''signature'' = ''SIGNATURE''"
  by (simp_all add: ascii_upper_def chr_eq_iff fold_key.simps)

lemma payload_field_simps:
  "payload_field p ''id'' v = map_option (\<lambda>s. p\<lparr>tx_id := s\<rparr>) (dec_string (tx_id p) v)"
  "payload_field p ''sender_account'' v =
     map_option (\<lambda>s. p\<lparr>sender_account := s\<rparr>) (dec_string (sender_account p) v)"
  "payload_field p ''receiver_account'' v =
     map_option (\<lambda>s. p\<lparr>receiver_account := s\<rparr>) (dec_string (receiver_account p) v)"
  "payload_field p ''amount_cents'' v =
     map_option (\<lambda>i. p\<lparr>amount_cents := i\<rparr>) (dec_int64 (amount_cents p) v)"
  "payload_field p ''currency'' v = map_option (\<lambda>s. p\<lparr>currency := s\<rparr>) (dec_string (currency p) v)"
  "payload_field p ''timestamp'' v = map_option (\<lambda>t. p\<lparr>timestamp := t\<rparr>) (dec_time (timestamp p) v)"
  "payload_field p ''signature'' v = map_option (\<lambda>s. p\<lparr>signature := s\<rparr>) (dec_string (signature p) v)"
  by (simp_all add: payload_field_def key_matches_def payload_keys)

lemma payload_of_payload_json [codec]:
  assumes "payload_ok p" "payload_json p = Some j"
  shows "payload_of_json j = Some p"
proof -
  from assms have ok: "in_int64 (amount_cents p)" "civil_ok (timestamp p)"
    and t: "civil_marshal (timestamp p) = Some (print_rfc3339 (timestamp p))"
    by (auto simp: payload_ok_def payload_json_def civil_marshal_def split: if_split_asm)
  have "dec_time c (JStr (print_rfc3339 (timestamp p))) = Some (timestamp p)" for c
    by (simp add: dec_time_def rfc3339_roundtrip [OF ok(2)])
  with assms(2) t ok(1) show ?thesis
    by (auto simp: payload_json_def payload_of_json_def decode_struct_def payload_field_simps)
qed

lemma payload_json_ok: "payload_ok p \<Longrightarrow> payload_json p = Some j \<Longrightarrow> json_ok j \<and> jdepth j \<le> max_depth"
  by (auto simp: payload_json_def payload_ok_def civil_marshal_def max_depth_def ascii_valid_utf8
      rfc3339_ascii split: if_split_asm)

lemma payload_json_total: "payload_ok p \<Longrightarrow> \<exists>j. payload_json p = Some j"
  by (simp add: payload_ok_def payload_json_def civil_marshal_def civil_ok_def)

lemma payload_marshal_roundtrip [codec]:
  assumes "payload_ok p"
  shows "\<exists>s j. payload_marshal p = Some s \<and> json_decode s = Some j \<and> json_unmarshal s = Some j \<and>
           payload_of_json j = Some p"
proof -
  obtain j where j: "payload_json p = Some j" using payload_json_total [OF assms] ..
  have ok: "json_ok j" "jdepth j \<le> max_depth" using payload_json_ok [OF assms j] by auto
  have "json_decode (json_print j) = Some j" using json_decode_print [OF ok, of "[]"] by simp
  with json_unmarshal_print [OF ok] payload_of_payload_json [OF assms j] j show ?thesis
    by (auto simp: payload_marshal_def)
qed

end
