(* ===== verification/World.thy ===== *)
theory World
  imports Complex_Main CoreDomain BankDomain GoUrl
begin

text \<open>
  What the program runs against. An operation takes the environment, its arguments and a
  \<open>world\<close>, and returns its result with the new world.

  The \<open>env\<close> holds what the program does not determine: the readings of the clock, the bytes
  of the random source, the faults of the database, the answers of the network, the
  decisions of the third-party circuit breaker, the replies of Valkey when it fails. Each is
  indexed by the number of times it was asked before, which the world counts, so nothing
  ties one answer to another unless a theorem assumes it.

  The \<open>world\<close> holds what the program reads and changes: the two tables of
  \<open>migrations/schema.sql\<close>, the token buckets, the requests sent, the records logged and the
  metrics counted.
\<close>

subsection \<open>Contexts, log records, messages\<close>

text \<open>
  A \<open>context.Context\<close>: the correlation identifier, and the validated claims, of which only
  the subject is read: \<open>None\<close> when the context carries none, \<open>Some None\<close> for a nil pointer.
\<close>

record go_ctx =
  ctx_request_id :: "string option"
  ctx_claims :: "string option option"

definition background :: go_ctx where
  "background = \<lparr>ctx_request_id = None, ctx_claims = None\<rparr>"

datatype log_level = LDebug | LInfo | LWarn | LError

datatype attr =
    AStr string
  | AInt int
  | ABool bool
  | AStrs "string list"
  | ATime instant
  | AErr go_error

text \<open>The \<open>LogValue\<close> methods: what a log attribute of a masked type shows.\<close>

definition MaskedEmail_LogValue :: "string \<Rightarrow> attr" where
  "MaskedEmail_LogValue e = AStr (MaskedEmail_String e)"

definition MaskedName_LogValue :: "string \<Rightarrow> attr" where
  "MaskedName_LogValue n = AStr (MaskedName_String n)"

definition MaskedAccount_LogValue :: "string \<Rightarrow> attr" where
  "MaskedAccount_LogValue a = AStr (MaskedAccount_String a)"

datatype log_record =
  LogRecord (rec_level: log_level) (rec_msg: string) (rec_attrs: "(string \<times> attr) list")

text \<open>
  A body as a reader: absent, data up to the end of the stream, or data followed by a read
  error.
\<close>

datatype body = BodyNil | BodyData string | BodyErr string string

type_synonym headers = "(string \<times> string) list"

record out_request =
  oq_method :: string
  oq_url :: string
  oq_headers :: headers
  oq_body :: string

record response =
  rs_status :: int
  rs_body :: body

text \<open>
  \<open>json.NewDecoder(b).Decode\<close>. A read error hides the value only if the decoder still needs
  to look beyond the data; the closing bracket of an array or object ends it at once.
  (\<open>net/http\<close> never hands a nil body to a handler.)
\<close>

definition decode_body :: "body \<Rightarrow> json option" where
  "decode_body b =
     (case b of
        BodyNil \<Rightarrow> None
      | BodyData s \<Rightarrow> json_decode s
      | BodyErr s m \<Rightarrow>
          (case jrun MVal [] s of
             None \<Rightarrow> None
           | Some (v, r) \<Rightarrow>
               if r \<noteq> [] \<or> (case v of JObj _ \<Rightarrow> True | JArr _ \<Rightarrow> True | _ \<Rightarrow> False)
               then Some v else None))"

text \<open>\<open>io.ReadAll\<close>: the data or the error, and the reader afterwards.\<close>

definition read_all :: "body \<Rightarrow> (go_error + string) \<times> body" where
  "read_all b =
     (case b of
        BodyNil \<Rightarrow> (Inr [], BodyNil)
      | BodyData s \<Rightarrow> (Inr s, BodyData [])
      | BodyErr s m \<Rightarrow> (Inl (ErrNew m), BodyErr [] m))"

subsection \<open>Environment and world\<close>

text \<open>
  A reply of Valkey other than the script's own: a command error, a reply that is no array,
  or an array whose elements may fail to convert.
\<close>

datatype valkey_reply = VErr string | VNotArray string | VVals "(string + int) list"

text \<open>
  A bucket of the rate limiter: its two hash fields and the time in milliseconds when its key
  expires, if it does.
\<close>

record bucket =
  tokens :: rat
  last_update :: rat
  expiry :: "int option"

record env =
  clock :: "nat \<Rightarrow> instant"
  rand_fill :: "nat \<Rightarrow> nat \<Rightarrow> byte"
  rand_err :: "nat \<Rightarrow> string option"
  db_fault :: "nat \<Rightarrow> (bool \<times> string) option"  \<comment> \<open>whether the statement took effect, and the error\<close>
  db_rows_err :: "nat \<Rightarrow> bool"
  db_msg :: "nat \<Rightarrow> string"
  db_now :: "nat \<Rightarrow> instant"
  pg_uuid :: "string \<Rightarrow> string option"
  pg_time :: "instant \<Rightarrow> instant"
  request_err :: "string \<Rightarrow> string option"
  transport :: "nat \<Rightarrow> out_request \<Rightarrow> go_error + response"
  breaker :: "nat \<Rightarrow> string option"
  valkey_fault :: "nat \<Rightarrow> (bool \<times> valkey_reply) option"  \<comment> \<open>whether the script ran, and the reply\<close>
  valkey_msg :: "nat \<Rightarrow> string"
  valkey_clock :: "nat \<Rightarrow> int"
  ulower :: "string \<Rightarrow> string"
  json_err :: "string \<Rightarrow> body \<Rightarrow> string"  \<comment> \<open>the text of a decoding error, by target type and input\<close>
  b64_err :: "string \<Rightarrow> string"
  fmt_float :: "string \<Rightarrow> string"

record world =
  w_clock :: nat
  w_rand :: nat
  w_db :: nat
  w_http :: nat
  w_breaker :: nat
  w_valkey :: nat
  w_sessions :: "auth_session list"
  w_keys :: "enclave_key list"
  w_buckets :: "(string \<times> bucket) list"
  w_sent :: "out_request list"
  w_log :: "(go_ctx \<times> log_record) list"
  w_metrics :: "((string \<times> string \<times> string) \<times> int) list"  \<comment> \<open>labels, duration\<close>

definition world_init :: world where
  "world_init =
     \<lparr>w_clock = 0, w_rand = 0, w_db = 0, w_http = 0, w_breaker = 0, w_valkey = 0,
      w_sessions = [], w_keys = [], w_buckets = [], w_sent = [], w_log = [], w_metrics = []\<rparr>"

subsection \<open>Primitive operations\<close>

text \<open>\<open>time.Now()\<close>.\<close>

definition time_now :: "env \<Rightarrow> world \<Rightarrow> instant \<times> world" where
  "time_now e w = (clock e (w_clock w), w\<lparr>w_clock := Suc (w_clock w)\<rparr>)"

text \<open>\<open>rand.Read\<close> of a buffer of \<open>n\<close> bytes: the buffer afterwards and the error.\<close>

definition rand_read :: "env \<Rightarrow> nat \<Rightarrow> world \<Rightarrow> byte list \<times> string option \<times> world" where
  "rand_read e n w =
     (map (rand_fill e (w_rand w)) [0..<n], rand_err e (w_rand w), w\<lparr>w_rand := Suc (w_rand w)\<rparr>)"

text \<open>The methods of \<open>*slog.Logger\<close> hand a record with its context to the handler.\<close>

definition log_at :: "log_level \<Rightarrow> go_ctx \<Rightarrow> string \<Rightarrow> (string \<times> attr) list \<Rightarrow> world \<Rightarrow> world" where
  "log_at l ctx msg attrs w = w\<lparr>w_log := w_log w @ [(ctx, LogRecord l msg attrs)]\<rparr>"

abbreviation InfoContext :: "go_ctx \<Rightarrow> string \<Rightarrow> (string \<times> attr) list \<Rightarrow> world \<Rightarrow> world" where
  "InfoContext \<equiv> log_at LInfo"

abbreviation WarnContext :: "go_ctx \<Rightarrow> string \<Rightarrow> (string \<times> attr) list \<Rightarrow> world \<Rightarrow> world" where
  "WarnContext \<equiv> log_at LWarn"

abbreviation ErrorContext :: "go_ctx \<Rightarrow> string \<Rightarrow> (string \<times> attr) list \<Rightarrow> world \<Rightarrow> world" where
  "ErrorContext \<equiv> log_at LError"

abbreviation DebugContext :: "go_ctx \<Rightarrow> string \<Rightarrow> (string \<times> attr) list \<Rightarrow> world \<Rightarrow> world" where
  "DebugContext \<equiv> log_at LDebug"

text \<open>\<open>http.NewRequestWithContext\<close> fails on a URL that does not parse.\<close>

definition new_request :: "env \<Rightarrow> string \<Rightarrow> string \<Rightarrow> string \<Rightarrow> go_error + out_request" where
  "new_request e meth url bdy =
     (case request_err e url of
        Some m \<Rightarrow> Inl (ErrNew m)
      | None \<Rightarrow> Inr \<lparr>oq_method = meth, oq_url = url, oq_headers = [], oq_body = bdy\<rparr>)"

fun header_set :: "string \<Rightarrow> string \<Rightarrow> headers \<Rightarrow> headers" where
  "header_set k v [] = [(k, v)]"
| "header_set k v ((k', v') # hs) = (if k' = k then (k, v) # hs else (k', v') # header_set k v hs)"

definition header_get :: "headers \<Rightarrow> string \<Rightarrow> string" where
  "header_get hs k = (case map_of hs k of Some v \<Rightarrow> v | None \<Rightarrow> [])"

text \<open>\<open>client.Do\<close>.\<close>

definition http_do :: "env \<Rightarrow> out_request \<Rightarrow> world \<Rightarrow> (go_error + response) \<times> world" where
  "http_do e req w =
     (transport e (w_http w) req, w\<lparr>w_http := Suc (w_http w), w_sent := w_sent w @ [req]\<rparr>)"

text \<open>
  \<open>breaker.Execute(f)\<close> of the third-party circuit breaker, by its documentation: it returns
  an error at once if it rejects the request, and otherwise the result of \<open>f\<close>. When it
  rejects is up to the environment.
\<close>

definition breaker_execute ::
  "env \<Rightarrow> (world \<Rightarrow> (go_error + 'a) \<times> world) \<Rightarrow> world \<Rightarrow> (go_error + 'a) \<times> world" where
  "breaker_execute e f w =
     (case breaker e (w_breaker w) of
        Some m \<Rightarrow> (Inl (ErrSentinel m), w\<lparr>w_breaker := Suc (w_breaker w)\<rparr>)
      | None \<Rightarrow> f (w\<lparr>w_breaker := Suc (w_breaker w)\<rparr>))"

subsection \<open>The database\<close>

text \<open>
  A statement runs as the \<open>k\<close>-th of the connection on a world and either refuses, leaving no
  trace, or gives the number of rows it affected and the new world. A fault of the database
  may hit before or after the statement took effect.
\<close>

type_synonym statement = "nat \<Rightarrow> world \<Rightarrow> (nat \<times> world) option"

definition db_exec :: "env \<Rightarrow> statement \<Rightarrow> world \<Rightarrow> (go_error + nat) \<times> world" where
  "db_exec e st w =
     (let k = w_db w; w1 = w\<lparr>w_db := Suc k\<rparr> in
      case db_fault e k of
        Some (took_effect, m) \<Rightarrow>
          (Inl (ErrNew m),
           if took_effect then (case st k w1 of None \<Rightarrow> w1 | Some (n, w2) \<Rightarrow> w2) else w1)
      | None \<Rightarrow> (case st k w1 of
          None \<Rightarrow> (Inl (ErrNew (db_msg e k)), w1)
        | Some (n, w2) \<Rightarrow> (Inr n, w2)))"

text \<open>\<open>result.RowsAffected()\<close> of the statement that ran as the \<open>k\<close>-th.\<close>

definition rows_affected :: "env \<Rightarrow> nat \<Rightarrow> nat \<Rightarrow> nat option" where
  "rows_affected e k n = (if db_rows_err e k then None else Some n)"

definition ErrNoRows :: go_error where
  "ErrNoRows = ErrSentinel ''sql: no rows in result set''"

text \<open>
  A query of one row, or of all rows; \<open>None\<close> when the server refuses the parameter.
\<close>

definition db_get :: "env \<Rightarrow> (world \<Rightarrow> 'r list option) \<Rightarrow> world \<Rightarrow> (go_error + 'r) \<times> world" where
  "db_get e q w =
     (let k = w_db w; w1 = w\<lparr>w_db := Suc k\<rparr> in
      (case db_fault e k of
         Some (_, m) \<Rightarrow> Inl (ErrNew m)
       | None \<Rightarrow> (case q w1 of
           None \<Rightarrow> Inl (ErrNew (db_msg e k))
         | Some [] \<Rightarrow> Inl ErrNoRows
         | Some (r # _) \<Rightarrow> Inr r), w1))"

definition db_select :: "env \<Rightarrow> (world \<Rightarrow> 'r list option) \<Rightarrow> world \<Rightarrow> (go_error + 'r list) \<times> world" where
  "db_select e q w =
     (let k = w_db w; w1 = w\<lparr>w_db := Suc k\<rparr> in
      (case db_fault e k of
         Some (_, m) \<Rightarrow> Inl (ErrNew m)
       | None \<Rightarrow> (case q w1 of None \<Rightarrow> Inl (ErrNew (db_msg e k)) | Some rs \<Rightarrow> Inr rs), w1))"

text \<open>
  PostgreSQL's text types: text is valid UTF-8 without NUL; a value too long for
  \<open>VARCHAR(n)\<close> is refused, unless what exceeds it are spaces, which are cut off.
\<close>

definition rune_count :: "string \<Rightarrow> nat" where
  "rune_count s = length (filter (\<lambda>c. \<not> utf8_cont c) s)"

definition pg_text :: "string \<Rightarrow> bool" where
  "pg_text s \<longleftrightarrow> valid_utf8 s \<and> list_all (\<lambda>c. ord c \<noteq> (0 :: nat)) s"

definition pg_varchar :: "nat \<Rightarrow> string \<Rightarrow> string option" where
  "pg_varchar n s =
     (if \<not> pg_text s then None
      else if rune_count s \<le> n then Some s
      else let k = length s - (rune_count s - n) in
        if list_all (\<lambda>c. c = CHR '' '') (drop k s) then Some (take k s) else None)"

lemma pg_varchar_no_space:
  assumes "pg_varchar n s = Some t" "CHR '' '' \<notin> set s"
  shows "t = s"
proof (rule ccontr)
  assume "t \<noteq> s"
  with assms(1) have "rune_count s > n"
    and sp: "list_all (\<lambda>c. c = CHR '' '') (drop (length s - (rune_count s - n)) s)"
    by (auto simp: pg_varchar_def Let_def split: if_split_asm)
  moreover have "rune_count s \<le> length s" by (simp add: rune_count_def)
  ultimately have "drop (length s - (rune_count s - n)) s \<noteq> []" by simp
  then have hd: "hd (drop (length s - (rune_count s - n)) s) \<in> set (drop (length s - (rune_count s - n)) s)"
    by (rule hd_in_set)
  with sp have "hd (drop (length s - (rune_count s - n)) s) = CHR '' ''"
    by (simp only: list_all_iff)
  with hd assms(2) show False by (metis in_set_dropD)
qed

lemma rune_count_le: "rune_count s \<le> length s"
  by (simp add: rune_count_def)

lemma pg_varchar_fits: "pg_text s \<Longrightarrow> length s \<le> n \<Longrightarrow> pg_varchar n s = Some s"
  using rune_count_le [of s] by (simp add: pg_varchar_def)

lemma header_get_set [simp]: "header_get (header_set k v hs) k' = (if k' = k then v else header_get hs k')"
  by (induction k v hs rule: header_set.induct) (auto simp: header_get_def)

subsection \<open>Frames\<close>

text \<open>What each primitive leaves as it was.\<close>

lemma time_now_simps [simp]:
  "fst (time_now e w) = clock e (w_clock w)"
  "w_sessions (snd (time_now e w)) = w_sessions w" "w_keys (snd (time_now e w)) = w_keys w"
  "w_buckets (snd (time_now e w)) = w_buckets w" "w_sent (snd (time_now e w)) = w_sent w"
  "w_log (snd (time_now e w)) = w_log w" "w_metrics (snd (time_now e w)) = w_metrics w"
  "w_clock (snd (time_now e w)) = Suc (w_clock w)" "w_http (snd (time_now e w)) = w_http w"
  "w_db (snd (time_now e w)) = w_db w" "w_breaker (snd (time_now e w)) = w_breaker w"
  "w_rand (snd (time_now e w)) = w_rand w" "w_valkey (snd (time_now e w)) = w_valkey w"
  by (simp_all add: time_now_def)

lemma log_at_simps [simp]:
  "w_sessions (log_at l c m a w) = w_sessions w" "w_keys (log_at l c m a w) = w_keys w"
  "w_buckets (log_at l c m a w) = w_buckets w" "w_sent (log_at l c m a w) = w_sent w"
  "w_log (log_at l c m a w) = w_log w @ [(c, LogRecord l m a)]"
  "w_metrics (log_at l c m a w) = w_metrics w" "w_clock (log_at l c m a w) = w_clock w"
  "w_http (log_at l c m a w) = w_http w" "w_db (log_at l c m a w) = w_db w"
  "w_breaker (log_at l c m a w) = w_breaker w" "w_rand (log_at l c m a w) = w_rand w"
  "w_valkey (log_at l c m a w) = w_valkey w"
  by (simp_all add: log_at_def)

lemma http_do_simps [simp]:
  "fst (http_do e q w) = transport e (w_http w) q"
  "w_sent (snd (http_do e q w)) = w_sent w @ [q]"
  "w_sessions (snd (http_do e q w)) = w_sessions w" "w_keys (snd (http_do e q w)) = w_keys w"
  "w_log (snd (http_do e q w)) = w_log w" "w_clock (snd (http_do e q w)) = w_clock w"
  "w_http (snd (http_do e q w)) = Suc (w_http w)" "w_buckets (snd (http_do e q w)) = w_buckets w"
  "w_metrics (snd (http_do e q w)) = w_metrics w"
  by (simp_all add: http_do_def)

subsection \<open>A sample environment\<close>

text \<open>
  A healthy environment, for evaluating the model on concrete inputs: the clock advances a
  millisecond per reading, nothing fails, the network answers 200 with an empty object.
\<close>

definition sample_env :: env where
  "sample_env =
     \<lparr>clock = (\<lambda>n. Instant (1700000000000000000 + int n * 1000000)),
      rand_fill = (\<lambda>k i. word_of_nat (17 * k + i)), rand_err = (\<lambda>_. None),
      db_fault = (\<lambda>_. None), db_rows_err = (\<lambda>_. False), db_msg = (\<lambda>_. ''refused''),
      db_now = (\<lambda>_. Instant 1700000000000000000),
      pg_uuid = (\<lambda>s. if length s = 36 then Some s else None), pg_time = (\<lambda>t. t),
      request_err = (\<lambda>_. None),
      transport = (\<lambda>_ _. Inr \<lparr>rs_status = 200, rs_body = BodyData ''{}''\<rparr>),
      breaker = (\<lambda>_. None), valkey_fault = (\<lambda>_. None), valkey_msg = (\<lambda>_. ''script failed''),
      valkey_clock = (\<lambda>_. 1700000000000), ulower = (\<lambda>s. s), json_err = (\<lambda>_ _. ''invalid''),
      b64_err = (\<lambda>_. ''illegal base64''), fmt_float = (\<lambda>s. s)\<rparr>"

end
