(* ===== verification/Pkce.thy ===== *)
theory Pkce
  imports World GoHash
begin

text \<open>
  The random material of the login flow: \<open>internal/adapters/crypto/pkce.go\<close> (state, code
  verifier, S256 challenge) and the version 4 UUIDs of \<open>auth_service.go\<close> and
  \<open>middleware.go\<close>.
\<close>

definition GenerateState :: "env \<Rightarrow> world \<Rightarrow> (go_error + string) \<times> world" where
  "GenerateState e w =
     (case rand_read e 32 w of
        (bytes, Some m, w') \<Rightarrow> (Inl (ErrWrap ''read random bytes for state: '' (ErrNew m) []), w')
      | (bytes, None, w') \<Rightarrow> (Inr (raw_url_encode (of_bytes bytes)), w'))"

definition GenerateVerifier :: "env \<Rightarrow> world \<Rightarrow> (go_error + string) \<times> world" where
  "GenerateVerifier e w =
     (case rand_read e 32 w of
        (bytes, Some m, w') \<Rightarrow>
          (Inl (ErrWrap ''read random bytes for PKCE verifier: '' (ErrNew m) []), w')
      | (bytes, None, w') \<Rightarrow> (Inr (raw_url_encode (of_bytes bytes)), w'))"

definition DeriveChallenge :: "string \<Rightarrow> string" where
  "DeriveChallenge verifier = raw_url_encode (of_bytes (sha256 (to_bytes verifier)))"

subsection \<open>UUIDs\<close>

unbundle bit_operations_syntax

text \<open>The verb \<open>%x\<close> on a slice of bytes.\<close>

definition hex_slice :: "nat \<Rightarrow> nat \<Rightarrow> byte list \<Rightarrow> string" where
  "hex_slice i j bs = hex_encode (of_bytes (take (j - i) (drop i bs)))"

definition uuid_bits :: "byte list \<Rightarrow> byte list" where
  "uuid_bits bs =
     (let bs1 = bs[6 := ((bs ! 6) AND 0x0F) OR 0x40]
      in bs1[8 := ((bs1 ! 8) AND 0x3F) OR 0x80])"

definition uuid_format :: "byte list \<Rightarrow> string" where
  "uuid_format bs =
     hex_slice 0 4 bs @ ''-'' @ hex_slice 4 6 bs @ ''-'' @ hex_slice 6 8 bs @ ''-'' @
     hex_slice 8 10 bs @ ''-'' @ hex_slice 10 16 bs"

text \<open>The error of the random source is dropped.\<close>

definition generateUUIDv4 :: "env \<Rightarrow> world \<Rightarrow> string \<times> world" where
  "generateUUIDv4 e w =
     (case rand_read e 16 w of (bytes, err, w') \<Rightarrow> (uuid_format (uuid_bits bytes), w'))"

subsection \<open>Shape\<close>

lemma of_rand_length [simp]: "length (fst (rand_read e n w)) = n"
  by (simp add: rand_read_def)

lemma encode_32: "length s = 32 \<Longrightarrow> length (raw_url_encode s) = 43"
  by (simp add: raw_url_encode_def length_b64_enc)

lemma length_DeriveChallenge: "length (DeriveChallenge v) = 43"
  by (simp add: DeriveChallenge_def encode_32)

lemma DeriveChallenge_safe: "c \<in> set (DeriveChallenge v) \<Longrightarrow> url_safe c"
  unfolding DeriveChallenge_def by (rule raw_url_encode_safe)

lemma GenerateState_ok:
  assumes "GenerateState e w = (Inr s, w')"
  shows "length s = 43" "list_all url_safe s"
    "raw_url_decode s = Some (of_bytes (map (rand_fill e (w_rand w)) [0..<32]))"
    "w' = w\<lparr>w_rand := Suc (w_rand w)\<rparr>"
  using assms raw_url_encode_safe
  by (auto simp: GenerateState_def rand_read_def encode_32 list_all_iff split: option.splits)

lemma GenerateVerifier_ok:
  assumes "GenerateVerifier e w = (Inr s, w')"
  shows "length s = 43" "list_all url_safe s"
    "raw_url_decode s = Some (of_bytes (map (rand_fill e (w_rand w)) [0..<32]))"
    "w' = w\<lparr>w_rand := Suc (w_rand w)\<rparr>"
  using assms raw_url_encode_safe
  by (auto simp: GenerateVerifier_def rand_read_def encode_32 list_all_iff split: option.splits)

lemma and_mask_mod:
  "b AND mask n = (word_of_nat (unat b mod 2 ^ n) :: byte)"
proof (rule unsigned_word_eqI)
  have "unat b < 256" using unsigned_less [of b] by simp
  then have "unat b mod 2 ^ n < 256" by (rule le_less_trans [OF mod_less_eq_dividend])
  then show "unat (b AND mask n) = unat (word_of_nat (unat b mod 2 ^ n) :: byte)"
    unfolding take_bit_eq_mask [symmetric] unsigned_take_bit_eq
    by (simp add: take_bit_eq_mod unat_of_nat)
qed

lemma version_bits: "unat ((b AND 0x0F) OR 0x40 :: byte) div 16 = 4"
proof -
  have all: "\<forall>n\<in>set [0..<16]. unat ((word_of_nat n :: byte) OR 0x40) div 16 = 4" by code_simp
  have "(mask 4 :: byte) = 0x0F" by (simp add: mask_eq_exp_minus_1)
  then have "b AND 0x0F = word_of_nat (unat b mod 16)" using and_mask_mod [of b 4] by simp
  with all show ?thesis by simp
qed

lemma variant_bits: "unat ((b AND 0x3F) OR 0x80 :: byte) div 64 = 2"
proof -
  have all: "\<forall>n\<in>set [0..<64]. unat ((word_of_nat n :: byte) OR 0x80) div 64 = 2" by code_simp
  have "(mask 6 :: byte) = 0x3F" by (simp add: mask_eq_exp_minus_1)
  then have "b AND 0x3F = word_of_nat (unat b mod 64)" using and_mask_mod [of b 6] by simp
  with all show ?thesis by simp
qed

lemma hex_slice_pair:
  "j = Suc (Suc i) \<Longrightarrow> j \<le> length bs \<Longrightarrow>
   hex_slice i j bs = hex_encode (of_bytes [bs ! i, bs ! Suc i])"
  by (simp add: hex_slice_def take_Suc hd_drop_conv_nth Cons_nth_drop_Suc [symmetric] numeral_2_eq_2)

lemma length_hex_slice: "length (hex_slice i j bs) = 2 * min (j - i) (length bs - i)"
  by (simp add: hex_slice_def)

lemma hex_byte: "hex_encode (of_bytes [a, b]) =
    [hex_digit (unat a div 16), hex_digit (unat a mod 16), hex_digit (unat b div 16), hex_digit (unat b mod 16)]"
  by (simp add: hex_encode_def of_bytes_def)

text \<open>Where the dashes, the version and the variant stand.\<close>

lemma uuid_shape:
  assumes "length bs = 16"
  shows "length (uuid_format (uuid_bits bs)) = 36" "uuid_format (uuid_bits bs) ! 14 = CHR ''4''"
    "uuid_format (uuid_bits bs) ! 19 \<in> {CHR ''8'', CHR ''9'', CHR ''a'', CHR ''b''}"
    "\<forall>i\<in>{8, 13, 18, 23}. uuid_format (uuid_bits bs) ! i = CHR ''-''"
proof -
  let ?u = "uuid_bits bs"
  have len: "length ?u = 16" using assms by (simp add: uuid_bits_def Let_def)
  show "length (uuid_format ?u) = 36" by (simp add: uuid_format_def length_hex_slice len)
  have l: "length (hex_slice 0 4 ?u) = 8" "length (hex_slice 4 6 ?u) = 4"
    "length (hex_slice 6 8 ?u) = 4" "length (hex_slice 8 10 ?u) = 4"
    by (simp_all add: length_hex_slice len)
  show "\<forall>i\<in>{8, 13, 18, 23}. uuid_format ?u ! i = CHR ''-''"
    by (simp add: uuid_format_def nth_append l)
  have "?u ! 6 = (bs ! 6 AND 0x0F) OR 0x40" "?u ! 8 = (bs ! 8 AND 0x3F) OR 0x80"
    using assms by (simp_all add: uuid_bits_def Let_def)
  then have "unat (?u ! 6) div 16 = 4" and v: "unat (?u ! 8) div 64 = 2"
    using version_bits variant_bits by metis+
  then show "uuid_format ?u ! 14 = CHR ''4''"
    using hex_slice_pair [of 8 6 ?u] len hex_byte [of "?u ! 6" "?u ! 7"]
    by (simp add: uuid_format_def nth_append l hex_digit_def chr_eq_iff)
  have "unat (?u ! 8) div 16 \<in> {8, 9, 10, 11}" using v by auto
  then show "uuid_format ?u ! 19 \<in> {CHR ''8'', CHR ''9'', CHR ''a'', CHR ''b''}"
    using hex_slice_pair [of 10 8 ?u] len hex_byte [of "?u ! 8" "?u ! 9"]
    by (auto simp: uuid_format_def nth_append l hex_digit_def chr_eq_iff)
qed

lemma generateUUIDv4_shape:
  assumes "generateUUIDv4 e w = (u, w')"
  shows "length u = 36" "u ! 14 = CHR ''4''" "u ! 19 \<in> {CHR ''8'', CHR ''9'', CHR ''a'', CHR ''b''}"
    "\<forall>i\<in>{8, 13, 18, 23}. u ! i = CHR ''-''"
  using assms uuid_shape [of "map (rand_fill e (w_rand w)) [0..<16]"]
  by (simp_all add: generateUUIDv4_def rand_read_def)

end
