(* ===== verification/SessionRepo.thy ===== *)
theory SessionRepo
  imports World
begin

text \<open>
  \<open>internal/adapters/repository/sql_session_repository.go\<close>: the session repository over the
  table \<open>auth_sessions\<close> of \<open>migrations/schema.sql\<close>, its SQL statements written out on the
  rows of the table with the constraints the schema declares. The port
  \<open>ports.SessionRepository\<close> is the record \<open>session_repo\<close>; the locale \<open>session_store\<close>
  states what a client may rely on and is interpreted on the SQL repository.
\<close>

subsection \<open>The statements\<close>

text \<open>
  The row an \<open>INSERT\<close> stores: the identifier in the canonical form of the type \<open>UUID\<close>, the
  creation time the server's, the end of the window at the resolution of the column.
\<close>

definition session_row :: "env \<Rightarrow> nat \<Rightarrow> auth_session \<Rightarrow> auth_session option" where
  "session_row e k s =
     (case (pg_uuid e (session_id s), pg_varchar 255 (session_state s), pg_varchar 128 (code_verifier s)) of
        (Some u, Some st, Some cv) \<Rightarrow>
          if pg_text (redirect_uri s)
          then Some \<lparr>session_id = u, session_state = st, code_verifier = cv,
                     redirect_uri = redirect_uri s, created_at = db_now e k,
                     expires_at = pg_time e (expires_at s)\<rparr>
          else None
      | _ \<Rightarrow> None)"

text \<open>\<open>id\<close> is the primary key and \<open>state\<close> is unique.\<close>

definition insert_session :: "env \<Rightarrow> auth_session \<Rightarrow> statement" where
  "insert_session e s k w =
     (case session_row e k s of
        None \<Rightarrow> None
      | Some r \<Rightarrow>
          if \<exists>x\<in>set (w_sessions w). session_id x = session_id r \<or> session_state x = session_state r
          then None
          else Some (1, w\<lparr>w_sessions := w_sessions w @ [r]\<rparr>))"

definition select_session :: "env \<Rightarrow> string \<Rightarrow> world \<Rightarrow> auth_session list option" where
  "select_session e sid w =
     (case pg_uuid e sid of
        None \<Rightarrow> None
      | Some u \<Rightarrow> Some (filter (\<lambda>r. session_id r = u) (w_sessions w)))"

definition delete_session :: "env \<Rightarrow> string \<Rightarrow> statement" where
  "delete_session e sid k w =
     (case pg_uuid e sid of
        None \<Rightarrow> None
      | Some u \<Rightarrow> Some (length (filter (\<lambda>r. session_id r = u) (w_sessions w)),
                     w\<lparr>w_sessions := filter (\<lambda>r. session_id r \<noteq> u) (w_sessions w)\<rparr>))"

definition delete_expired_sessions :: "env \<Rightarrow> instant \<Rightarrow> statement" where
  "delete_expired_sessions e now k w =
     Some (length (filter (\<lambda>r. expires_at r < pg_time e now) (w_sessions w)),
           w\<lparr>w_sessions := filter (\<lambda>r. \<not> expires_at r < pg_time e now) (w_sessions w)\<rparr>)"

subsection \<open>The repository\<close>

definition Save :: "env \<Rightarrow> go_ctx \<Rightarrow> auth_session \<Rightarrow> world \<Rightarrow> go_error option \<times> world" where
  "Save e ctx s w =
     (let w1 = InfoContext ctx ''inserting transient auth session''
                 [(''session_id'', AStr (session_id s)), (''state'', AStr (session_state s))] w
      in case db_exec e (insert_session e s) w1 of
           (Inl err, w2) \<Rightarrow> (Some (ErrWrap ''failed to save auth session: '' err []), w2)
         | (Inr n, w2) \<Rightarrow> (None, w2))"

definition Get :: "env \<Rightarrow> go_ctx \<Rightarrow> string \<Rightarrow> world \<Rightarrow> (go_error + auth_session) \<times> world" where
  "Get e ctx sid w =
     (let w1 = InfoContext ctx ''retrieving transient auth session'' [(''session_id'', AStr sid)] w
      in case db_get e (select_session e sid) w1 of
           (Inl err, w2) \<Rightarrow>
             (if errors_is err ErrNoRows
              then Inl (ErrWrap [] ErrSessionNotFound ('': session '' @ sid))
              else Inl (ErrWrap ''failed to query auth session: '' err []), w2)
         | (Inr s, w2) \<Rightarrow> (Inr s, w2))"

definition Delete :: "env \<Rightarrow> go_ctx \<Rightarrow> string \<Rightarrow> world \<Rightarrow> go_error option \<times> world" where
  "Delete e ctx sid w =
     (let w1 = InfoContext ctx ''deleting transient auth session'' [(''session_id'', AStr sid)] w
      in case db_exec e (delete_session e sid) w1 of
           (Inl err, w2) \<Rightarrow> (Some (ErrWrap ''failed to delete auth session: '' err []), w2)
         | (Inr n, w2) \<Rightarrow>
             (if rows_affected e (w_db w1) n = Some 0
              then Some (ErrWrap [] ErrSessionNotFound ('': session '' @ sid)) else None, w2))"

definition DeleteExpired :: "env \<Rightarrow> go_ctx \<Rightarrow> world \<Rightarrow> go_error option \<times> world" where
  "DeleteExpired e ctx w =
     (let (now, w1) = time_now e w;
          w2 = InfoContext ctx ''sweeping expired transient auth sessions'' [(''now'', ATime now)] w1
      in case db_exec e (delete_expired_sessions e now) w2 of
           (Inl err, w3) \<Rightarrow> (Some (ErrWrap ''failed to delete expired auth sessions: '' err []), w3)
         | (Inr n, w3) \<Rightarrow>
             (let rows = (case rows_affected e (w_db w2) n of Some m \<Rightarrow> m | None \<Rightarrow> 0)
              in (None, if rows > 0
                        then InfoContext ctx ''purged expired auth sessions'' [(''purged_rows'', AInt (int rows))] w3
                        else w3)))"

subsection \<open>The port\<close>

record session_repo =
  repo_save :: "go_ctx \<Rightarrow> auth_session \<Rightarrow> world \<Rightarrow> go_error option \<times> world"
  repo_get :: "go_ctx \<Rightarrow> string \<Rightarrow> world \<Rightarrow> (go_error + auth_session) \<times> world"
  repo_delete :: "go_ctx \<Rightarrow> string \<Rightarrow> world \<Rightarrow> go_error option \<times> world"
  repo_delete_expired :: "go_ctx \<Rightarrow> world \<Rightarrow> go_error option \<times> world"

definition SQLSessionRepository :: "env \<Rightarrow> session_repo" where
  "SQLSessionRepository e =
     \<lparr>repo_save = Save e, repo_get = Get e, repo_delete = Delete e, repo_delete_expired = DeleteExpired e\<rparr>"

text \<open>
  The sessions as a client sees them: the row of a canonical identifier. \<open>norm\<close> is how the
  store reads an identifier, \<open>None\<close> when it is none. A fault may strike any call, before or
  after it took effect, so a law speaks of what a call returned.
\<close>

locale session_store =
  fixes repo :: session_repo
    and norm :: "string \<Rightarrow> string option"
    and rows :: "world \<Rightarrow> string \<Rightarrow> auth_session option"
  assumes get_found: "repo_get repo ctx sid w = (Inr s, w') \<Longrightarrow>
      \<exists>u. norm sid = Some u \<and> rows w u = Some s"
    and get_rows: "rows (snd (repo_get repo ctx sid w)) = rows w"
    and delete_done: "repo_delete repo ctx sid w = (None, w') \<Longrightarrow> norm sid = Some u \<Longrightarrow> rows w' u = None"
    and delete_rows: "rows (snd (repo_delete repo ctx sid w)) \<subseteq>\<^sub>m rows w"
    and sweep_rows: "rows w u = None \<Longrightarrow> rows (snd (repo_delete_expired repo ctx w)) u = None"
    and save_done: "repo_save repo ctx s w = (None, w') \<Longrightarrow>
      \<exists>u s'. norm (session_id s) = Some u \<and> rows w u = None \<and> rows w' = (rows w)(u \<mapsto> s')"
begin

text \<open>A session that is not there, or was deleted, is not found.\<close>

lemma get_absent: "norm sid = Some u \<Longrightarrow> rows w u = None \<Longrightarrow> \<exists>err. fst (repo_get repo ctx sid w) = Inl err"
  by (cases "repo_get repo ctx sid w"; cases "fst (repo_get repo ctx sid w)")
     (use get_found [of ctx sid w] in fastforce)+

lemma get_after_delete:
  assumes "repo_delete repo ctx sid w = (None, w1)" "norm sid = norm sid'"
  shows "\<exists>err. fst (repo_get repo ctx' sid' w1) = Inl err"
proof (cases "repo_get repo ctx' sid' w1")
  case (Pair r w2)
  show ?thesis
  proof (cases r)
    case (Inr s)
    with Pair get_found obtain u where u: "norm sid' = Some u" "rows w1 u = Some s" by blast
    with assms delete_done have "rows w1 u = None" by metis
    with u show ?thesis by simp
  qed (simp add: Pair)
qed

text \<open>A second save under an identifier that is taken fails.\<close>

lemma save_taken: "norm (session_id s) = Some u \<Longrightarrow> rows w u \<noteq> None \<Longrightarrow> fst (repo_save repo ctx s w) \<noteq> None"
  using save_done [of ctx s w] by (cases "repo_save repo ctx s w") force

end

subsection \<open>The SQL repository keeps the contract\<close>

definition session_of :: "world \<Rightarrow> string \<Rightarrow> auth_session option" where
  "session_of w u = find (\<lambda>r. session_id r = u) (w_sessions w)"

lemma find_filter_hd: "find P xs = (case filter P xs of [] \<Rightarrow> None | x # _ \<Rightarrow> Some x)"
  by (induction xs) auto

lemma find_filter_neq: "find (\<lambda>r. f r = u) (filter (\<lambda>r. f r \<noteq> v) xs) = (if u = v then None else find (\<lambda>r. f r = u) xs)"
  by (induction xs) auto

lemma find_append: "find P (xs @ ys) = (case find P xs of None \<Rightarrow> find P ys | Some x \<Rightarrow> Some x)"
  by (induction xs) auto

lemma session_of_cong: "w_sessions w = w_sessions w' \<Longrightarrow> session_of w = session_of w'"
  by (simp add: session_of_def fun_eq_iff)

lemma Get_sessions [simp]: "w_sessions (snd (Get e ctx sid w)) = w_sessions w"
  by (simp add: Get_def db_get_def Let_def split: sum.split prod.split)

text \<open>A statement of the repository took effect or left the rows alone.\<close>

lemma db_exec_cases:
  assumes "db_exec e st w = (r, w')"
  obtains (refused) err where "r = Inl err" "w' = w\<lparr>w_db := Suc (w_db w)\<rparr>"
  | (unsure) err n where "r = Inl err" "st (w_db w) (w\<lparr>w_db := Suc (w_db w)\<rparr>) = Some (n, w')"
  | (ran) n where "r = Inr n" "st (w_db w) (w\<lparr>w_db := Suc (w_db w)\<rparr>) = Some (n, w')"
  using assms by (auto simp: db_exec_def Let_def split: option.splits if_splits prod.splits)

lemma Get_found:
  assumes "Get e ctx sid w = (Inr s, w')"
  obtains u where "pg_uuid e sid = Some u" "session_of w u = Some s"
  using assms
  by (auto simp: Get_def db_get_def select_session_def session_of_def find_filter_hd Let_def
      split: sum.splits prod.splits option.splits list.splits if_splits)

lemma session_of_delete:
  "delete_session e sid k w = Some (n, w') \<Longrightarrow> pg_uuid e sid = Some u \<Longrightarrow>
   session_of w' = (session_of w)(u := None)"
  by (auto simp: delete_session_def session_of_def find_filter_neq fun_eq_iff)

lemma Delete_sessions:
  assumes "Delete e ctx sid w = (r, w')"
  shows "w_sessions w' = w_sessions w \<or>
     (\<exists>u. pg_uuid e sid = Some u \<and> session_of w' = (session_of w)(u := None))"
    and "r = None \<Longrightarrow> \<exists>u. pg_uuid e sid = Some u \<and> session_of w' = (session_of w)(u := None)"
proof -
  let ?w1 = "InfoContext ctx ''deleting transient auth session'' [(''session_id'', AStr sid)] w"
  obtain q w2 where ex: "db_exec e (delete_session e sid) ?w1 = (q, w2)" by fastforce
  with assms have w2: "w' = w2" and r: "r = None \<Longrightarrow> \<exists>n. q = Inr n"
    by (auto simp: Delete_def split: sum.splits)
  have hit: "\<exists>u. pg_uuid e sid = Some u \<and> session_of w' = (session_of w)(u := None)"
    if st: "delete_session e sid (w_db ?w1) (?w1\<lparr>w_db := Suc (w_db ?w1)\<rparr>) = Some (n, w')" for n
  proof -
    from st obtain u where u: "pg_uuid e sid = Some u" by (auto simp: delete_session_def split: option.splits)
    have "session_of (?w1\<lparr>w_db := Suc (w_db ?w1)\<rparr>) = session_of w" by (rule session_of_cong) simp
    with session_of_delete [OF st u] u show ?thesis by auto
  qed
  from ex show "w_sessions w' = w_sessions w \<or>
     (\<exists>u. pg_uuid e sid = Some u \<and> session_of w' = (session_of w)(u := None))"
    by (cases rule: db_exec_cases) (use w2 hit in auto)
  assume "r = None"
  with r obtain n where n: "q = Inr n" by blast
  from ex show "\<exists>u. pg_uuid e sid = Some u \<and> session_of w' = (session_of w)(u := None)"
    by (cases rule: db_exec_cases) (use w2 hit n in auto)
qed

lemma Delete_shrinks: "session_of (snd (Delete e ctx sid w)) \<subseteq>\<^sub>m session_of w"
proof -
  obtain r w' where d: "Delete e ctx sid w = (r, w')" by fastforce
  then consider "session_of w' = session_of w" | u where "session_of w' = (session_of w)(u := None)"
    using Delete_sessions(1) session_of_cong by metis
  then show ?thesis by cases (auto simp: d map_le_def split: if_splits)
qed

lemma find_None_filter: "find P xs = None \<Longrightarrow> find P (filter Q xs) = None"
  by (induction xs) (auto split: if_splits)

lemma DeleteExpired_rows:
  assumes "session_of w u = None"
  shows "session_of (snd (DeleteExpired e ctx w)) u = None"
proof -
  obtain now w1 where n: "time_now e w = (now, w1)" by fastforce
  then have "w_sessions w1 = w_sessions w" by (metis snd_conv time_now_simps(2))
  define w2 where "w2 = InfoContext ctx ''sweeping expired transient auth sessions'' [(''now'', ATime now)] w1"
  have w2: "w_sessions w2 = w_sessions w" using \<open>w_sessions w1 = _\<close> by (simp add: w2_def)
  obtain r w3 where ex: "db_exec e (delete_expired_sessions e now) w2 = (r, w3)" by fastforce
  have "w_sessions (snd (DeleteExpired e ctx w)) = w_sessions w3"
    using n ex by (cases r) (simp_all add: DeleteExpired_def w2_def Let_def)
  moreover have "session_of w3 u = None"
    using ex assms w2
    by (cases rule: db_exec_cases)
       (auto simp: delete_expired_sessions_def session_of_def intro: find_None_filter)
  ultimately show ?thesis by (simp add: session_of_def)
qed

lemma insert_session_rows:
  assumes "insert_session e s k w = Some (n, w')"
  obtains r where "session_row e k s = Some r" "session_of w (session_id r) = None"
    "session_of w' = (session_of w)(session_id r \<mapsto> r)" "w_sessions w' = w_sessions w @ [r]"
proof -
  from assms obtain r where r: "session_row e k s = Some r" "w_sessions w' = w_sessions w @ [r]"
    and fresh: "\<forall>x\<in>set (w_sessions w). session_id x \<noteq> session_id r"
    by (auto simp: insert_session_def split: option.splits if_splits)
  from fresh have none: "session_of w (session_id r) = None" by (auto simp: session_of_def find_None_iff)
  have "session_of w' = (session_of w)(session_id r \<mapsto> r)"
    using none by (auto simp: session_of_def r(2) find_append fun_eq_iff split: option.splits)
  with r none that show ?thesis by blast
qed

lemma session_row_id: "session_row e k s = Some r \<Longrightarrow> pg_uuid e (session_id s) = Some (session_id r)"
  by (auto simp: session_row_def split: option.splits if_splits)

lemma Save_done:
  assumes "Save e ctx s w = (None, w')"
  obtains r k where "session_row e k s = Some r" "session_of w (session_id r) = None"
    "session_of w' = (session_of w)(session_id r \<mapsto> r)" "w_sessions w' = w_sessions w @ [r]"
proof -
  let ?w1 = "InfoContext ctx ''inserting transient auth session''
    [(''session_id'', AStr (session_id s)), (''state'', AStr (session_state s))] w"
  obtain q w2 where ex: "db_exec e (insert_session e s) ?w1 = (q, w2)" by fastforce
  with assms obtain n where n: "q = Inr n" "w2 = w'" by (auto simp: Save_def split: sum.splits)
  with ex have ins: "insert_session e s (w_db w) (?w1\<lparr>w_db := Suc (w_db w)\<rparr>) = Some (n, w')"
    by (cases rule: db_exec_cases) auto
  have "session_of (?w1\<lparr>w_db := Suc (w_db w)\<rparr>) = session_of w" by (rule session_of_cong) simp
  moreover have "w_sessions (?w1\<lparr>w_db := Suc (w_db w)\<rparr>) = w_sessions w" by simp
  moreover obtain r where "session_row e (w_db w) s = Some r"
    "session_of (?w1\<lparr>w_db := Suc (w_db w)\<rparr>) (session_id r) = None"
    "session_of w' = (session_of (?w1\<lparr>w_db := Suc (w_db w)\<rparr>))(session_id r \<mapsto> r)"
    "w_sessions w' = w_sessions (?w1\<lparr>w_db := Suc (w_db w)\<rparr>) @ [r]"
    using ins by (rule insert_session_rows)
  ultimately show ?thesis using that [of "w_db w" r] by (simp only:)
qed

interpretation sql: session_store "SQLSessionRepository e" "pg_uuid e" session_of for e :: env
proof
  fix ctx sid w s w'
  assume "repo_get (SQLSessionRepository e) ctx sid w = (Inr s, w')"
  then show "\<exists>u. pg_uuid e sid = Some u \<and> session_of w u = Some s"
    by (auto simp: SQLSessionRepository_def elim: Get_found)
next
  fix ctx sid w
  show "session_of (snd (repo_get (SQLSessionRepository e) ctx sid w)) = session_of w"
    by (rule session_of_cong) (simp add: SQLSessionRepository_def)
next
  fix ctx sid w w' u
  assume "repo_delete (SQLSessionRepository e) ctx sid w = (None, w')" "pg_uuid e sid = Some u"
  then show "session_of w' u = None"
    using Delete_sessions(2) [of e ctx sid w None w'] by (auto simp: SQLSessionRepository_def)
next
  fix ctx sid w
  show "session_of (snd (repo_delete (SQLSessionRepository e) ctx sid w)) \<subseteq>\<^sub>m session_of w"
    by (simp add: SQLSessionRepository_def Delete_shrinks)
next
  fix w u ctx
  assume "session_of w u = None"
  then show "session_of (snd (repo_delete_expired (SQLSessionRepository e) ctx w)) u = None"
    by (simp add: SQLSessionRepository_def DeleteExpired_rows)
next
  fix ctx s w w'
  assume "repo_save (SQLSessionRepository e) ctx s w = (None, w')"
  then have "Save e ctx s w = (None, w')" by (simp add: SQLSessionRepository_def)
  then obtain r k where "session_row e k s = Some r" "session_of w (session_id r) = None"
    "session_of w' = (session_of w)(session_id r \<mapsto> r)" by (rule Save_done)
  with session_row_id show "\<exists>u s'. pg_uuid e (session_id s) = Some u \<and> session_of w u = None \<and>
      session_of w' = (session_of w)(u \<mapsto> s')" by blast
qed

subsection \<open>Properties\<close>

text \<open>
  A session that was saved is found under its identifier with the
  state, the code verifier, the redirect URI and the end of its window that it was saved
  with (the window at the column's resolution), as long as the query itself does not fail.
\<close>

theorem session_roundtrip:
  assumes "Save e ctx s w = (None, w1)" "db_fault e (w_db w1) = None"
    and "CHR '' '' \<notin> set (session_state s)" "CHR '' '' \<notin> set (code_verifier s)"
    and "\<forall>x\<in>set (w_sessions w). Some (session_id x) \<noteq> pg_uuid e (session_id s)"
  shows "\<exists>r. fst (Get e ctx' (session_id s) w1) = Inr r \<and> session_state r = session_state s \<and>
     code_verifier r = code_verifier s \<and> redirect_uri r = redirect_uri s \<and>
     expires_at r = pg_time e (expires_at s)"
proof -
  obtain r k where r: "session_row e k s = Some r" and tab: "w_sessions w1 = w_sessions w @ [r]"
    using assms(1) by (rule Save_done)
  have u: "pg_uuid e (session_id s) = Some (session_id r)" by (rule session_row_id [OF r])
  with assms(5) tab have "filter (\<lambda>x. session_id x = session_id r) (w_sessions w1) = [r]"
    by (auto simp: filter_empty_conv)
  then have "fst (Get e ctx' (session_id s) w1) = Inr r"
    using u assms(2) by (simp add: Get_def db_get_def select_session_def Let_def)
  moreover have "session_state r = session_state s \<and> code_verifier r = code_verifier s \<and>
      redirect_uri r = redirect_uri s \<and> expires_at r = pg_time e (expires_at s)"
    using r assms(3,4) by (auto simp: session_row_def dest: pg_varchar_no_space split: option.splits if_splits)
  ultimately show ?thesis by blast
qed

definition sample_session :: auth_session where
  "sample_session =
     \<lparr>session_id = ''00000000-0000-4000-8000-000000000001'', session_state = ''st'',
      code_verifier = ''cv'', redirect_uri = ''https://app'', created_at = Instant 0,
      expires_at = Instant 1700000300000000000\<rparr>"

lemma sample_save: "fst (Save sample_env background sample_session world_init) = None"
  by code_simp

theorem session_roundtrip_witness:
  "\<exists>r. fst (Get sample_env background (session_id sample_session)
        (snd (Save sample_env background sample_session world_init))) = Inr r \<and>
     session_state r = ''st'' \<and> code_verifier r = ''cv''"
  using session_roundtrip [of sample_env background sample_session world_init
      "snd (Save sample_env background sample_session world_init)" background] sample_save
  by (auto simp: prod_eq_iff sample_env_def sample_session_def world_init_def)

text \<open>
  Once a deletion has reported success, no call finds the session any
  more, under any spelling of its identifier.
\<close>

theorem session_deleted:
  assumes "Delete e ctx sid w = (None, w1)" "pg_uuid e sid = pg_uuid e sid'"
  shows "\<exists>err. fst (Get e ctx' sid' w1) = Inl err"
  using sql.get_after_delete [of e ctx sid w w1 sid' ctx'] assms by (simp add: SQLSessionRepository_def)

lemma sample_delete: "fst (Delete sample_env background (session_id sample_session)
    (snd (Save sample_env background sample_session world_init))) = None"
  by code_simp

theorem session_deleted_witness:
  "\<exists>err. fst (Get sample_env background (session_id sample_session)
     (snd (Delete sample_env background (session_id sample_session)
       (snd (Save sample_env background sample_session world_init))))) = Inl err"
  using session_deleted [of sample_env background "session_id sample_session"
      "snd (Save sample_env background sample_session world_init)"] sample_delete
  by (simp add: prod_eq_iff)

text \<open>The constraints of the schema as an invariant of the table.\<close>

definition sessions_wf :: "auth_session list \<Rightarrow> bool" where
  "sessions_wf rs \<longleftrightarrow>
     distinct (map session_id rs) \<and> distinct (map session_state rs) \<and>
     list_all (\<lambda>r. rune_count (session_state r) \<le> 255 \<and> rune_count (code_verifier r) \<le> 128) rs"

text \<open>
  The operations a session repository offers, as steps on the world: a call with any
  arguments, whatever the environment lets happen.
\<close>

inductive session_step :: "env \<Rightarrow> world \<Rightarrow> world \<Rightarrow> bool" for e where
  step_save: "Save e ctx s w = (r, w') \<Longrightarrow> session_step e w w'"
| step_get: "Get e ctx sid w = (q, w') \<Longrightarrow> session_step e w w'"
| step_delete: "Delete e ctx sid w = (r, w') \<Longrightarrow> session_step e w w'"
| step_sweep: "DeleteExpired e ctx w = (r, w') \<Longrightarrow> session_step e w w'"

inductive_cases session_stepE: "session_step e w w'"

lemma rune_count_append: "rune_count (s @ t) = rune_count s + rune_count t"
  by (simp add: rune_count_def)

lemma rune_count_spaces: "\<forall>c\<in>set s. c = CHR '' '' \<Longrightarrow> rune_count s = length s"
  by (induction s) (auto simp: rune_count_def utf8_cont_def)

lemma pg_varchar_bound:
  assumes "pg_varchar n s = Some t"
  shows "rune_count t \<le> n"
proof (cases "rune_count s \<le> n")
  case True
  with assms show ?thesis by (simp add: pg_varchar_def split: if_split_asm)
next
  case False
  define k where "k = length s - (rune_count s - n)"
  from assms False have t: "t = take k s" and sp: "list_all (\<lambda>c. c = CHR '' '') (drop k s)"
    by (simp_all only: pg_varchar_def k_def [symmetric] Let_def if_False option.inject option.distinct split: if_split_asm)
  have "length (drop k s) = rune_count s - n"
    using rune_count_le [of s] by (simp only: k_def length_drop)
  then have "rune_count (drop k s) = rune_count s - n"
    using rune_count_spaces sp by (simp only: list_all_iff)
  moreover have "rune_count s = rune_count (take k s) + rune_count (drop k s)"
    by (simp only: rune_count_append [symmetric] append_take_drop_id)
  ultimately show ?thesis using False unfolding t by linarith
qed

lemma sessions_wf_filter: "sessions_wf rs \<Longrightarrow> sessions_wf (filter P rs)"
  by (auto simp: sessions_wf_def distinct_map_filter list_all_iff)

lemma db_exec_table:
  assumes "\<And>k v n v'. st k v = Some (n, v') \<Longrightarrow> P (w_sessions v) \<Longrightarrow> P (w_sessions v')"
    and "P (w_sessions w)"
  shows "P (w_sessions (snd (db_exec e st w)))"
proof -
  let ?v = "w\<lparr>w_db := Suc (w_db w)\<rparr>"
  obtain r w' where ex: "db_exec e st w = (r, w')" by fastforce
  then have "w' = ?v \<or> (\<exists>n. st (w_db w) ?v = Some (n, w'))"
    by (cases rule: db_exec_cases) auto
  moreover have "P (w_sessions ?v)" using assms(2) by simp
  ultimately have "P (w_sessions w')" using assms(1) by metis
  then show ?thesis by (simp add: ex)
qed

lemma insert_session_wf:
  "insert_session e s k w = Some (n, w') \<Longrightarrow> sessions_wf (w_sessions w) \<Longrightarrow> sessions_wf (w_sessions w')"
  by (auto simp: insert_session_def session_row_def sessions_wf_def dest: pg_varchar_bound
      split: option.splits if_splits)

lemma delete_session_wf:
  "delete_session e sid k w = Some (n, w') \<Longrightarrow> sessions_wf (w_sessions w) \<Longrightarrow> sessions_wf (w_sessions w')"
  by (auto simp: delete_session_def intro: sessions_wf_filter split: option.splits)

lemma delete_expired_wf:
  "delete_expired_sessions e now k w = Some (n, w') \<Longrightarrow> sessions_wf (w_sessions w) \<Longrightarrow> sessions_wf (w_sessions w')"
  by (auto simp: delete_expired_sessions_def intro: sessions_wf_filter)

lemma Save_table: "w_sessions (snd (Save e ctx s w)) =
    w_sessions (snd (db_exec e (insert_session e s) (InfoContext ctx ''inserting transient auth session''
      [(''session_id'', AStr (session_id s)), (''state'', AStr (session_state s))] w)))"
  by (simp add: Save_def Let_def split: sum.split prod.split)

lemma Delete_table: "w_sessions (snd (Delete e ctx sid w)) =
    w_sessions (snd (db_exec e (delete_session e sid) (InfoContext ctx ''deleting transient auth session''
      [(''session_id'', AStr sid)] w)))"
  by (simp add: Delete_def Let_def split: sum.split prod.split)

lemma DeleteExpired_table: "w_sessions (snd (DeleteExpired e ctx w)) =
    w_sessions (snd (db_exec e (delete_expired_sessions e (clock e (w_clock w)))
      (InfoContext ctx ''sweeping expired transient auth sessions'' [(''now'', ATime (clock e (w_clock w)))]
        (snd (time_now e w)))))"
  by (simp add: DeleteExpired_def Let_def time_now_def split: sum.split prod.split)

lemma session_step_wf:
  assumes "session_step e w w'" "sessions_wf (w_sessions w)"
  shows "sessions_wf (w_sessions w')"
  using assms(1)
proof cases
  case (step_save ctx s r)
  then have w': "w' = snd (Save e ctx s w)" by simp
  show ?thesis unfolding w' Save_table
    by (rule db_exec_table [where P = sessions_wf]) (use assms(2) insert_session_wf in auto)
next
  case (step_get ctx sid q)
  then have "w' = snd (Get e ctx sid w)" by simp
  with assms(2) show ?thesis by simp
next
  case (step_delete ctx sid r)
  then have w': "w' = snd (Delete e ctx sid w)" by simp
  show ?thesis unfolding w' Delete_table
    by (rule db_exec_table [where P = sessions_wf]) (use assms(2) delete_session_wf in auto)
next
  case (step_sweep ctx r)
  then have w': "w' = snd (DeleteExpired e ctx w)" by simp
  show ?thesis unfolding w' DeleteExpired_table
    by (rule db_exec_table [where P = sessions_wf]) (use assms(2) delete_expired_wf in auto)
qed

text \<open>
  C27 (session_table_invariant): from an empty table, any sequence of repository calls, with
  database faults striking before or after a statement took effect, keeps the identifiers
  and the states unique and the columns within their limits.
\<close>

theorem session_table_invariant:
  assumes "(session_step e)\<^sup>*\<^sup>* w w'" "w_sessions w = []"
  shows "sessions_wf (w_sessions w')"
  using assms(1)
proof (induction rule: rtranclp_induct)
  case base
  show ?case by (simp add: assms(2) sessions_wf_def)
next
  case (step u v)
  then show ?case by (metis session_step_wf)
qed

theorem session_table_invariant_witness:
  "sessions_wf (w_sessions (snd (Save sample_env background sample_session world_init)))"
proof (rule session_table_invariant [of sample_env world_init])
  show "(session_step sample_env)\<^sup>*\<^sup>* world_init (snd (Save sample_env background sample_session world_init))"
    by (rule r_into_rtranclp, rule step_save [of _ background sample_session _ None]) (simp add: prod_eq_iff sample_save)
qed (simp add: world_init_def)

end
