(* ===== verification/Auth0Gateway.thy ===== *)
theory Auth0Gateway
  imports World
begin

text \<open>
  \<open>internal/adapters/gateway/auth0_gateway.go\<close>: the client of the identity provider. Each
  operation that talks to Auth0 runs inside the circuit breaker. The port
  \<open>ports.AuthProvider\<close> is the record \<open>auth_provider\<close>.
\<close>

subsection \<open>Data\<close>

record auth0_gateway =
  gw_domain :: string
  gw_client_id :: string
  gw_client_secret :: string
  gw_audience :: string
  gw_redirect_uri :: string

record token_request =
  grant_type :: string
  client_id :: string
  client_secret :: string
  req_code :: string
  req_code_verifier :: string
  req_redirect_uri :: string
  req_refresh_token :: string

text \<open>\<open>json.Marshal\<close> of a request: the first two fields always, the others unless empty.\<close>

definition token_request_json :: "token_request \<Rightarrow> json" where
  "token_request_json r =
     JObj ([(''grant_type'', JStr (grant_type r)), (''client_id'', JStr (client_id r))] @
       map (\<lambda>(k, v). (k, JStr v))
         (filter (\<lambda>(k, v). v \<noteq> [])
            [(''client_secret'', client_secret r), (''code'', req_code r),
             (''code_verifier'', req_code_verifier r), (''redirect_uri'', req_redirect_uri r),
             (''refresh_token'', req_refresh_token r)]))"

definition token_field :: "token_pair \<Rightarrow> string \<Rightarrow> json \<Rightarrow> token_pair option" where
  "token_field t k v =
     (if key_matches ''access_token'' k
      then map_option (\<lambda>s. t\<lparr>access_token := s\<rparr>) (dec_string (access_token t) v)
      else if key_matches ''refresh_token'' k
      then map_option (\<lambda>s. t\<lparr>refresh_token := s\<rparr>) (dec_string (refresh_token t) v)
      else if key_matches ''id_token'' k
      then map_option (\<lambda>s. t\<lparr>id_token := s\<rparr>) (dec_string (id_token t) v)
      else if key_matches ''expires_in'' k
      then map_option (\<lambda>i. t\<lparr>expires_in := i\<rparr>) (dec_int64 (expires_in t) v)
      else Some t)"

definition user_zero :: user_identity where
  "user_zero =
     \<lparr>user_sub = [], user_email = [], user_name = [], user_picture = [], email_verified = False\<rparr>"

definition userinfo_field :: "user_identity \<Rightarrow> string \<Rightarrow> json \<Rightarrow> user_identity option" where
  "userinfo_field u k v =
     (if key_matches ''sub'' k then map_option (\<lambda>s. u\<lparr>user_sub := s\<rparr>) (dec_string (user_sub u) v)
      else if key_matches ''email'' k
      then map_option (\<lambda>s. u\<lparr>user_email := s\<rparr>) (dec_string (user_email u) v)
      else if key_matches ''name'' k
      then map_option (\<lambda>s. u\<lparr>user_name := s\<rparr>) (dec_string (user_name u) v)
      else if key_matches ''picture'' k
      then map_option (\<lambda>s. u\<lparr>user_picture := s\<rparr>) (dec_string (user_picture u) v)
      else if key_matches ''email_verified'' k
      then map_option (\<lambda>b. u\<lparr>email_verified := b\<rparr>) (dec_bool (email_verified u) v)
      else Some u)"

text \<open>
  The verb \<open>%v\<close> on a decoded JSON value: a map with its keys in order, the last of equal
  keys. The shortest form of a floating point number is left to the environment.
\<close>

fun last_of_keys :: "(string \<times> 'v) list \<Rightarrow> (string \<times> 'v) list" where
  "last_of_keys [] = []"
| "last_of_keys ((k, v) # kvs) =
     (if k \<in> fst ` set kvs then last_of_keys kvs else (k, v) # last_of_keys kvs)"

fun fmt_value :: "(string \<Rightarrow> string) \<Rightarrow> json \<Rightarrow> string" where
  "fmt_value ff JNull = ''<nil>''"
| "fmt_value ff (JBool b) = (if b then ''true'' else ''false'')"
| "fmt_value ff (JNum n) = ff n"
| "fmt_value ff (JStr s) = s"
| "fmt_value ff (JArr vs) = ''['' @ go_join '' '' (map (fmt_value ff) vs) @ '']''"
| "fmt_value ff (JObj kvs) =
     ''map['' @
     go_join '' '' (map (\<lambda>(k, s). k @ '':'' @ s)
       (sort_key fst (last_of_keys (map (\<lambda>(k, v). (k, fmt_value ff v)) kvs)))) @ '']''"

subsection \<open>Operations\<close>

text \<open>\<open>fmt.Sprintf("https://%s/...", g.domain)\<close>.\<close>

definition endpoint :: "auth0_gateway \<Rightarrow> string \<Rightarrow> string" where
  "endpoint g path = ''https://'' @ gw_domain g @ path"

definition authorize_values :: "auth0_gateway \<Rightarrow> auth_session \<Rightarrow> url_values" where
  "authorize_values g s =
     (let q1 = values_set ''response_type'' ''code'' [];
          q2 = values_set ''client_id'' (gw_client_id g) q1;
          q3 = values_set ''redirect_uri'' (gw_redirect_uri g) q2;
          q4 = values_set ''state'' (session_state s) q3;
          q5 = values_set ''code_challenge'' (code_verifier s) q4;
          q6 = values_set ''code_challenge_method'' ''S256'' q5;
          q7 = (if gw_audience g \<noteq> [] then values_set ''audience'' (gw_audience g) q6 else q6)
      in values_set ''scope'' ''openid profile email offline_access'' q7)"

definition GetAuthorizationURL ::
  "auth0_gateway \<Rightarrow> go_ctx \<Rightarrow> auth_session \<Rightarrow> world \<Rightarrow> (go_error + string) \<times> world" where
  "GetAuthorizationURL g ctx s w =
     (Inr (url_string ''https'' (gw_domain g) ''/authorize'' (values_encode (authorize_values g s))),
      InfoContext ctx ''generated Auth0 authorization URL'' [(''state'', AStr (session_state s))] w)"

text \<open>The answer to a token request, once it has arrived.\<close>

definition token_answer :: "env \<Rightarrow> response \<Rightarrow> go_error + token_pair" where
  "token_answer e resp =
     (if rs_status resp \<noteq> 200
      then (let err_body = (case decode_body (rs_body resp) of
                              None \<Rightarrow> []
                            | Some j \<Rightarrow> (case decode_map j of None \<Rightarrow> [] | Some kvs \<Rightarrow> kvs))
            in Inl (ErrNew (''token request returned status '' @ int_dec (rs_status resp) @ '': '' @
                            fmt_value (fmt_float e) (JObj err_body))))
      else (case Option.bind (decode_body (rs_body resp)) (decode_struct token_field token_pair_zero) of
              None \<Rightarrow> Inl (ErrWrap ''decode token response: ''
                        (ErrNew (json_err e ''auth0TokenResponse'' (rs_body resp))) [])
            | Some t \<Rightarrow> Inr t))"

definition sendTokenRequest ::
  "env \<Rightarrow> auth0_gateway \<Rightarrow> token_request \<Rightarrow> world \<Rightarrow> (go_error + token_pair) \<times> world" where
  "sendTokenRequest e g r w =
     (case new_request e ''POST'' (endpoint g ''/oauth/token'') (json_print (token_request_json r)) of
        Inl err \<Rightarrow> (Inl (ErrWrap ''create token request: '' err []), w)
      | Inr req0 \<Rightarrow>
          (let req = req0\<lparr>oq_headers := header_set ''Content-Type'' ''application/json'' (oq_headers req0)\<rparr>
           in case http_do e req w of
                (Inl err, w1) \<Rightarrow> (Inl (ErrWrap ''do token request: '' err []), w1)
              | (Inr resp, w1) \<Rightarrow> (token_answer e resp, w1)))"

definition exchange_request :: "auth0_gateway \<Rightarrow> string \<Rightarrow> string \<Rightarrow> token_request" where
  "exchange_request g code verifier =
     \<lparr>grant_type = ''authorization_code'', client_id = gw_client_id g,
      client_secret = gw_client_secret g, req_code = code, req_code_verifier = verifier,
      req_redirect_uri = gw_redirect_uri g, req_refresh_token = []\<rparr>"

definition ExchangeCode ::
  "env \<Rightarrow> auth0_gateway \<Rightarrow> go_ctx \<Rightarrow> string \<Rightarrow> string \<Rightarrow> world \<Rightarrow> (go_error + token_pair) \<times> world" where
  "ExchangeCode e g ctx code verifier w =
     (case breaker_execute e (sendTokenRequest e g (exchange_request g code verifier)) w of
        (Inl err, w1) \<Rightarrow> (Inl (ErrWrap ''token exchange circuit error: '' err []), w1)
      | (Inr resp, w1) \<Rightarrow> (Inr resp, w1))"

definition refresh_request :: "auth0_gateway \<Rightarrow> string \<Rightarrow> token_request" where
  "refresh_request g token =
     \<lparr>grant_type = ''refresh_token'', client_id = gw_client_id g,
      client_secret = gw_client_secret g, req_code = [], req_code_verifier = [],
      req_redirect_uri = [], req_refresh_token = token\<rparr>"

definition RefreshToken_gw ::
  "env \<Rightarrow> auth0_gateway \<Rightarrow> go_ctx \<Rightarrow> string \<Rightarrow> world \<Rightarrow> (go_error + token_pair) \<times> world" where
  "RefreshToken_gw e g ctx token w =
     (case breaker_execute e (sendTokenRequest e g (refresh_request g token)) w of
        (Inl err, w1) \<Rightarrow> (Inl (ErrWrap ''token refresh circuit error: '' err []), w1)
      | (Inr resp, w1) \<Rightarrow> (Inr resp, w1))"

definition revoke_values :: "auth0_gateway \<Rightarrow> string \<Rightarrow> url_values" where
  "revoke_values g token =
     (let d1 = values_set ''client_id'' (gw_client_id g) [];
          d2 = (if gw_client_secret g \<noteq> [] then values_set ''client_secret'' (gw_client_secret g) d1 else d1)
      in values_set ''token'' token d2)"

definition send_revocation ::
  "env \<Rightarrow> auth0_gateway \<Rightarrow> string \<Rightarrow> world \<Rightarrow> (go_error + unit) \<times> world" where
  "send_revocation e g token w =
     (case new_request e ''POST'' (endpoint g ''/oauth/revoke'') (values_encode (revoke_values g token)) of
        Inl err \<Rightarrow> (Inl err, w)
      | Inr req0 \<Rightarrow>
          (let req = req0\<lparr>oq_headers :=
                 header_set ''Content-Type'' ''application/x-www-form-urlencoded'' (oq_headers req0)\<rparr>
           in case http_do e req w of
                (Inl err, w1) \<Rightarrow> (Inl err, w1)
              | (Inr resp, w1) \<Rightarrow>
                  (if rs_status resp \<noteq> 200
                   then Inl (ErrNew (''failed token revocation, status: '' @ int_dec (rs_status resp)))
                   else Inr (), w1)))"

definition RevokeToken_gw ::
  "env \<Rightarrow> auth0_gateway \<Rightarrow> go_ctx \<Rightarrow> string \<Rightarrow> world \<Rightarrow> go_error option \<times> world" where
  "RevokeToken_gw e g ctx token w =
     (case breaker_execute e (send_revocation e g token) w of
        (Inl err, w1) \<Rightarrow> (Some (ErrWrap ''token revocation failed: '' err []), w1)
      | (Inr _, w1) \<Rightarrow> (None, w1))"

definition userinfo_answer :: "env \<Rightarrow> response \<Rightarrow> go_error + user_identity" where
  "userinfo_answer e resp =
     (if rs_status resp \<noteq> 200
      then Inl (ErrNew (''userinfo request failed, status: '' @ int_dec (rs_status resp)))
      else (case Option.bind (decode_body (rs_body resp)) (decode_struct userinfo_field user_zero) of
              None \<Rightarrow> Inl (ErrNew (json_err e ''auth0UserInfo'' (rs_body resp)))
            | Some u \<Rightarrow> Inr u))"

definition send_userinfo ::
  "env \<Rightarrow> auth0_gateway \<Rightarrow> string \<Rightarrow> world \<Rightarrow> (go_error + user_identity) \<times> world" where
  "send_userinfo e g token w =
     (case new_request e ''GET'' (endpoint g ''/userinfo'') [] of
        Inl err \<Rightarrow> (Inl err, w)
      | Inr req0 \<Rightarrow>
          (let req = req0\<lparr>oq_headers := header_set ''Authorization'' (''Bearer '' @ token) (oq_headers req0)\<rparr>
           in case http_do e req w of
                (Inl err, w1) \<Rightarrow> (Inl err, w1)
              | (Inr resp, w1) \<Rightarrow> (userinfo_answer e resp, w1)))"

definition GetUserInfo ::
  "env \<Rightarrow> auth0_gateway \<Rightarrow> go_ctx \<Rightarrow> string \<Rightarrow> world \<Rightarrow> (go_error + user_identity) \<times> world" where
  "GetUserInfo e g ctx token w =
     (case breaker_execute e (send_userinfo e g token) w of
        (Inl err, w1) \<Rightarrow> (Inl (ErrWrap ''userinfo fetching error: '' err []), w1)
      | (Inr u, w1) \<Rightarrow> (Inr u, w1))"

subsection \<open>The port\<close>

record auth_provider =
  prov_url :: "go_ctx \<Rightarrow> auth_session \<Rightarrow> world \<Rightarrow> (go_error + string) \<times> world"
  prov_exchange :: "go_ctx \<Rightarrow> string \<Rightarrow> string \<Rightarrow> world \<Rightarrow> (go_error + token_pair) \<times> world"
  prov_refresh :: "go_ctx \<Rightarrow> string \<Rightarrow> world \<Rightarrow> (go_error + token_pair) \<times> world"
  prov_revoke :: "go_ctx \<Rightarrow> string \<Rightarrow> world \<Rightarrow> go_error option \<times> world"
  prov_userinfo :: "go_ctx \<Rightarrow> string \<Rightarrow> world \<Rightarrow> (go_error + user_identity) \<times> world"

definition Auth0Gateway_provider :: "env \<Rightarrow> auth0_gateway \<Rightarrow> auth_provider" where
  "Auth0Gateway_provider e g =
     \<lparr>prov_url = GetAuthorizationURL g, prov_exchange = ExchangeCode e g,
      prov_refresh = RefreshToken_gw e g, prov_revoke = RevokeToken_gw e g,
      prov_userinfo = GetUserInfo e g\<rparr>"

subsection \<open>What a call leaves alone\<close>

lemma breaker_execute_keeps:
  assumes "\<And>v. f (snd (g v)) = f v" "\<And>v n. f (v\<lparr>w_breaker := n\<rparr>) = f v"
  shows "f (snd (breaker_execute e g w)) = f w"
  using assms by (simp add: breaker_execute_def split: option.split)

lemma send_keeps [simp]:
  "w_sessions (snd (sendTokenRequest e g r w)) = w_sessions w"
  "w_sessions (snd (send_revocation e g t w)) = w_sessions w"
  "w_sessions (snd (send_userinfo e g t w)) = w_sessions w"
  by (simp_all add: sendTokenRequest_def send_revocation_def send_userinfo_def http_do_def Let_def
      split: sum.split)

lemma provider_keeps [simp]:
  "w_sessions (snd (GetAuthorizationURL g ctx s w)) = w_sessions w"
  "w_sessions (snd (ExchangeCode e g ctx c v w)) = w_sessions w"
  "w_sessions (snd (RefreshToken_gw e g ctx t w)) = w_sessions w"
  "w_sessions (snd (RevokeToken_gw e g ctx t w)) = w_sessions w"
  "w_sessions (snd (GetUserInfo e g ctx t w)) = w_sessions w"
proof -
  show "w_sessions (snd (GetAuthorizationURL g ctx s w)) = w_sessions w"
    by (simp add: GetAuthorizationURL_def)
  have k: "w_sessions (snd (breaker_execute e (sendTokenRequest e g r) w)) = w_sessions w"
    "w_sessions (snd (breaker_execute e (send_revocation e g t) w)) = w_sessions w"
    "w_sessions (snd (breaker_execute e (send_userinfo e g t) w)) = w_sessions w" for r t
    by (simp_all add: breaker_execute_keeps [where f = w_sessions])
  show "w_sessions (snd (ExchangeCode e g ctx c v w)) = w_sessions w"
    using k(1) [of "exchange_request g c v"] by (auto simp: ExchangeCode_def split: prod.split sum.split)
  show "w_sessions (snd (RefreshToken_gw e g ctx t w)) = w_sessions w"
    using k(1) [of "refresh_request g t"] by (auto simp: RefreshToken_gw_def split: prod.split sum.split)
  show "w_sessions (snd (RevokeToken_gw e g ctx t w)) = w_sessions w"
    using k(2) [of t] by (auto simp: RevokeToken_gw_def split: prod.split sum.split)
  show "w_sessions (snd (GetUserInfo e g ctx t w)) = w_sessions w"
    using k(3) [of t] by (auto simp: GetUserInfo_def split: prod.split sum.split)
qed

subsection \<open>Properties\<close>

lemma authorize_values_distinct: "distinct (map fst (authorize_values g s))"
  by (simp add: authorize_values_def Let_def)

lemma authorize_values_mem:
  "(k, v) \<in> set (authorize_values g s) \<longleftrightarrow>
     (k, v) \<in> {(''response_type'', ''code''), (''client_id'', gw_client_id g),
       (''redirect_uri'', gw_redirect_uri g), (''state'', session_state s),
       (''code_challenge'', code_verifier s), (''code_challenge_method'', ''S256''),
       (''scope'', ''openid profile email offline_access'')} \<or>
     (k = ''audience'' \<and> v = gw_audience g \<and> v \<noteq> [])"
  by (auto simp: authorize_values_def Let_def)

lemma authorization_query:
  "\<exists>q. fst (GetAuthorizationURL g ctx s w) =
         Inr (''https://'' @ host_escape (gw_domain g) @ ''/authorize?'' @ q) \<and>
     query_get q ''response_type'' = ''code'' \<and> query_get q ''client_id'' = gw_client_id g \<and>
     query_get q ''redirect_uri'' = gw_redirect_uri g \<and> query_get q ''state'' = session_state s \<and>
     query_get q ''code_challenge'' = code_verifier s \<and>
     query_get q ''code_challenge_method'' = ''S256'' \<and> query_get q ''audience'' = gw_audience g"
proof -
  let ?q = "values_encode (authorize_values g s)"
  have get: "query_get ?q k = v" if "(k, v) \<in> set (authorize_values g s)" for k v
    using authorize_values_distinct that by (rule query_get_encode)
  have ne: "?q \<noteq> []"
  proof
    assume "?q = []"
    then have "query_get ?q ''response_type'' = []"
      by (simp add: query_get_def parse_query_def List.map_filter_simps parse_pair_def)
    moreover have "query_get ?q ''response_type'' = ''code''" by (rule get) (simp add: authorize_values_mem)
    ultimately show False by simp
  qed
  have aud: "query_get ?q ''audience'' = gw_audience g"
  proof (cases "gw_audience g = []")
    case True
    then have "map_of (sort_key fst (authorize_values g s)) ''audience'' = None"
      by (auto simp: map_of_eq_None_iff authorize_values_mem)
    with True show ?thesis by (simp add: query_get_def parse_query_encode)
  qed (rule get, simp add: authorize_values_mem)
  show ?thesis
    by (intro exI [of _ ?q] conjI get aud)
       (use ne in \<open>simp_all add: GetAuthorizationURL_def url_string_def authorize_values_mem\<close>)
qed

text \<open>
  The authorization URL names the provider's host and carries the
  PKCE parameters: parsing its query gives back the client, the registered redirect URI, the
  state and the S256 challenge, whatever bytes they are made of, and the audience exactly
  when one is configured.
\<close>

theorem authorization_url:
  "\<exists>q. fst (GetAuthorizationURL g ctx s w) =
         Inr (''https://'' @ host_escape (gw_domain g) @ ''/authorize?'' @ q) \<and>
     query_get q ''response_type'' = ''code'' \<and> query_get q ''client_id'' = gw_client_id g \<and>
     query_get q ''redirect_uri'' = gw_redirect_uri g \<and> query_get q ''state'' = session_state s \<and>
     query_get q ''code_challenge'' = code_verifier s \<and>
     query_get q ''code_challenge_method'' = ''S256'' \<and> query_get q ''audience'' = gw_audience g"
  by (rule authorization_query)

text \<open>
  Exchanging a code sends at most one request, a \<open>POST\<close> of the
  code and its verifier to the provider's token endpoint, and only if the circuit breaker
  admits it; it succeeds exactly with the token pair of a 200 answer.
\<close>

theorem exchange_code_effect:
  "case ExchangeCode e g ctx code verifier w of (r, w') \<Rightarrow>
     (if breaker e (w_breaker w) = None \<and> request_err e (endpoint g ''/oauth/token'') = None
      then w_sent w' = w_sent w @
             [\<lparr>oq_method = ''POST'', oq_url = ''https://'' @ gw_domain g @ ''/oauth/token'',
               oq_headers = [(''Content-Type'', ''application/json'')],
               oq_body = json_print (token_request_json (exchange_request g code verifier))\<rparr>] \<and>
           (case transport e (w_http w) (last (w_sent w')) of
              Inl _ \<Rightarrow> \<exists>err. r = Inl err
            | Inr resp \<Rightarrow>
                (\<forall>t. r = Inr t \<longleftrightarrow>
                   rs_status resp = 200 \<and>
                   Option.bind (decode_body (rs_body resp)) (decode_struct token_field token_pair_zero) = Some t))
      else w_sent w' = w_sent w \<and> (\<exists>err. r = Inl err))"
proof (cases "breaker e (w_breaker w)")
  case (Some m)
  then show ?thesis by (simp add: ExchangeCode_def breaker_execute_def)
next
  case None
  then show ?thesis
    by (auto simp: ExchangeCode_def breaker_execute_def sendTokenRequest_def new_request_def
        http_do_def endpoint_def token_answer_def Let_def split: option.split sum.split)
qed

definition sample_gateway :: auth0_gateway where
  "sample_gateway =
     \<lparr>gw_domain = ''idp.example'', gw_client_id = ''client'', gw_client_secret = ''secret'',
      gw_audience = ''api'', gw_redirect_uri = ''https://app/callback''\<rparr>"

end
