(* ===== verification/AuthService.thy ===== *)
theory AuthService
  imports SessionRepo Auth0Gateway Pkce
begin

text \<open>
  \<open>internal/core/services/auth_service.go\<close>: the login flow over the two ports. A session
  with fresh random material is stored and its S256 challenge goes into the authorization
  URL; the callback takes the session out of the store, checks its window and its state and
  only then exchanges the code. The locale \<open>login_flow\<close> adds to the contract of the store
  what the flow needs of the provider; its lemmas give single use.
\<close>

subsection \<open>Operations\<close>

definition InitiateAuth ::
  "env \<Rightarrow> session_repo \<Rightarrow> auth_provider \<Rightarrow> go_ctx \<Rightarrow> string \<Rightarrow> world \<Rightarrow>
   (go_error + string \<times> string) \<times> world" where
  "InitiateAuth e repo prov ctx redirect w =
     (case GenerateState e w of
        (Inl err, w1) \<Rightarrow> (Inl (ErrWrap ''generate state: '' err []), w1)
      | (Inr state, w1) \<Rightarrow>
     (case GenerateVerifier e w1 of
        (Inl err, w2) \<Rightarrow> (Inl (ErrWrap ''generate verifier: '' err []), w2)
      | (Inr verifier, w2) \<Rightarrow>
     (let challenge = DeriveChallenge verifier;
          (sid, w3) = generateUUIDv4 e w2;
          (t1, w4) = time_now e w3;
          (t2, w5) = time_now e w4;
          session = \<lparr>session_id = sid, session_state = state, code_verifier = verifier,
                     redirect_uri = redirect, created_at = t1, expires_at = time_add t2 (5 * minute)\<rparr>
      in case repo_save repo ctx session w5 of
           (Some err, w6) \<Rightarrow> (Inl (ErrWrap ''persist session: '' err []), w6)
         | (None, w6) \<Rightarrow>
     (case prov_url prov ctx (session\<lparr>code_verifier := challenge\<rparr>) w6 of
        (Inl err, w7) \<Rightarrow> (Inl (ErrWrap ''fetch auth provider URL: '' err []), w7)
      | (Inr url, w7) \<Rightarrow>
          (Inr (url, sid),
           InfoContext ctx ''initiated PKCE authorization sequence'' [(''session_id'', AStr sid)] w7)))))"

definition HandleCallback ::
  "env \<Rightarrow> session_repo \<Rightarrow> auth_provider \<Rightarrow> go_ctx \<Rightarrow> string \<Rightarrow> string \<Rightarrow> string \<Rightarrow> world \<Rightarrow>
   (go_error + user_identity \<times> token_pair) \<times> world" where
  "HandleCallback e repo prov ctx sid code state w =
     (case repo_get repo ctx sid w of
        (Inl err, w1) \<Rightarrow> (Inl (ErrWrap ''retrieve auth session: '' err []), w1)
      | (Inr session, w1) \<Rightarrow>
     (let (_, w2) = repo_delete repo ctx sid w1;
          (now, w3) = time_now e w2
      in if IsExpired now session
         then (Inl (ErrWrap ''callback verification failed: '' ErrSessionExpired []), w3)
         else if session_state session \<noteq> state
         then (Inl (ErrWrap ''callback verification failed: '' ErrInvalidState []), w3)
         else
     (case prov_exchange prov ctx code (code_verifier session) w3 of
        (Inl err, w4) \<Rightarrow> (Inl (ErrWrap ''exchange authorization code: '' err []), w4)
      | (Inr toks, w4) \<Rightarrow>
     (case prov_userinfo prov ctx (access_token toks) w4 of
        (Inl err, w5) \<Rightarrow> (Inl (ErrWrap ''retrieve user profile: '' err []), w5)
      | (Inr user, w5) \<Rightarrow>
          (Inr (user, toks),
           InfoContext ctx ''completed authentication callback''
             [(''user_id'', AStr (user_sub user)),
              (''user_email'', MaskedEmail_LogValue (user_email user))] w5)))))"

definition RefreshToken ::
  "auth_provider \<Rightarrow> go_ctx \<Rightarrow> string \<Rightarrow> world \<Rightarrow> (go_error + token_pair) \<times> world" where
  "RefreshToken prov ctx token w =
     (case prov_refresh prov ctx token w of
        (Inl err, w1) \<Rightarrow> (Inl (ErrWrap ''rotate refresh token: '' err []), w1)
      | (Inr toks, w1) \<Rightarrow> (Inr toks, w1))"

definition RevokeToken :: "auth_provider \<Rightarrow> go_ctx \<Rightarrow> string \<Rightarrow> world \<Rightarrow> go_error option \<times> world" where
  "RevokeToken prov ctx token w =
     (case prov_revoke prov ctx token w of
        (Some err, w1) \<Rightarrow> (Some (ErrWrap ''revoke session token: '' err []), w1)
      | (None, w1) \<Rightarrow> (None, w1))"

subsection \<open>The flow over a store and a provider\<close>

locale login_flow = session_store +
  fixes prov :: auth_provider
  assumes exchange_rows: "rows (snd (prov_exchange prov ctx c v w)) = rows w"
    and userinfo_rows: "rows (snd (prov_userinfo prov ctx t w)) = rows w"
    and clock_rows: "rows (w\<lparr>w_clock := n\<rparr>) = rows w"
    and log_rows: "rows (log_at l ctx m a w) = rows w"
    and get_sent: "w_sent (snd (repo_get repo ctx sid w)) = w_sent w"
    and delete_sent: "w_sent (snd (repo_delete repo ctx sid w)) = w_sent w"
begin

lemma now_rows: "rows (snd (time_now e w)) = rows w"
  by (simp add: time_now_def clock_rows)

text \<open>After the deletion nothing the callback does brings a session back.\<close>

lemma callback_rows:
  assumes "repo_get repo ctx sid w = (Inr s, w1)"
  shows "rows (snd (HandleCallback e repo prov ctx sid code state w)) =
     rows (snd (repo_delete repo ctx sid w1))"
proof -
  obtain d w2 where d: "repo_delete repo ctx sid w1 = (d, w2)" by fastforce
  obtain now w3 where n: "time_now e w2 = (now, w3)" by fastforce
  have "rows w3 = rows w2" using now_rows [of e w2] n by simp
  moreover have "rows (snd (prov_exchange prov ctx code (code_verifier s) w3)) = rows w3"
    by (rule exchange_rows)
  moreover have "rows w5 = rows w4" if "prov_userinfo prov ctx t w4 = (q, w5)" for t w4 q w5
    using userinfo_rows [of ctx t w4] that by simp
  ultimately show ?thesis using assms d n
    by (auto simp: HandleCallback_def Let_def log_rows split: prod.splits sum.splits)
qed

text \<open>A callback that finds no session stops there: nothing is sent.\<close>

lemma callback_without_session:
  assumes "fst (repo_get repo ctx sid w) = Inl err"
  shows "fst (HandleCallback e repo prov ctx sid code state w) =
      Inl (ErrWrap ''retrieve auth session: '' err [])"
    and "w_sent (snd (HandleCallback e repo prov ctx sid code state w)) = w_sent w"
  using assms get_sent [of ctx sid w]
  by (auto simp: HandleCallback_def split: prod.splits sum.splits)

text \<open>Single use: if the first callback's deletion reported success, a second one fails.\<close>

lemma callback_replay:
  assumes "repo_get repo ctx sid w = (Inr s, w1)" "fst (repo_delete repo ctx sid w1) = None"
    and "HandleCallback e repo prov ctx sid code state w = (r, w2)"
  shows "\<exists>err. fst (HandleCallback e repo prov ctx' sid code' state' w2) =
           Inl (ErrWrap ''retrieve auth session: '' err []) \<and>
         w_sent (snd (HandleCallback e repo prov ctx' sid code' state' w2)) = w_sent w2"
proof -
  obtain u where u: "norm sid = Some u" using get_found [OF assms(1)] by blast
  have "rows w2 = rows (snd (repo_delete repo ctx sid w1))"
    using callback_rows [OF assms(1), of e code state] assms(3) by simp
  moreover have "rows (snd (repo_delete repo ctx sid w1)) u = None"
    using assms(2) u by (intro delete_done) (auto simp: prod_eq_iff)
  ultimately have "rows w2 u = None" by simp
  with u obtain err where "fst (repo_get repo ctx' sid w2) = Inl err" using get_absent by blast
  with callback_without_session show ?thesis by blast
qed

text \<open>No request leaves before the window and the state were checked.\<close>

lemma callback_gate:
  assumes "repo_get repo ctx sid w = (Inr s, w1)"
    and "snd (repo_delete repo ctx sid w1) = w2"
    and "IsExpired (clock e (w_clock w2)) s \<or> session_state s \<noteq> state"
  shows "HandleCallback e repo prov ctx sid code state w =
      (Inl (ErrWrap ''callback verification failed: ''
         (if IsExpired (clock e (w_clock w2)) s then ErrSessionExpired else ErrInvalidState) []),
       snd (time_now e w2)) \<and>
     w_sent (snd (time_now e w2)) = w_sent w"
  using assms get_sent [of ctx sid w] delete_sent [of ctx sid w1]
  by (auto simp: HandleCallback_def Let_def time_now_def split: prod.splits)

end

subsection \<open>The flow of the program\<close>

lemma db_exec_sent: "(\<And>k v n v'. st k v = Some (n, v') \<Longrightarrow> f v' = f v) \<Longrightarrow>
   (\<And>v n. f (v\<lparr>w_db := n\<rparr>) = f v) \<Longrightarrow> f (snd (db_exec e st w)) = f w"
  by (simp add: db_exec_def Let_def split: option.split prod.split)

lemma statement_keeps:
  "delete_session e sid k v = Some (n, v') \<Longrightarrow> w_sent v' = w_sent v \<and> w_clock v' = w_clock v"
  "insert_session e s k v = Some (n, v') \<Longrightarrow> w_sent v' = w_sent v \<and> w_clock v' = w_clock v"
  by (auto simp: delete_session_def insert_session_def split: option.splits if_splits)

lemma Get_keeps [simp]:
  "w_sent (snd (Get e ctx sid w)) = w_sent w" "w_clock (snd (Get e ctx sid w)) = w_clock w"
  by (simp_all add: Get_def db_get_def Let_def split: sum.split)

lemma Delete_keeps [simp]:
  "w_sent (snd (Delete e ctx sid w)) = w_sent w" "w_clock (snd (Delete e ctx sid w)) = w_clock w"
proof -
  have "w_sent (snd (db_exec e (delete_session e sid) v)) = w_sent v"
    "w_clock (snd (db_exec e (delete_session e sid) v)) = w_clock v" for v
    by (rule db_exec_sent; simp add: statement_keeps)+
  then show "w_sent (snd (Delete e ctx sid w)) = w_sent w" "w_clock (snd (Delete e ctx sid w)) = w_clock w"
    by (simp_all add: Delete_def Let_def split: sum.split prod.split) (metis log_at_simps snd_conv)+
qed

interpretation flow: login_flow "SQLSessionRepository ev" "pg_uuid ev" session_of "Auth0Gateway_provider ev gw"
  for ev :: env and gw :: auth0_gateway
  by unfold_locales
     (auto simp: SQLSessionRepository_def Auth0Gateway_provider_def intro: session_of_cong)

subsection \<open>Properties\<close>

lemma url_safe_no_space: "list_all url_safe s \<Longrightarrow> CHR '' '' \<notin> set s"
  using url_safe_not by (auto simp: list_all_iff)

lemma time_now_eq: "time_now e w = (t, w') \<Longrightarrow> t = clock e (w_clock w) \<and> w_clock w' = Suc (w_clock w)"
  by (auto simp: time_now_def)

lemma random_text_eq:
  "raw_url_encode (of_bytes (map f [0..<n])) = raw_url_encode (of_bytes (map g [0..<n])) \<longleftrightarrow> (\<forall>i<n. f i = g i)"
proof -
  have "raw_url_encode s = raw_url_encode t \<longleftrightarrow> s = t" for s t by (metis raw_url_roundtrip option.inject)
  moreover have "of_bytes bs = of_bytes cs \<longleftrightarrow> bs = cs" for bs cs by (metis to_of_bytes)
  ultimately show ?thesis by auto
qed

lemma Save_rand: "w_rand (snd (Save e ctx s w)) = w_rand w"
proof -
  have "w_rand (snd (db_exec e (insert_session e s) v)) = w_rand v" for v
    by (rule db_exec_sent) (auto simp: insert_session_def split: option.splits if_splits)
  then show ?thesis by (simp add: Save_def Let_def split: sum.split prod.split) (metis log_at_simps snd_conv)+
qed

lemma initiate_session:
  assumes "InitiateAuth e (SQLSessionRepository e) (Auth0Gateway_provider e g) ctx redirect w =
      (Inr (url, sid), w')"
  shows "\<exists>r q. pg_uuid e sid = Some (session_id r) \<and>
     session_of w (session_id r) = None \<and> session_of w' (session_id r) = Some r \<and>
     length (session_state r) = 43 \<and> list_all url_safe (session_state r) \<and>
     length (code_verifier r) = 43 \<and> list_all url_safe (code_verifier r) \<and>
     session_state r = raw_url_encode (of_bytes (map (rand_fill e (w_rand w)) [0..<32])) \<and>
     code_verifier r = raw_url_encode (of_bytes (map (rand_fill e (Suc (w_rand w))) [0..<32])) \<and>
     sid = uuid_format (uuid_bits (map (rand_fill e (Suc (Suc (w_rand w)))) [0..<16])) \<and>
     w_rand w' = w_rand w + 3 \<and>
     (session_state r = code_verifier r \<longleftrightarrow> (\<forall>i<32. rand_fill e (w_rand w) i = rand_fill e (Suc (w_rand w)) i)) \<and>
     redirect_uri r = redirect \<and>
     expires_at r = pg_time e (time_add (clock e (Suc (w_clock w))) (5 * minute)) \<and>
     url = ''https://'' @ host_escape (gw_domain g) @ ''/authorize?'' @ q \<and>
     query_get q ''state'' = session_state r \<and>
     query_get q ''code_challenge'' = DeriveChallenge (code_verifier r) \<and>
     query_get q ''code_challenge_method'' = ''S256''"
proof -
  obtain st w1 where st: "GenerateState e w = (Inr st, w1)"
    using assms by (auto simp: InitiateAuth_def split: sum.splits prod.splits)
  obtain cv w2 where cv: "GenerateVerifier e w1 = (Inr cv, w2)"
    using assms st by (auto simp: InitiateAuth_def split: sum.splits prod.splits)
  obtain u w3 t1 w4 t2 w5 where u: "generateUUIDv4 e w2 = (u, w3)"
    and t1: "time_now e w3 = (t1, w4)" and t2: "time_now e w4 = (t2, w5)" by fastforce
  define s where "s = \<lparr>session_id = u, session_state = st, code_verifier = cv,
     redirect_uri = redirect, created_at = t1, expires_at = time_add t2 (5 * minute)\<rparr>"
  obtain w6 where sv: "Save e ctx s w5 = (None, w6)"
    and url: "fst (GetAuthorizationURL g ctx (s\<lparr>code_verifier := DeriveChallenge cv\<rparr>) w6) = Inr url"
    and sid: "sid = u"
    and w': "w_sessions w' = w_sessions w6" "w_rand w' = w_rand w6"
    using assms st cv u t1 t2
    by (auto simp: InitiateAuth_def SQLSessionRepository_def Auth0Gateway_provider_def Let_def s_def
        GetAuthorizationURL_def split: sum.splits prod.splits option.splits)
  obtain r k where r: "session_row e k s = Some r" "session_of w5 (session_id r) = None"
    "session_of w6 = (session_of w5)(session_id r \<mapsto> r)"
    using sv by (rule Save_done)
  have "w1 = w\<lparr>w_rand := Suc (w_rand w)\<rparr>" "w2 = w1\<lparr>w_rand := Suc (w_rand w1)\<rparr>"
    using GenerateState_ok(4) [OF st] GenerateVerifier_ok(4) [OF cv] by simp_all
  moreover have "w3 = w2\<lparr>w_rand := Suc (w_rand w2)\<rparr>"
    using u by (simp add: generateUUIDv4_def rand_read_def)
  ultimately have tab: "w_sessions w5 = w_sessions w" and clk: "t2 = clock e (Suc (w_clock w))"
    and cnt: "w_rand w1 = Suc (w_rand w)" "w_rand w2 = Suc (Suc (w_rand w))" "w_rand w5 = w_rand w + 3"
    using t1 t2 by (auto simp: time_now_def)
  have rand: "st = raw_url_encode (of_bytes (map (rand_fill e (w_rand w)) [0..<32]))"
    "cv = raw_url_encode (of_bytes (map (rand_fill e (w_rand w1)) [0..<32]))"
    "u = uuid_format (uuid_bits (map (rand_fill e (w_rand w2)) [0..<16]))"
    using st cv u by (auto simp: GenerateState_def GenerateVerifier_def generateUUIDv4_def rand_read_def split: option.splits)
  have "w_rand w6 = w_rand w5" using Save_rand [of e ctx s w5] sv by simp
  with cnt(3) w'(2) have used: "w_rand w' = w_rand w + 3" by simp
  have ss: "session_state r = st" "code_verifier r = cv" "redirect_uri r = redirect"
    "expires_at r = pg_time e (time_add t2 (5 * minute))"
    using r(1) url_safe_no_space GenerateState_ok(2) [OF st] GenerateVerifier_ok(2) [OF cv]
    by (auto simp: session_row_def s_def dest: pg_varchar_no_space split: option.splits if_splits)
  have "session_of w' = session_of w6" by (rule session_of_cong) (simp add: w'(1))
  moreover have "session_of w5 = session_of w" by (rule session_of_cong) (rule tab)
  moreover obtain q where "url = ''https://'' @ host_escape (gw_domain g) @ ''/authorize?'' @ q"
    "query_get q ''state'' = st" "query_get q ''code_challenge'' = DeriveChallenge cv"
    "query_get q ''code_challenge_method'' = ''S256''"
    using authorization_query [of g ctx "s\<lparr>code_verifier := DeriveChallenge cv\<rparr>" w6] url
    by (auto simp: s_def)
  ultimately show ?thesis
    using r ss session_row_id [OF r(1)] GenerateState_ok [OF st] GenerateVerifier_ok [OF cv] clk sid
    by (intro exI [of _ r] exI [of _ q]) (simp add: s_def rand cnt(1,2) used random_text_eq)
qed

text \<open>
  C26 (initiate_auth_session): when a login is initiated, the store holds a new session under
  the identifier returned. State, verifier and identifier are each the text of a read of their
  own from the random source, of 32, 32 and 16 bytes, so that state and verifier agree only if
  the source repeats all its bytes; both are 43 URL-safe characters. The window ends five minutes
  after the clock, and the URL carries that state and the S256 challenge of the stored verifier.
\<close>

theorem initiate_auth_session:
  assumes "InitiateAuth e (SQLSessionRepository e) (Auth0Gateway_provider e g) ctx redirect w =
      (Inr (url, sid), w')"
  shows "\<exists>r q. pg_uuid e sid = Some (session_id r) \<and>
     session_of w (session_id r) = None \<and> session_of w' (session_id r) = Some r \<and>
     length (session_state r) = 43 \<and> list_all url_safe (session_state r) \<and>
     length (code_verifier r) = 43 \<and> list_all url_safe (code_verifier r) \<and>
     session_state r = raw_url_encode (of_bytes (map (rand_fill e (w_rand w)) [0..<32])) \<and>
     code_verifier r = raw_url_encode (of_bytes (map (rand_fill e (Suc (w_rand w))) [0..<32])) \<and>
     sid = uuid_format (uuid_bits (map (rand_fill e (Suc (Suc (w_rand w)))) [0..<16])) \<and>
     w_rand w' = w_rand w + 3 \<and>
     (session_state r = code_verifier r \<longleftrightarrow> (\<forall>i<32. rand_fill e (w_rand w) i = rand_fill e (Suc (w_rand w)) i)) \<and>
     redirect_uri r = redirect \<and>
     expires_at r = pg_time e (time_add (clock e (Suc (w_clock w))) (5 * minute)) \<and>
     url = ''https://'' @ host_escape (gw_domain g) @ ''/authorize?'' @ q \<and>
     query_get q ''state'' = session_state r \<and>
     query_get q ''code_challenge'' = DeriveChallenge (code_verifier r) \<and>
     query_get q ''code_challenge_method'' = ''S256''"
  by (rule initiate_session [OF assms])

lemma url_safe_ascii: "url_safe c \<Longrightarrow> 0 < ord c \<and> ord c < (128 :: nat)"
  by (auto simp: url_safe_def url_val_def alnum_val_def Let_def split: if_split_asm)

lemma url_safe_pg_text: "list_all url_safe s \<Longrightarrow> pg_text s"
  using url_safe_ascii by (fastforce simp: pg_text_def list_all_iff is_ascii_def intro: ascii_valid_utf8)

lemma Save_succeeds:
  assumes "db_fault e (w_db w) = None" "session_row e (w_db w) s = Some r" "w_sessions w = []"
  shows "fst (Save e ctx s w) = None"
  using assms by (simp add: Save_def db_exec_def insert_session_def Let_def)

text \<open>On a healthy database with an empty table, logging in succeeds.\<close>

lemma sample_initiate: "\<exists>url sid w'. InitiateAuth sample_env (SQLSessionRepository sample_env)
    (Auth0Gateway_provider sample_env sample_gateway) background ''https://app'' world_init =
    (Inr (url, sid), w')"
proof -
  let ?e = sample_env
  obtain st w1 where st: "GenerateState ?e world_init = (Inr st, w1)"
    by (simp add: GenerateState_def rand_read_def sample_env_def)
  obtain cv w2 where cv: "GenerateVerifier ?e w1 = (Inr cv, w2)"
    by (simp add: GenerateVerifier_def rand_read_def sample_env_def)
  obtain u w3 t1 w4 t2 w5 where u: "generateUUIDv4 ?e w2 = (u, w3)"
    and t: "time_now ?e w3 = (t1, w4)" "time_now ?e w4 = (t2, w5)" by fastforce
  have "w_sessions w5 = []"
    using GenerateState_ok(4) [OF st] GenerateVerifier_ok(4) [OF cv] u t
    by (auto simp: generateUUIDv4_def rand_read_def time_now_def world_init_def)
  moreover define s where "s = \<lparr>session_id = u, session_state = st, code_verifier = cv,
     redirect_uri = ''https://app'', created_at = t1, expires_at = time_add t2 (5 * minute)\<rparr>"
  moreover have "pg_varchar 255 st = Some st" "pg_varchar 128 cv = Some cv"
    using GenerateState_ok [OF st] GenerateVerifier_ok [OF cv]
    by (auto intro!: pg_varchar_fits url_safe_pg_text)
  moreover have "pg_uuid ?e u = Some u" "pg_text ''https://app''"
    using generateUUIDv4_shape(1) [OF u] by (simp_all add: sample_env_def pg_text_def ascii_valid_utf8)
  ultimately obtain w6 where "Save ?e background s w5 = (None, w6)"
    using Save_succeeds [of ?e w5 s _ background]
    by (cases "Save ?e background s w5") (auto simp: session_row_def sample_env_def)
  with st cv u t show ?thesis
    by (simp add: InitiateAuth_def s_def SQLSessionRepository_def Auth0Gateway_provider_def
        GetAuthorizationURL_def)
qed

theorem initiate_auth_session_witness:
  "\<exists>url sid w' r q. InitiateAuth sample_env (SQLSessionRepository sample_env)
      (Auth0Gateway_provider sample_env sample_gateway) background ''https://app'' world_init =
      (Inr (url, sid), w') \<and> session_of w' (session_id r) = Some r \<and> length (code_verifier r) = 43 \<and>
     url = ''https://'' @ host_escape ''idp.example'' @ ''/authorize?'' @ q \<and>
     query_get q ''code_challenge'' = DeriveChallenge (code_verifier r)"
proof -
  obtain url sid w' where i: "InitiateAuth sample_env (SQLSessionRepository sample_env)
    (Auth0Gateway_provider sample_env sample_gateway) background ''https://app'' world_init =
    (Inr (url, sid), w')" using sample_initiate by blast
  from initiate_auth_session [OF i] i show ?thesis by (auto simp: sample_gateway_def)
qed

text \<open>
  C2 (callback_checks): a callback exchanges no code, and sends no request at all, unless the
  store has the session, its window is still open and the state matches; each of the three
  failures is the error the handler tells apart.
\<close>

theorem callback_checks:
  "case fst (Get e ctx sid w) of
     Inl err \<Rightarrow>
       fst (HandleCallback e (SQLSessionRepository e) (Auth0Gateway_provider e g) ctx sid code state w) =
         Inl (ErrWrap ''retrieve auth session: '' err []) \<and>
       w_sent (snd (HandleCallback e (SQLSessionRepository e) (Auth0Gateway_provider e g) ctx sid code state w)) =
         w_sent w
   | Inr s \<Rightarrow>
       expires_at s < clock e (w_clock w) \<or> session_state s \<noteq> state \<longrightarrow>
       (\<exists>err. fst (HandleCallback e (SQLSessionRepository e) (Auth0Gateway_provider e g) ctx sid code state w) =
          Inl err \<and>
        (if expires_at s < clock e (w_clock w) then errors_is err ErrSessionExpired
         else errors_is err ErrInvalidState \<and> \<not> errors_is err ErrSessionExpired) \<and>
        w_sent (snd (HandleCallback e (SQLSessionRepository e) (Auth0Gateway_provider e g) ctx sid code state w)) =
          w_sent w)"
proof (cases "Get e ctx sid w")
  case (Pair q w1)
  show ?thesis
  proof (cases q)
    case (Inl err)
    with Pair show ?thesis
      using flow.callback_without_session [where ev = e and gw = g and e = e and ctx = ctx and sid = sid and w = w]
      by (simp add: SQLSessionRepository_def)
  next
    case (Inr s)
    have clk: "w_clock w1 = w_clock w"
      using Pair Get_keeps(2) [of e ctx sid w] by simp
    have "repo_get (SQLSessionRepository e) ctx sid w = (Inr s, w1)"
      "snd (repo_delete (SQLSessionRepository e) ctx sid w1) = snd (Delete e ctx sid w1)"
      using Pair Inr by (simp_all add: SQLSessionRepository_def)
    from flow.callback_gate [where gw = g and e = e, OF this] show ?thesis
      using Pair Inr by (auto simp: clk IsExpired_def time_after_def auth_errors)
  qed
qed

text \<open>
  C9 (callback_single_use): after a callback whose deletion the database confirmed, any
  further callback with the same session cookie fails without sending anything, whatever its
  code and state.
\<close>

theorem callback_single_use:
  assumes "Get e ctx sid w = (Inr s, w1)" "fst (Delete e ctx sid w1) = None"
    and "HandleCallback e (SQLSessionRepository e) (Auth0Gateway_provider e g) ctx sid code state w = (r, w2)"
  shows "\<exists>err. fst (HandleCallback e (SQLSessionRepository e) (Auth0Gateway_provider e g) ctx' sid code' state' w2) =
           Inl (ErrWrap ''retrieve auth session: '' err []) \<and>
         w_sent (snd (HandleCallback e (SQLSessionRepository e) (Auth0Gateway_provider e g) ctx' sid code' state' w2)) =
           w_sent w2"
  using flow.callback_replay [where ev = e and gw = g and e = e and ctx = ctx and sid = sid and w = w] assms
  by (simp add: SQLSessionRepository_def)


lemma sample_get:
  "\<exists>s w1. Get sample_env background (session_id sample_session)
      (snd (Save sample_env background sample_session world_init)) = (Inr s, w1) \<and>
     fst (Delete sample_env background (session_id sample_session) w1) = None"
proof -
  let ?w = "snd (Save sample_env background sample_session world_init)"
  have "(case fst (Get sample_env background (session_id sample_session) ?w) of Inl _ \<Rightarrow> False | Inr _ \<Rightarrow> True)"
    "fst (Delete sample_env background (session_id sample_session)
       (snd (Get sample_env background (session_id sample_session) ?w))) = None"
    by code_simp+
  then show ?thesis
    by (cases "Get sample_env background (session_id sample_session) ?w")
       (auto split: sum.splits)
qed

theorem callback_single_use_witness:
  "\<exists>err. fst (HandleCallback sample_env (SQLSessionRepository sample_env)
        (Auth0Gateway_provider sample_env sample_gateway) background (session_id sample_session) ''c2'' ''st''
        (snd (HandleCallback sample_env (SQLSessionRepository sample_env)
          (Auth0Gateway_provider sample_env sample_gateway) background (session_id sample_session) ''c1'' ''st''
          (snd (Save sample_env background sample_session world_init))))) =
      Inl (ErrWrap ''retrieve auth session: '' err [])"
proof -
  obtain s w1 where "Get sample_env background (session_id sample_session)
      (snd (Save sample_env background sample_session world_init)) = (Inr s, w1)"
    "fst (Delete sample_env background (session_id sample_session) w1) = None"
    using sample_get by blast
  from callback_single_use [OF this surjective_pairing, where ctx' = background and code' = "''c2''" and state' = "''st''"]
  show ?thesis by blast
qed

lemma sample_get_state:
  "case fst (Get sample_env background (session_id sample_session)
      (snd (Save sample_env background sample_session world_init))) of
     Inl _ \<Rightarrow> False
   | Inr s \<Rightarrow> session_state s = ''st'' \<and>
       \<not> expires_at s < clock sample_env (w_clock (snd (Save sample_env background sample_session world_init)))"
  by code_simp

theorem callback_checks_witness:
  "\<exists>err. fst (HandleCallback sample_env (SQLSessionRepository sample_env)
        (Auth0Gateway_provider sample_env sample_gateway) background (session_id sample_session) ''c'' ''forged''
        (snd (Save sample_env background sample_session world_init))) = Inl err \<and>
      errors_is err ErrInvalidState"
  using callback_checks [where e = sample_env and ctx = background and sid = "session_id sample_session"
      and w = "snd (Save sample_env background sample_session world_init)" and g = sample_gateway
      and code = "''c''" and state = "''forged''"]
    sample_get_state
  by (auto split: sum.splits)

lemma exchange_success:
  assumes "ExchangeCode e g ctx code verifier w = (Inr t, w')"
  shows "w_sent w' = w_sent w @
             [\<lparr>oq_method = ''POST'', oq_url = endpoint g ''/oauth/token'',
               oq_headers = [(''Content-Type'', ''application/json'')],
               oq_body = json_print (token_request_json (exchange_request g code verifier))\<rparr>]"
  using assms
  by (auto simp: ExchangeCode_def breaker_execute_def sendTokenRequest_def new_request_def
      http_do_def Let_def split: option.splits sum.splits)

lemma userinfo_success:
  assumes "GetUserInfo e g ctx token w = (Inr u, w')"
  shows "w_sent w' = w_sent w @
             [\<lparr>oq_method = ''GET'', oq_url = endpoint g ''/userinfo'',
               oq_headers = [(''Authorization'', ''Bearer '' @ token)], oq_body = []\<rparr>]"
  using assms
  by (auto simp: GetUserInfo_def breaker_execute_def send_userinfo_def new_request_def
      http_do_def Let_def split: option.splits sum.splits)

text \<open>
  C19 (callback_exchange): a callback that succeeds found a session, in its window and with
  the state the browser brought back, and sent exactly two requests: the code with that
  session's own verifier to the token endpoint, then the access token it was given to the
  profile endpoint.
\<close>

theorem callback_exchange:
  assumes "HandleCallback e (SQLSessionRepository e) (Auth0Gateway_provider e g) ctx sid code state w =
      (Inr (user, toks), w')"
  shows "\<exists>s. fst (Get e ctx sid w) = Inr s \<and> session_state s = state \<and>
     \<not> expires_at s < clock e (w_clock w) \<and>
     w_sent w' = w_sent w @
       [\<lparr>oq_method = ''POST'', oq_url = endpoint g ''/oauth/token'',
         oq_headers = [(''Content-Type'', ''application/json'')],
         oq_body = json_print (token_request_json (exchange_request g code (code_verifier s)))\<rparr>,
        \<lparr>oq_method = ''GET'', oq_url = endpoint g ''/userinfo'',
         oq_headers = [(''Authorization'', ''Bearer '' @ access_token toks)], oq_body = []\<rparr>]"
proof -
  obtain s w1 where get: "Get e ctx sid w = (Inr s, w1)"
    using assms by (auto simp: HandleCallback_def SQLSessionRepository_def split: prod.splits sum.splits)
  obtain d w2 where del: "Delete e ctx sid w1 = (d, w2)" by fastforce
  obtain now w3 where now: "time_now e w2 = (now, w3)" by fastforce
  obtain w4 w5 where ok: "\<not> IsExpired now s" "session_state s = state"
    and ex: "ExchangeCode e g ctx code (code_verifier s) w3 = (Inr toks, w4)"
    and ui: "GetUserInfo e g ctx (access_token toks) w4 = (Inr user, w5)" and w': "w_sent w' = w_sent w5"
    using assms get del now
    by (auto simp: HandleCallback_def SQLSessionRepository_def Auth0Gateway_provider_def Let_def
        split: prod.splits sum.splits if_splits)
  have "w_sent w3 = w_sent w" "now = clock e (w_clock w)"
    using get del now Get_keeps [of e ctx sid w] Delete_keeps [of e ctx sid w1]
    by (auto simp: time_now_def)
  with get ok exchange_success [OF ex] userinfo_success [OF ui] w' show ?thesis
    by (simp add: IsExpired_def time_after_def)
qed

lemma sample_callback:
  "case HandleCallback sample_env (SQLSessionRepository sample_env)
      (Auth0Gateway_provider sample_env sample_gateway) background (session_id sample_session) ''c'' ''st''
      (snd (Save sample_env background sample_session world_init)) of
     (Inl _, _) \<Rightarrow> False | (Inr _, _) \<Rightarrow> True"
  by code_simp

theorem callback_exchange_witness:
  "\<exists>user toks w' (s :: auth_session). HandleCallback sample_env (SQLSessionRepository sample_env)
      (Auth0Gateway_provider sample_env sample_gateway) background (session_id sample_session) ''c'' ''st''
      (snd (Save sample_env background sample_session world_init)) = (Inr (user, toks), w') \<and>
     session_state s = ''st'' \<and> length (w_sent w') = 2"
proof -
  obtain user toks w' where h: "HandleCallback sample_env (SQLSessionRepository sample_env)
      (Auth0Gateway_provider sample_env sample_gateway) background (session_id sample_session) ''c'' ''st''
      (snd (Save sample_env background sample_session world_init)) = (Inr (user, toks), w')"
    using sample_callback by (auto split: prod.splits sum.splits)
  have "w_sent (snd (Save sample_env background sample_session world_init)) = []" by code_simp
  moreover obtain s :: auth_session and q1 q2 where "session_state s = ''st''"
    "w_sent w' = w_sent (snd (Save sample_env background sample_session world_init)) @ [q1, q2]"
    using callback_exchange [OF h] by blast
  ultimately show ?thesis using h by (intro exI conjI) auto
qed

end
