(* ===== verification/CallbackRace.thy ===== *)
theory CallbackRace
  imports AuthService
begin

text \<open>
  Callbacks that overlap. Each request runs in a goroutine of its own, so that what
  \<open>HandleCallback\<close> of \<open>auth_service.go\<close> does in sequence interleaves with what other callbacks
  do, each with its own context, cookie, code and state. A callback is in a phase; a step runs one
  call of one callback (the query, the deletion, the checks, the exchange, the profile request) on
  the world they share. Run without interruption the steps are \<open>HandleCallback\<close>.
\<close>

record callback =
  cb_ctx :: go_ctx
  cb_sid :: string
  cb_code :: string
  cb_state :: string

datatype phase =
    Started
  | Got auth_session
  | Deleted auth_session
  | Checked auth_session
  | Exchanged auth_session token_pair
  | Finished "go_error + user_identity \<times> token_pair"

fun callback_step ::
  "env \<Rightarrow> session_repo \<Rightarrow> auth_provider \<Rightarrow> callback \<Rightarrow> phase \<Rightarrow> world \<Rightarrow> phase \<times> world" where
  "callback_step e repo prov c Started w =
     (case repo_get repo (cb_ctx c) (cb_sid c) w of
        (Inl err, w1) \<Rightarrow> (Finished (Inl (ErrWrap ''retrieve auth session: '' err [])), w1)
      | (Inr session, w1) \<Rightarrow> (Got session, w1))"
| "callback_step e repo prov c (Got session) w =
     (Deleted session, snd (repo_delete repo (cb_ctx c) (cb_sid c) w))"
| "callback_step e repo prov c (Deleted session) w =
     (case time_now e w of
        (now, w1) \<Rightarrow>
          if IsExpired now session
          then (Finished (Inl (ErrWrap ''callback verification failed: '' ErrSessionExpired [])), w1)
          else if session_state session \<noteq> cb_state c
          then (Finished (Inl (ErrWrap ''callback verification failed: '' ErrInvalidState [])), w1)
          else (Checked session, w1))"
| "callback_step e repo prov c (Checked session) w =
     (case prov_exchange prov (cb_ctx c) (cb_code c) (code_verifier session) w of
        (Inl err, w1) \<Rightarrow> (Finished (Inl (ErrWrap ''exchange authorization code: '' err [])), w1)
      | (Inr toks, w1) \<Rightarrow> (Exchanged session toks, w1))"
| "callback_step e repo prov c (Exchanged session toks) w =
     (case prov_userinfo prov (cb_ctx c) (access_token toks) w of
        (Inl err, w1) \<Rightarrow> (Finished (Inl (ErrWrap ''retrieve user profile: '' err [])), w1)
      | (Inr user, w1) \<Rightarrow>
          (Finished (Inr (user, toks)),
           InfoContext (cb_ctx c) ''completed authentication callback''
             [(''user_id'', AStr (user_sub user)), (''user_email'', MaskedEmail_LogValue (user_email user))] w1))"
| "callback_step e repo prov c (Finished r) w = (Finished r, w)"

text \<open>A callback that nothing interrupts does what \<open>HandleCallback\<close> does.\<close>

lemma callback_alone:
  "((\<lambda>(p, w). callback_step e repo prov c p w) ^^ 5) (Started, w) =
     (case HandleCallback e repo prov (cb_ctx c) (cb_sid c) (cb_code c) (cb_state c) w of (r, w') \<Rightarrow> (Finished r, w'))"
  by (auto simp: HandleCallback_def Let_def numeral_eq_Suc split: prod.split sum.split)

record racing =
  phase_of :: "nat \<Rightarrow> phase"
  shared :: world

definition race_start :: "world \<Rightarrow> racing" where
  "race_start w = \<lparr>phase_of = (\<lambda>_. Started), shared = w\<rparr>"

definition race_move :: "env \<Rightarrow> session_repo \<Rightarrow> auth_provider \<Rightarrow> (nat \<Rightarrow> callback) \<Rightarrow> nat \<Rightarrow> racing \<Rightarrow> racing" where
  "race_move e repo prov cb i c =
     (case callback_step e repo prov (cb i) (phase_of c i) (shared c) of
        (p, w') \<Rightarrow> \<lparr>phase_of = (phase_of c)(i := p), shared = w'\<rparr>)"

inductive race_step ::
  "env \<Rightarrow> session_repo \<Rightarrow> auth_provider \<Rightarrow> (nat \<Rightarrow> callback) \<Rightarrow> racing \<Rightarrow> racing \<Rightarrow> bool"
  for e repo prov cb where
  race_moves: "(\<forall>r. phase_of c i \<noteq> Finished r) \<Longrightarrow> race_step e repo prov cb c (race_move e repo prov cb i c)"

inductive_cases race_stepE: "race_step e repo prov cb c c'"

abbreviation gateway_race :: "env \<Rightarrow> auth0_gateway \<Rightarrow> (nat \<Rightarrow> callback) \<Rightarrow> racing \<Rightarrow> racing \<Rightarrow> bool" where
  "gateway_race e g \<equiv> race_step e (SQLSessionRepository e) (Auth0Gateway_provider e g)"

subsection \<open>What a callback sends\<close>

definition exchange_post :: "auth0_gateway \<Rightarrow> string \<Rightarrow> string \<Rightarrow> out_request" where
  "exchange_post g code verifier =
     \<lparr>oq_method = ''POST'', oq_url = endpoint g ''/oauth/token'',
      oq_headers = [(''Content-Type'', ''application/json'')],
      oq_body = json_print (token_request_json (exchange_request g code verifier))\<rparr>"

definition profile_get :: "auth0_gateway \<Rightarrow> string \<Rightarrow> out_request" where
  "profile_get g token =
     \<lparr>oq_method = ''GET'', oq_url = endpoint g ''/userinfo'',
      oq_headers = [(''Authorization'', ''Bearer '' @ token)], oq_body = []\<rparr>"

lemma exchange_sends:
  assumes "ExchangeCode e g ctx code v w = (q, w')"
  shows "(w_sent w' = w_sent w \<and> isl q) \<or> w_sent w' = w_sent w @ [exchange_post g code v]"
  using assms
  by (auto simp: exchange_post_def ExchangeCode_def breaker_execute_def sendTokenRequest_def new_request_def
      http_do_def Let_def split: option.splits sum.splits)

lemma profile_sends:
  assumes "GetUserInfo e g ctx token w = (q, w')"
  shows "(w_sent w' = w_sent w \<and> isl q) \<or> w_sent w' = w_sent w @ [profile_get g token]"
  using assms
  by (auto simp: profile_get_def GetUserInfo_def breaker_execute_def send_userinfo_def new_request_def
      http_do_def Let_def split: option.splits sum.splits)

lemma gateway_keeps:
  "w_sessions (snd (ExchangeCode e g ctx code v w)) = w_sessions w" "w_clock (snd (ExchangeCode e g ctx code v w)) = w_clock w"
  "w_sessions (snd (GetUserInfo e g ctx token w)) = w_sessions w" "w_clock (snd (GetUserInfo e g ctx token w)) = w_clock w"
  by (auto simp: ExchangeCode_def sendTokenRequest_def GetUserInfo_def send_userinfo_def breaker_execute_def
      new_request_def http_do_def Let_def split: option.split sum.split)

subsection \<open>What holds of every interleaving\<close>

text \<open>The session was in the store when the race began, under the cookie of the callback.\<close>

definition held :: "env \<Rightarrow> world \<Rightarrow> callback \<Rightarrow> auth_session \<Rightarrow> bool" where
  "held e w0 b s \<longleftrightarrow> (\<exists>u. pg_uuid e (cb_sid b) = Some u \<and> session_of w0 u = Some s)"

text \<open>It also had the callback's state, and its window was open at a reading of the clock since.\<close>

definition passed :: "env \<Rightarrow> world \<Rightarrow> nat \<Rightarrow> callback \<Rightarrow> auth_session \<Rightarrow> bool" where
  "passed e w0 n b s \<longleftrightarrow> held e w0 b s \<and> session_state s = cb_state b \<and>
     (\<exists>m. w_clock w0 \<le> m \<and> m < n \<and> \<not> expires_at s < clock e m)"

lemma passed_later: "passed e w0 n b s \<Longrightarrow> n \<le> n' \<Longrightarrow> passed e w0 n' b s"
  unfolding passed_def using less_le_trans by blast

text \<open>A phase, at the \<open>n\<close>-th reading of the clock, against the requests the callback sent so far.\<close>

fun phase_ok :: "env \<Rightarrow> auth0_gateway \<Rightarrow> world \<Rightarrow> nat \<Rightarrow> callback \<Rightarrow> phase \<Rightarrow> out_request list \<Rightarrow> bool" where
  "phase_ok e g w0 n b Started rs \<longleftrightarrow> rs = []"
| "phase_ok e g w0 n b (Got s) rs \<longleftrightarrow> rs = [] \<and> held e w0 b s"
| "phase_ok e g w0 n b (Deleted s) rs \<longleftrightarrow> rs = [] \<and> held e w0 b s"
| "phase_ok e g w0 n b (Checked s) rs \<longleftrightarrow> rs = [] \<and> passed e w0 n b s"
| "phase_ok e g w0 n b (Exchanged s toks) rs \<longleftrightarrow>
     rs = [exchange_post g (cb_code b) (code_verifier s)] \<and> passed e w0 n b s"
| "phase_ok e g w0 n b (Finished r) rs \<longleftrightarrow>
     (rs = [] \<and> isl r) \<or>
     (\<exists>s. passed e w0 n b s \<and>
        ((rs = [exchange_post g (cb_code b) (code_verifier s)] \<and> isl r) \<or>
         (\<exists>toks. rs = [exchange_post g (cb_code b) (code_verifier s), profile_get g (access_token toks)] \<and>
            (isl r \<or> (\<exists>user. r = Inr (user, toks))))))"

lemma phase_ok_later: "phase_ok e g w0 n b p rs \<Longrightarrow> n \<le> n' \<Longrightarrow> phase_ok e g w0 n' b p rs"
  by (cases p) (auto dest: passed_later)

lemma step_ok:
  assumes "phase_ok e g w0 (w_clock w) b p rs" "session_of w \<subseteq>\<^sub>m session_of w0" "w_clock w0 \<le> w_clock w"
    and "callback_step e (SQLSessionRepository e) (Auth0Gateway_provider e g) b p w = (p', w')"
  obtains ns where "session_of w' \<subseteq>\<^sub>m session_of w" "w_clock w \<le> w_clock w'" "w_sent w' = w_sent w @ ns"
    "phase_ok e g w0 (w_clock w') b p' (rs @ ns)"
proof (cases p)
  case Started
  obtain q where q: "Get e (cb_ctx b) (cb_sid b) w = (q, w')"
    using assms(4) Started by (auto simp: SQLSessionRepository_def split: prod.splits sum.splits)
  have "session_of w' = session_of w" "w_clock w' = w_clock w" "w_sent w' = w_sent w @ []"
    using q Get_sessions [of e "cb_ctx b" "cb_sid b" w] Get_keeps [of e "cb_ctx b" "cb_sid b" w]
    by (auto intro: session_of_cong)
  moreover have "phase_ok e g w0 (w_clock w') b p' (rs @ [])"
  proof (cases q)
    case (Inl err)
    with assms(1,4) Started q show ?thesis by (auto simp: SQLSessionRepository_def)
  next
    case (Inr s)
    with q obtain u where "pg_uuid e (cb_sid b) = Some u" "session_of w u = Some s" using Get_found by blast
    then have "held e w0 b s" using assms(2) by (auto simp: held_def map_le_def dom_def)
    with assms(1,4) Started q Inr show ?thesis by (auto simp: SQLSessionRepository_def)
  qed
  ultimately show ?thesis using that [of "[]"] by simp
next
  case (Got s)
  with assms(4) have p': "p' = Deleted s" "w' = snd (Delete e (cb_ctx b) (cb_sid b) w)"
    by (auto simp: SQLSessionRepository_def)
  with assms(1) Got that [of "[]"] Delete_shrinks [of e "cb_ctx b" "cb_sid b" w] show ?thesis by simp
next
  case (Deleted s)
  have w': "w' = snd (time_now e w)" using assms(4) Deleted by (auto simp: time_now_def split: if_splits)
  have clk: "w_clock w' = Suc (w_clock w)" "w_sent w' = w_sent w @ []" unfolding w' by (simp_all add: time_now_def)
  have ses: "session_of w' = session_of w" by (rule session_of_cong) (simp add: w' time_now_def)
  have "phase_ok e g w0 (w_clock w') b p' (rs @ [])"
  proof (cases "IsExpired (clock e (w_clock w)) s \<or> session_state s \<noteq> cb_state b")
    case True
    with assms(1,4) Deleted show ?thesis by (auto simp: time_now_def split: if_splits)
  next
    case False
    then have "passed e w0 (w_clock w') b s"
      using assms(1,3) Deleted unfolding passed_def clk by (auto simp: IsExpired_def time_after_def intro!: exI [of _ "w_clock w"])
    with False assms(1,4) Deleted show ?thesis by (auto simp: time_now_def split: if_splits)
  qed
  with clk ses that [of "[]"] show ?thesis by simp
next
  case (Checked s)
  obtain q where q: "ExchangeCode e g (cb_ctx b) (cb_code b) (code_verifier s) w = (q, w')"
    using assms(4) Checked by (auto simp: Auth0Gateway_provider_def split: prod.splits sum.splits)
  have "session_of w' = session_of w" "w_clock w' = w_clock w"
    using q gateway_keeps(1,2) [of e g "cb_ctx b" "cb_code b" "code_verifier s" w] by (auto intro: session_of_cong)
  moreover have p': "p' = (case q of Inl err \<Rightarrow> Finished (Inl (ErrWrap ''exchange authorization code: '' err [])) | Inr t \<Rightarrow> Exchanged s t)"
    using assms(4) Checked q by (auto simp: Auth0Gateway_provider_def split: sum.split)
  ultimately show ?thesis
    using exchange_sends [OF q] assms(1) Checked that [of "[]"] that [of "[exchange_post g (cb_code b) (code_verifier s)]"]
    by (cases q) auto
next
  case (Exchanged s toks)
  obtain q w1 where q: "GetUserInfo e g (cb_ctx b) (access_token toks) w = (q, w1)" by fastforce
  have w': "session_of w' = session_of w1" "w_clock w' = w_clock w1" "w_sent w' = w_sent w1"
    and p': "p' = (case q of Inl err \<Rightarrow> Finished (Inl (ErrWrap ''retrieve user profile: '' err [])) | Inr u \<Rightarrow> Finished (Inr (u, toks)))"
    using assms(4) Exchanged q by (auto simp: Auth0Gateway_provider_def session_of_def split: sum.splits)
  have "session_of w1 = session_of w" "w_clock w1 = w_clock w"
    using q gateway_keeps(3,4) [of e g "cb_ctx b" "access_token toks" w] by (auto intro: session_of_cong)
  then show ?thesis
    using profile_sends [OF q] assms(1) Exchanged p' w' that [of "[]"] that [of "[profile_get g (access_token toks)]"]
    by (cases q) auto
next
  case (Finished r)
  then have "p' = p" "w' = w" using assms(4) by simp_all
  with assms(1) that [of "[]"] show ?thesis by (simp del: phase_ok.simps)
qed

text \<open>The requests of one callback among all that were sent, each with the callback it is of.\<close>

definition own :: "nat \<Rightarrow> (nat \<times> out_request) list \<Rightarrow> out_request list" where
  "own i as = map snd (filter (\<lambda>a. fst a = i) as)"

lemma own_append:
  "own i (as @ map (Pair j) ns) = (if i = j then own i as @ ns else own i as)"
  by (induction ns) (auto simp: own_def)

definition race_inv :: "env \<Rightarrow> auth0_gateway \<Rightarrow> (nat \<Rightarrow> callback) \<Rightarrow> world \<Rightarrow> racing \<Rightarrow> (nat \<times> out_request) list \<Rightarrow> bool" where
  "race_inv e g cb w0 c as \<longleftrightarrow>
     session_of (shared c) \<subseteq>\<^sub>m session_of w0 \<and> w_clock w0 \<le> w_clock (shared c) \<and>
     w_sent (shared c) = w_sent w0 @ map snd as \<and>
     (\<forall>i. phase_ok e g w0 (w_clock (shared c)) (cb i) (phase_of c i) (own i as))"

lemma race_inv_step:
  assumes "gateway_race e g cb c c'" "race_inv e g cb w0 c as"
  shows "\<exists>as'. race_inv e g cb w0 c' as'"
  using assms(1)
proof cases
  case (race_moves i)
  have inv: "session_of (shared c) \<subseteq>\<^sub>m session_of w0" "w_clock w0 \<le> w_clock (shared c)"
    "w_sent (shared c) = w_sent w0 @ map snd as"
    "phase_ok e g w0 (w_clock (shared c)) (cb j) (phase_of c j) (own j as)" for j
    using assms(2) by (simp_all add: race_inv_def)
  obtain p w' where st: "callback_step e (SQLSessionRepository e) (Auth0Gateway_provider e g) (cb i) (phase_of c i) (shared c) = (p, w')"
    by fastforce
  from step_ok [OF inv(4,1,2) st] obtain ns where ns: "session_of w' \<subseteq>\<^sub>m session_of (shared c)"
    "w_clock (shared c) \<le> w_clock w'" "w_sent w' = w_sent (shared c) @ ns"
    "phase_ok e g w0 (w_clock w') (cb i) p (own i as @ ns)" .
  have "race_inv e g cb w0 c' (as @ map (Pair i) ns)"
    using inv ns phase_ok_later [OF inv(4) ns(2)] map_le_trans [OF ns(1) inv(1)]
    by (simp add: race_moves race_move_def st race_inv_def own_append comp_def)
  then show ?thesis ..
qed

lemma race_inv_reachable:
  assumes "(gateway_race e g cb)\<^sup>*\<^sup>* (race_start w0) c"
  shows "\<exists>as. race_inv e g cb w0 c as"
  using assms
proof (induction rule: rtranclp_induct)
  case base
  have "race_inv e g cb w0 (race_start w0) []" by (simp add: race_inv_def race_start_def own_def)
  then show ?case ..
next
  case (step c c')
  then show ?case using race_inv_step by blast
qed

subsection \<open>Two callbacks for one session\<close>

lemma Get_finds:
  assumes "db_fault e (w_db w) = None" "pg_uuid e sid = Some u" "session_of w u = Some s"
  shows "fst (Get e ctx sid w) = Inr s"
  using assms
  by (auto simp: Get_def db_get_def select_session_def session_of_def find_filter_hd Let_def split: list.splits)

lemma race_moves_to:
  assumes "callback_step e (SQLSessionRepository e) (Auth0Gateway_provider e g) (cb i) (phase_of c i) (shared c) = (p, w')"
    and "\<And>r. phase_of c i \<noteq> Finished r"
  shows "gateway_race e g cb c \<lparr>phase_of = (phase_of c)(i := p), shared = w'\<rparr>"
  using race_moves [of c i e "SQLSessionRepository e" "Auth0Gateway_provider e g" cb] assms by (simp add: race_move_def)

text \<open>
  A healthy system: the session is stored and in its window, the database and the provider
  answer, and the two callbacks bring the session's cookie and state.
\<close>

lemma race_both:
  assumes "pg_uuid e sid = Some u" "session_of w0 u = Some s" "\<forall>n. db_fault e n = None" "\<forall>n. \<not> expires_at s < clock e n"
    and cb: "\<forall>i<2. cb_sid (cb i) = sid \<and> cb_state (cb i) = session_state s"
    and prov: "\<forall>ctx code w. \<exists>toks. fst (ExchangeCode e g ctx code (code_verifier s) w) = Inr toks \<and>
      (\<forall>ctx' w'. \<exists>user. fst (GetUserInfo e g ctx' (access_token toks) w') = Inr user)"
  shows "\<exists>c r0 r1. (gateway_race e g cb)\<^sup>*\<^sup>* (race_start w0) c \<and>
     phase_of c 0 = Finished (Inr r0) \<and> phase_of c 1 = Finished (Inr r1) \<and>
     w_sent (shared c) = w_sent w0 @
       [exchange_post g (cb_code (cb 0)) (code_verifier s), exchange_post g (cb_code (cb 1)) (code_verifier s),
        profile_get g (access_token (snd r0)), profile_get g (access_token (snd r1))]"
proof -
  let ?c = "\<lambda>a b w. \<lparr>phase_of = (\<lambda>_. Started)(0 := a, 1 := b), shared = w\<rparr>" and ?race = "gateway_race e g cb"
  let ?step = "\<lambda>i. callback_step e (SQLSessionRepository e) (Auth0Gateway_provider e g) (cb i)"
  have b: "cb_sid (cb 0) = sid" "cb_sid (cb 1) = sid" "cb_state (cb 0) = session_state s" "cb_state (cb 1) = session_state s"
    using cb by simp_all
  have left: "?race (?c p q w) (?c p' q w')" if "?step 0 p w = (p', w')" "\<And>r. p \<noteq> Finished r" for p p' q w w'
    using race_moves_to [of e g cb 0 "?c p q w"] that by (simp add: fun_upd_twist)
  have right: "?race (?c p q w) (?c p q' w')" if "?step 1 q w = (q', w')" "\<And>r. q \<noteq> Finished r" for p q q' w w'
    using race_moves_to [of e g cb 1 "?c p q w"] that by simp
  define w1 where "w1 = snd (Get e (cb_ctx (cb 0)) sid w0)"
  define w2 where "w2 = snd (Get e (cb_ctx (cb 1)) sid w1)"
  define w4 where "w4 = snd (Delete e (cb_ctx (cb 1)) sid (snd (Delete e (cb_ctx (cb 0)) sid w2)))"
  define w6 where "w6 = snd (time_now e (snd (time_now e w4)))"
  have ses: "session_of w1 u = Some s" unfolding w1_def using assms(2) session_of_cong [OF Get_sessions] by metis
  have g1: "?step 0 Started w0 = (Got s, w1)" and g2: "?step 1 Started w1 = (Got s, w2)"
    using Get_finds [OF _ assms(1,2), of "cb_ctx (cb 0)"] Get_finds [OF _ assms(1) ses, of "cb_ctx (cb 1)"] assms(3)
    by (auto simp: SQLSessionRepository_def b b [unfolded One_nat_def] w1_def w2_def split: prod.split sum.split)
  have d1: "?step 0 (Got s) w2 = (Deleted s, snd (Delete e (cb_ctx (cb 0)) sid w2))"
    and d2: "?step 1 (Got s) (snd (Delete e (cb_ctx (cb 0)) sid w2)) = (Deleted s, w4)"
    by (simp_all add: SQLSessionRepository_def b b [unfolded One_nat_def] w4_def)
  have k: "?step i (Deleted s) w = (Checked s, snd (time_now e w))" if "cb_state (cb i) = session_state s" for i w
    using assms(4) that by (simp add: time_now_def IsExpired_def time_after_def)
  obtain t0 w7 where x0: "ExchangeCode e g (cb_ctx (cb 0)) (cb_code (cb 0)) (code_verifier s) w6 = (Inr t0, w7)"
    "\<And>ctx w. \<exists>user. fst (GetUserInfo e g ctx (access_token t0) w) = Inr user"
    using prov by (metis prod.collapse)
  obtain t1 w8 where x1: "ExchangeCode e g (cb_ctx (cb 1)) (cb_code (cb 1)) (code_verifier s) w7 = (Inr t1, w8)"
    "\<And>ctx w. \<exists>user. fst (GetUserInfo e g ctx (access_token t1) w) = Inr user"
    using prov by (metis prod.collapse)
  have e0: "?step 0 (Checked s) w6 = (Exchanged s t0, w7)" and e1: "?step 1 (Checked s) w7 = (Exchanged s t1, w8)"
    using x0(1) x1(1) by (simp_all add: Auth0Gateway_provider_def)
  obtain u0 v0 where y0: "GetUserInfo e g (cb_ctx (cb 0)) (access_token t0) w8 = (Inr u0, v0)"
    using x0(2) by (metis prod.collapse)
  then obtain w9 where f0: "?step 0 (Exchanged s t0) w8 = (Finished (Inr (u0, t0)), w9)" "w_sent w9 = w_sent v0"
    by (simp add: Auth0Gateway_provider_def)
  obtain u1 v1 where y1: "GetUserInfo e g (cb_ctx (cb 1)) (access_token t1) w9 = (Inr u1, v1)"
    using x1(2) by (metis prod.collapse)
  then obtain w10 where f1: "?step 1 (Exchanged s t1) w9 = (Finished (Inr (u1, t1)), w10)" "w_sent w10 = w_sent v1"
    by (simp add: Auth0Gateway_provider_def)
  have "?race (race_start w0) (?c (Got s) Started w1)" using left [OF g1, of Started] by (simp add: race_start_def fun_upd_idem)
  moreover note right [OF g2, of "Got s"] left [OF d1, of "Got s"] right [OF d2, of "Deleted s"]
    left [OF k [OF b(3)], of "Deleted s" w4] right [OF k [OF b(4)], of "Checked s" "snd (time_now e w4)"]
    left [OF e0, of "Checked s"] right [OF e1, of "Exchanged s t0"] left [OF f0(1), of "Exchanged s t1"]
    right [OF f1(1), of "Finished (Inr (u0, t0))"]
  ultimately have "?race\<^sup>*\<^sup>* (race_start w0) (?c (Finished (Inr (u0, t0))) (Finished (Inr (u1, t1))) w10)"
    unfolding w6_def [symmetric] by (simp del: fun_upd_apply)
  moreover have "w_sent w6 = w_sent w0" by (simp add: w6_def w4_def w2_def w1_def time_now_def)
  then have "w_sent w10 = w_sent w0 @
      [exchange_post g (cb_code (cb 0)) (code_verifier s), exchange_post g (cb_code (cb 1)) (code_verifier s),
       profile_get g (access_token t0), profile_get g (access_token t1)]"
    using exchange_sends [OF x0(1)] exchange_sends [OF x1(1)] profile_sends [OF y0] profile_sends [OF y1] f0(2) f1(2)
    by simp
  ultimately show ?thesis
    by (intro exI [of _ "?c (Finished (Inr (u0, t0))) (Finished (Inr (u1, t1))) w10"] exI [of _ "(u0, t0)"] exI [of _ "(u1, t1)"]) simp
qed

definition race_world :: world where
  "race_world = snd (Save sample_env background sample_session world_init)"

definition stored_session :: auth_session where
  "stored_session = sample_session\<lparr>created_at := Instant 1700000000000000000\<rparr>"

definition sample_callbacks :: "nat \<Rightarrow> callback" where
  "sample_callbacks i =
     \<lparr>cb_ctx = background, cb_sid = session_id sample_session, cb_code = ''c'' @ nat_dec i, cb_state = ''st''\<rparr>"

text \<open>A system at rest, whose clock stands still.\<close>

definition race_env :: env where
  "race_env = sample_env\<lparr>clock := (\<lambda>_. Instant 1700000000000000000)\<rparr>"

lemma sample_answers:
  "\<exists>toks. fst (ExchangeCode race_env sample_gateway ctx code v w) = Inr toks"
  "\<exists>user. fst (GetUserInfo race_env sample_gateway ctx token w) = Inr user"
proof -
  have "(case token_answer race_env \<lparr>rs_status = 200, rs_body = BodyData ''{}''\<rparr> of Inr _ \<Rightarrow> True | Inl _ \<Rightarrow> False)"
    "(case userinfo_answer race_env \<lparr>rs_status = 200, rs_body = BodyData ''{}''\<rparr> of Inr _ \<Rightarrow> True | Inl _ \<Rightarrow> False)"
    by code_simp+
  then obtain t q where "token_answer race_env \<lparr>rs_status = 200, rs_body = BodyData ''{}''\<rparr> = Inr t"
    "userinfo_answer race_env \<lparr>rs_status = 200, rs_body = BodyData ''{}''\<rparr> = Inr q"
    by (auto split: sum.splits)
  moreover have "breaker race_env k = None" "request_err race_env url = None"
    "transport race_env k req = Inr \<lparr>rs_status = 200, rs_body = BodyData ''{}''\<rparr>" for k url req
    by (simp_all add: race_env_def sample_env_def)
  ultimately show "\<exists>toks. fst (ExchangeCode race_env sample_gateway ctx code v w) = Inr toks"
    "\<exists>user. fst (GetUserInfo race_env sample_gateway ctx token w) = Inr user"
    by (simp_all add: ExchangeCode_def sendTokenRequest_def GetUserInfo_def send_userinfo_def breaker_execute_def
        new_request_def http_do_def Let_def)
qed

lemma sample_stored: "pg_uuid sample_env (session_id sample_session) = Some (session_id sample_session)"
  "session_of race_world (session_id sample_session) = Some stored_session"
proof -
  show "pg_uuid sample_env (session_id sample_session) = Some (session_id sample_session)" by code_simp
  have "(case fst (Get sample_env background (session_id sample_session) race_world) of Inr s \<Rightarrow> s = stored_session | Inl _ \<Rightarrow> False)"
    by code_simp
  then obtain w' where "Get sample_env background (session_id sample_session) race_world = (Inr stored_session, w')"
    by (cases "Get sample_env background (session_id sample_session) race_world") (auto split: sum.splits)
  then obtain u where "pg_uuid sample_env (session_id sample_session) = Some u" "session_of race_world u = Some stored_session"
    by (rule Get_found)
  with \<open>pg_uuid sample_env (session_id sample_session) = Some (session_id sample_session)\<close>
  show "session_of race_world (session_id sample_session) = Some stored_session" by simp
qed

lemma race_env_like: "pg_uuid race_env = pg_uuid sample_env" "db_fault race_env n = None"
  by (simp_all add: race_env_def sample_env_def)

lemma race_open: "\<not> expires_at stored_session < clock race_env n" "session_state stored_session = ''st''"
  by (simp_all add: race_env_def stored_session_def sample_session_def less_instant_def)

lemma sample_healthy:
  "pg_uuid race_env (session_id sample_session) = Some (session_id sample_session)"
  "session_of race_world (session_id sample_session) = Some stored_session"
  "\<forall>n. db_fault race_env n = None" "\<forall>n. \<not> expires_at stored_session < clock race_env n"
  "\<forall>i<2. cb_sid (sample_callbacks i) = session_id sample_session \<and> cb_state (sample_callbacks i) = session_state stored_session"
  "\<forall>ctx code w. \<exists>toks. fst (ExchangeCode race_env sample_gateway ctx code (code_verifier stored_session) w) = Inr toks \<and>
    (\<forall>ctx' w'. \<exists>user. fst (GetUserInfo race_env sample_gateway ctx' (access_token toks) w') = Inr user)"
  using sample_stored sample_answers race_open by (simp_all add: race_env_like sample_callbacks_def)

lemma sample_race:
  "\<exists>c r0 r1. (gateway_race race_env sample_gateway sample_callbacks)\<^sup>*\<^sup>* (race_start race_world) c \<and>
     phase_of c 0 = Finished (Inr r0) \<and> phase_of c 1 = Finished (Inr r1)"
  using race_both [OF sample_healthy] by blast

text \<open>The phase of a callback tells what it has sent.\<close>

lemma phase_trace:
  assumes "phase_ok e g w0 n b p rs"
  shows "(rs = [] \<and> (\<forall>r. p \<noteq> Finished (Inr r))) \<or>
     (\<exists>s. passed e w0 n b s \<and>
        ((rs = [exchange_post g (cb_code b) (code_verifier s)] \<and> (\<forall>r. p \<noteq> Finished (Inr r))) \<or>
         (\<exists>toks. rs = [exchange_post g (cb_code b) (code_verifier s), profile_get g (access_token toks)] \<and>
            (\<forall>r. p = Finished (Inr r) \<longrightarrow> snd r = toks))))"
proof (cases p)
  case (Finished r)
  from assms [unfolded Finished] consider "rs = []" "isl r"
    | s where "passed e w0 n b s" "rs = [exchange_post g (cb_code b) (code_verifier s)]" "isl r"
    | s toks where "passed e w0 n b s" "isl r \<or> (\<exists>user. r = Inr (user, toks))"
        "rs = [exchange_post g (cb_code b) (code_verifier s), profile_get g (access_token toks)]" by auto
  then show ?thesis unfolding Finished by cases fastforce+
qed (use assms in auto)

subsection \<open>Properties\<close>

text \<open>
  C29 (race_exchanges_are_checked): in every interleaving of any callbacks, whatever their
  cookies, codes and states and however database and network fail, each request sent belongs to
  one of the callbacks, and a callback sends nothing, or one exchange, or one exchange and then
  the profile request with the token it got. It exchanges its own code with the verifier of a
  session that the store held under its own cookie at the start, whose state is its own and whose
  window was open at a reading of the clock since; and one that succeeded has sent both.
\<close>

theorem race_exchanges_are_checked:
  assumes "(race_step e (SQLSessionRepository e) (Auth0Gateway_provider e g) cb)\<^sup>*\<^sup>* (race_start w0) c"
  shows "\<exists>as. w_sent (shared c) = w_sent w0 @ map snd as \<and>
     (\<forall>i. (own i as = [] \<and> (\<forall>r. phase_of c i \<noteq> Finished (Inr r))) \<or>
        (\<exists>u s m. pg_uuid e (cb_sid (cb i)) = Some u \<and> session_of w0 u = Some s \<and>
           session_state s = cb_state (cb i) \<and> w_clock w0 \<le> m \<and> m < w_clock (shared c) \<and> \<not> expires_at s < clock e m \<and>
           ((own i as = [exchange_post g (cb_code (cb i)) (code_verifier s)] \<and> (\<forall>r. phase_of c i \<noteq> Finished (Inr r))) \<or>
            (\<exists>toks. own i as = [exchange_post g (cb_code (cb i)) (code_verifier s), profile_get g (access_token toks)] \<and>
               (\<forall>r. phase_of c i = Finished (Inr r) \<longrightarrow> snd r = toks)))))"
proof -
  from race_inv_reachable [OF assms] obtain as where as: "w_sent (shared c) = w_sent w0 @ map snd as"
    "phase_ok e g w0 (w_clock (shared c)) (cb i) (phase_of c i) (own i as)" for i
    by (auto simp: race_inv_def)
  show ?thesis
  proof (intro exI [of _ as] conjI as(1) allI)
    fix i
    show "(own i as = [] \<and> (\<forall>r. phase_of c i \<noteq> Finished (Inr r))) \<or>
        (\<exists>u s m. pg_uuid e (cb_sid (cb i)) = Some u \<and> session_of w0 u = Some s \<and>
           session_state s = cb_state (cb i) \<and> w_clock w0 \<le> m \<and> m < w_clock (shared c) \<and> \<not> expires_at s < clock e m \<and>
           ((own i as = [exchange_post g (cb_code (cb i)) (code_verifier s)] \<and> (\<forall>r. phase_of c i \<noteq> Finished (Inr r))) \<or>
            (\<exists>toks. own i as = [exchange_post g (cb_code (cb i)) (code_verifier s), profile_get g (access_token toks)] \<and>
               (\<forall>r. phase_of c i = Finished (Inr r) \<longrightarrow> snd r = toks))))"
      using phase_trace [OF as(2) [of i]] unfolding passed_def held_def by blast
  qed
qed

theorem race_exchanges_are_checked_witness:
  "\<exists>c r. (gateway_race race_env sample_gateway sample_callbacks)\<^sup>*\<^sup>* (race_start race_world) c \<and>
     phase_of c 0 = Finished (Inr r) \<and>
     (\<exists>as. w_sent (shared c) = w_sent race_world @ map snd as \<and>
        own 0 as = [exchange_post sample_gateway ''c0'' (code_verifier stored_session), profile_get sample_gateway (access_token (snd r))])"
proof -
  obtain c r where c: "(gateway_race race_env sample_gateway sample_callbacks)\<^sup>*\<^sup>* (race_start race_world) c"
    "phase_of c 0 = Finished (Inr r)"
    using sample_race by blast
  from race_exchanges_are_checked [OF c(1)] obtain as where as: "w_sent (shared c) = w_sent race_world @ map snd as"
    "\<And>i. (own i as = [] \<and> (\<forall>r. phase_of c i \<noteq> Finished (Inr r))) \<or>
        (\<exists>u s m. pg_uuid race_env (cb_sid (sample_callbacks i)) = Some u \<and> session_of race_world u = Some s \<and>
           session_state s = cb_state (sample_callbacks i) \<and> w_clock race_world \<le> m \<and> m < w_clock (shared c) \<and>
           \<not> expires_at s < clock race_env m \<and>
           ((own i as = [exchange_post sample_gateway (cb_code (sample_callbacks i)) (code_verifier s)] \<and>
              (\<forall>r. phase_of c i \<noteq> Finished (Inr r))) \<or>
            (\<exists>toks. own i as = [exchange_post sample_gateway (cb_code (sample_callbacks i)) (code_verifier s),
                 profile_get sample_gateway (access_token toks)] \<and> (\<forall>r. phase_of c i = Finished (Inr r) \<longrightarrow> snd r = toks))))"
    by blast
  have "cb_code (sample_callbacks 0) = ''c0''" "cb_sid (sample_callbacks 0) = session_id sample_session"
    by code_simp+
  with as(2) [of 0] c(2) sample_stored have "own 0 as =
      [exchange_post sample_gateway ''c0'' (code_verifier stored_session), profile_get sample_gateway (access_token (snd r))]"
    by (auto simp: race_env_like)
  with c as(1) show ?thesis by blast
qed



end
