(* ===== verification/Http.thy ===== *)
theory Http
  imports World
begin

text \<open>
  The HTTP server side of Go's \<open>net/http\<close> as the handlers use it: the request, the response
  writer with the semantics of \<open>WriteHeader\<close> and \<open>Write\<close>, cookies, and the two third-party
  pieces handlers are plugged into, the chi router and the JWT middleware, as parameters
  with their documented behaviour.
\<close>

subsection \<open>Requests\<close>

record request =
  rq_method :: string
  rq_path :: string
  rq_raw_path :: string
  rq_query :: string
  rq_headers :: headers
  rq_remote :: string
  rq_body :: body
  rq_ctx :: go_ctx

text \<open>\<open>Request.Cookie\<close>: the first pair of the name in the \<open>Cookie\<close> lines whose value is well formed.\<close>

definition http_space :: "char \<Rightarrow> bool" where
  "http_space c \<longleftrightarrow> ord c \<in> {32, 9, 10, 13 :: nat}"

definition trim_http :: "string \<Rightarrow> string" where
  "trim_http s = rev (dropWhile http_space (rev (dropWhile http_space s)))"

definition cookie_byte :: "char \<Rightarrow> bool" where
  "cookie_byte c \<longleftrightarrow>
     32 \<le> ord c \<and> ord c < (127 :: nat) \<and> ord c \<noteq> (34 :: nat) \<and> c \<noteq> CHR '';'' \<and> ord c \<noteq> (92 :: nat)"

definition strip_quotes :: "string \<Rightarrow> string" where
  "strip_quotes v =
     (if length v > 1 \<and> ord (hd v) = (34 :: nat) \<and> ord (last v) = (34 :: nat)
      then butlast (tl v) else v)"

definition cookie_pair :: "string \<Rightarrow> string \<Rightarrow> string option" where
  "cookie_pair name part =
     (let p = trim_http part;
          v = strip_quotes (snd (cut (CHR ''='') p))
      in if p \<noteq> [] \<and> trim_http (fst (cut (CHR ''='') p)) = name \<and> list_all cookie_byte v
         then Some v else None)"

definition request_cookie :: "request \<Rightarrow> string \<Rightarrow> string option" where
  "request_cookie r name =
     (case List.map_filter (cookie_pair name)
             (concat (map (\<lambda>(k, line). if k = ''Cookie'' then go_split (CHR '';'') line else []) (rq_headers r))) of
        [] \<Rightarrow> None
      | v # _ \<Rightarrow> Some v)"

subsection \<open>The response writer\<close>

datatype same_site = SameSiteDefault | SameSiteLax | SameSiteStrict | SameSiteNone

record cookie =
  ck_name :: string
  ck_value :: string
  ck_path :: string
  ck_expires :: "instant option"
  ck_max_age :: int
  ck_http_only :: bool
  ck_secure :: bool
  ck_same_site :: same_site

text \<open>
  \<open>rw_sent\<close> is the status line and header that went out, fixed by the first \<open>WriteHeader\<close>;
  \<open>rw_cells\<close> are the statuses seen by the status writers wrapped around this writer,
  innermost first, which record every \<open>WriteHeader\<close> but not the implicit one of \<open>Write\<close>.
\<close>

record writer =
  rw_headers :: headers
  rw_cookies :: "cookie list"
  rw_sent :: "(nat \<times> headers \<times> cookie list) option"
  rw_body :: string
  rw_cells :: "nat list"

definition writer_init :: writer where
  "writer_init = \<lparr>rw_headers = [], rw_cookies = [], rw_sent = None, rw_body = [], rw_cells = []\<rparr>"

type_synonym handler = "writer \<Rightarrow> request \<Rightarrow> world \<Rightarrow> writer \<times> world"

definition set_header :: "string \<Rightarrow> string \<Rightarrow> writer \<Rightarrow> writer" where
  "set_header k v rw = rw\<lparr>rw_headers := header_set k v (rw_headers rw)\<rparr>"

definition set_cookie :: "cookie \<Rightarrow> writer \<Rightarrow> writer" where
  "set_cookie c rw = rw\<lparr>rw_cookies := rw_cookies rw @ [c]\<rparr>"

definition commit :: "nat \<Rightarrow> writer \<Rightarrow> writer" where
  "commit code rw =
     (if rw_sent rw = None then rw\<lparr>rw_sent := Some (code, rw_headers rw, rw_cookies rw)\<rparr> else rw)"

definition write_header :: "nat \<Rightarrow> writer \<Rightarrow> writer" where
  "write_header code rw = commit code (rw\<lparr>rw_cells := map (\<lambda>_. code) (rw_cells rw)\<rparr>)"

definition write_body :: "string \<Rightarrow> writer \<Rightarrow> writer" where
  "write_body s rw = (let rw1 = commit 200 rw in rw1\<lparr>rw_body := rw_body rw1 @ s\<rparr>)"

text \<open>\<open>json.NewEncoder(w).Encode(v)\<close> ends the value with a newline.\<close>

definition write_json :: "json \<Rightarrow> writer \<Rightarrow> writer" where
  "write_json j rw = write_body (json_print j @ [chr 10]) rw"

text \<open>The response as the client gets it once the handler returned.\<close>

definition sent_status :: "writer \<Rightarrow> nat" where
  "sent_status rw = (case rw_sent rw of Some (c, _, _) \<Rightarrow> c | None \<Rightarrow> 200)"

definition sent_header :: "writer \<Rightarrow> string \<Rightarrow> string" where
  "sent_header rw k = header_get (case rw_sent rw of Some (_, hs, _) \<Rightarrow> hs | None \<Rightarrow> rw_headers rw) k"

definition sent_cookies :: "writer \<Rightarrow> cookie list" where
  "sent_cookies rw = (case rw_sent rw of Some (_, _, cs) \<Rightarrow> cs | None \<Rightarrow> rw_cookies rw)"

text \<open>The error answer of the handlers: \<open>writeError\<close> in \<open>auth_handler.go\<close> and \<open>banking_handler.go\<close>.\<close>

definition writeError :: "nat \<Rightarrow> string \<Rightarrow> writer \<Rightarrow> writer" where
  "writeError code msg rw =
     write_json (json_map [(''error'', JStr msg)])
       (write_header code (set_header ''Content-Type'' ''application/json'' rw))"

subsection \<open>Status texts\<close>

definition status_texts :: "(nat \<times> string) list" where
  "status_texts =
     [(100, ''Continue''), (101, ''Switching Protocols''), (102, ''Processing''), (103, ''Early Hints''),
      (200, ''OK''), (201, ''Created''), (202, ''Accepted''), (203, ''Non-Authoritative Information''),
      (204, ''No Content''), (205, ''Reset Content''), (206, ''Partial Content''), (207, ''Multi-Status''),
      (208, ''Already Reported''), (226, ''IM Used''), (300, ''Multiple Choices''),
      (301, ''Moved Permanently''), (302, ''Found''), (303, ''See Other''), (304, ''Not Modified''),
      (305, ''Use Proxy''), (307, ''Temporary Redirect''), (308, ''Permanent Redirect''),
      (400, ''Bad Request''), (401, ''Unauthorized''), (402, ''Payment Required''), (403, ''Forbidden''),
      (404, ''Not Found''), (405, ''Method Not Allowed''), (406, ''Not Acceptable''),
      (407, ''Proxy Authentication Required''), (408, ''Request Timeout''), (409, ''Conflict''),
      (410, ''Gone''), (411, ''Length Required''), (412, ''Precondition Failed''),
      (413, ''Request Entity Too Large''), (414, ''Request URI Too Long''), (415, ''Unsupported Media Type''),
      (416, ''Requested Range Not Satisfiable''), (417, ''Expectation Failed''), (418, ''I'' @ [chr 39] @ ''m a teapot''),
      (421, ''Misdirected Request''), (422, ''Unprocessable Entity''), (423, ''Locked''),
      (424, ''Failed Dependency''), (425, ''Too Early''), (426, ''Upgrade Required''),
      (428, ''Precondition Required''), (429, ''Too Many Requests''),
      (431, ''Request Header Fields Too Large''), (451, ''Unavailable For Legal Reasons''),
      (500, ''Internal Server Error''), (501, ''Not Implemented''), (502, ''Bad Gateway''),
      (503, ''Service Unavailable''), (504, ''Gateway Timeout''), (505, ''HTTP Version Not Supported''),
      (506, ''Variant Also Negotiates''), (507, ''Insufficient Storage''), (508, ''Loop Detected''),
      (510, ''Not Extended''), (511, ''Network Authentication Required'')]"

definition StatusText :: "nat \<Rightarrow> string" where
  "StatusText code = (case map_of status_texts code of Some t \<Rightarrow> t | None \<Rightarrow> [])"

subsection \<open>Routers and authentication, third party\<close>

text \<open>
  A route: a method (or a star for any), a path without parameters, a handler. The chi
  router is a function \<open>mux\<close> of a list of routes. Documented: a request whose path is a
  route's, with no special encoding, goes to the handler of the first route that fits, and
  a request that fits none is answered by the router itself, with a 404 or 405.
\<close>

type_synonym route = "string \<times> string \<times> handler"

definition route_for :: "route list \<Rightarrow> request \<Rightarrow> handler option" where
  "route_for routes r =
     map_option (\<lambda>(_, _, h). h)
       (find (\<lambda>(m, p, _). (m = ''*'' \<or> m = rq_method r) \<and> p = rq_path r) routes)"

definition mux_ok :: "(route list \<Rightarrow> handler) \<Rightarrow> bool" where
  "mux_ok mux \<longleftrightarrow>
     (\<forall>routes rw r w. rq_raw_path r = [] \<longrightarrow>
        (case route_for routes r of
           Some h \<Rightarrow> mux routes rw r w = h rw r w
         | None \<Rightarrow> snd (mux routes rw r w) = w \<and>
             (rw_sent rw = None \<longrightarrow> sent_status (fst (mux routes rw r w)) \<in> {404, 405})))"

text \<open>A router of that kind, for evaluation.\<close>

definition static_mux :: "route list \<Rightarrow> handler" where
  "static_mux routes rw r w =
     (case route_for routes r of
        Some h \<Rightarrow> h rw r w
      | None \<Rightarrow> (write_body ''404 page not found'' (write_header 404 rw), w))"

lemma static_mux_ok: "mux_ok static_mux"
  by (simp add: mux_ok_def static_mux_def sent_status_def write_body_def write_header_def commit_def split: option.split)

text \<open>
  The JWT middleware, a function of the handler it protects. Documented: it either answers
  the request itself, or calls the handler with the claims it validated in the context.
\<close>

definition with_claims :: "string \<Rightarrow> request \<Rightarrow> request" where
  "with_claims subj r = r\<lparr>rq_ctx := (rq_ctx r)\<lparr>ctx_claims := Some (Some subj)\<rparr>\<rparr>"

definition jwt_gate :: "(handler \<Rightarrow> handler) \<Rightarrow> bool" where
  "jwt_gate check \<longleftrightarrow>
     (\<forall>rw r w. (\<forall>next. snd (check next rw r w) = w \<and>
           (rw_sent rw = None \<longrightarrow> sent_status (fst (check next rw r w)) \<noteq> 200)) \<or>
        (\<exists>subj. \<forall>next. check next rw r w = next rw (with_claims subj r) w))"

text \<open>A gate that lets bearers of one token in, for evaluation.\<close>

definition sample_gate :: "handler \<Rightarrow> handler" where
  "sample_gate next rw r w =
     (if header_get (rq_headers r) ''Authorization'' = ''Bearer good''
      then next rw (with_claims ''alice'' r) w
      else (write_header 401 rw, w))"

lemma sample_gate_ok: "jwt_gate sample_gate"
  by (simp add: jwt_gate_def sample_gate_def sent_status_def write_header_def commit_def) blast

subsection \<open>Laws of the writer\<close>

lemma commit_simps [simp]:
  "rw_headers (commit c rw) = rw_headers rw" "rw_cookies (commit c rw) = rw_cookies rw"
  "rw_body (commit c rw) = rw_body rw" "rw_cells (commit c rw) = rw_cells rw"
  by (simp_all add: commit_def)

lemma sent_once: "rw_sent rw = Some x \<Longrightarrow> rw_sent (commit c rw) = Some x"
  by (simp add: commit_def)

lemma set_header_simps [simp]:
  "rw_sent (set_header k v rw) = rw_sent rw" "rw_cookies (set_header k v rw) = rw_cookies rw"
  "rw_body (set_header k v rw) = rw_body rw" "rw_cells (set_header k v rw) = rw_cells rw"
  "rw_headers (set_header k v rw) = header_set k v (rw_headers rw)"
  by (simp_all add: set_header_def)

lemma set_cookie_simps [simp]:
  "rw_sent (set_cookie c rw) = rw_sent rw" "rw_cookies (set_cookie c rw) = rw_cookies rw @ [c]"
  "rw_body (set_cookie c rw) = rw_body rw" "rw_cells (set_cookie c rw) = rw_cells rw"
  "rw_headers (set_cookie c rw) = rw_headers rw"
  by (simp_all add: set_cookie_def)

lemma write_header_simps [simp]:
  "rw_headers (write_header c rw) = rw_headers rw" "rw_cookies (write_header c rw) = rw_cookies rw"
  "rw_body (write_header c rw) = rw_body rw" "rw_cells (write_header c rw) = map (\<lambda>_. c) (rw_cells rw)"
  "rw_sent (write_header c rw) = (case rw_sent rw of None \<Rightarrow> Some (c, rw_headers rw, rw_cookies rw) | Some x \<Rightarrow> Some x)"
  by (auto simp: write_header_def commit_def split: option.split)

lemma write_body_simps [simp]:
  "rw_headers (write_body s rw) = rw_headers rw" "rw_cookies (write_body s rw) = rw_cookies rw"
  "rw_body (write_body s rw) = rw_body rw @ s" "rw_cells (write_body s rw) = rw_cells rw"
  "rw_sent (write_body s rw) = (case rw_sent rw of None \<Rightarrow> Some (200, rw_headers rw, rw_cookies rw) | Some x \<Rightarrow> Some x)"
  by (auto simp: write_body_def Let_def commit_def split: option.split)

lemma write_json_simps [simp]:
  "rw_headers (write_json j rw) = rw_headers rw" "rw_cookies (write_json j rw) = rw_cookies rw"
  "rw_body (write_json j rw) = rw_body rw @ json_print j @ [chr 10]" "rw_cells (write_json j rw) = rw_cells rw"
  "rw_sent (write_json j rw) = (case rw_sent rw of None \<Rightarrow> Some (200, rw_headers rw, rw_cookies rw) | Some x \<Rightarrow> Some x)"
  by (simp_all add: write_json_def)

lemma writeError_status [simp]: "rw_sent rw = None \<Longrightarrow> sent_status (writeError c m rw) = c"
  by (simp add: writeError_def sent_status_def)

lemma writeError_sent: "rw_sent rw = None \<Longrightarrow>
   rw_sent (writeError c m rw) = Some (c, header_set ''Content-Type'' ''application/json'' (rw_headers rw), rw_cookies rw)"
  by (simp add: writeError_def)

end
