(* ===== verification/Telemetry.thy ===== *)
theory Telemetry
  imports Http
begin

text \<open>
  \<open>internal/adapters/telemetry/prometheus_metrics.go\<close>: the middleware that counts and times
  every request. The status writer it wraps around the response is a cell of the writer
  that \<open>WriteHeader\<close> fills; the labels under which the histogram and the counter are
  updated, with the duration observed, go to \<open>w_metrics\<close>.
\<close>

definition push_cell :: "writer \<Rightarrow> writer" where
  "push_cell rw = rw\<lparr>rw_cells := 200 # rw_cells rw\<rparr>"

definition pop_cell :: "writer \<Rightarrow> writer" where
  "pop_cell rw = rw\<lparr>rw_cells := tl (rw_cells rw)\<rparr>"

definition metric_path :: "string \<Rightarrow> string" where
  "metric_path path =
     (if has_prefix path ''/private/transfers/'' then ''/private/transfers/:id'' else path)"

definition MetricsMiddleware :: "env \<Rightarrow> handler \<Rightarrow> handler" where
  "MetricsMiddleware e next rw r w =
     (let (start, w1) = time_now e w;
          (sw, w2) = next (push_cell rw) r w1;
          (now, w3) = time_now e w2;
          duration = nanos now - nanos start;
          status = hd (rw_cells sw)
      in (pop_cell sw,
          w3\<lparr>w_metrics := w_metrics w3 @
               [((rq_method r, metric_path (rq_path r), StatusText status), duration)]\<rparr>))"

lemma MetricsMiddleware_fst:
  "fst (MetricsMiddleware e next rw r w) = pop_cell (fst (next (push_cell rw) r (snd (time_now e w))))"
  by (simp add: MetricsMiddleware_def Let_def split: prod.split)

lemma MetricsMiddleware_snd:
  "snd (MetricsMiddleware e next rw r w) =
     (let (sw, w2) = next (push_cell rw) r (snd (time_now e w)); w3 = snd (time_now e w2)
      in w3\<lparr>w_metrics := w_metrics w3 @
            [((rq_method r, metric_path (rq_path r), StatusText (hd (rw_cells sw))),
              nanos (clock e (w_clock w2)) - nanos (clock e (w_clock w)))]\<rparr>)"
  by (simp add: MetricsMiddleware_def Let_def time_now_def split: prod.split)

subsection \<open>Orderly handlers\<close>

text \<open>
  A handler that sends one status line, before any body, keeps the status writers in step
  with what the client gets. All handlers of the program do.
\<close>

definition in_step :: "writer \<Rightarrow> bool" where
  "in_step rw \<longleftrightarrow> list_all (\<lambda>c. c = sent_status rw) (rw_cells rw)"

definition orderly :: "handler \<Rightarrow> bool" where
  "orderly h \<longleftrightarrow>
     (\<forall>rw r w. rw_sent rw = None \<and> in_step rw \<longrightarrow>
        in_step (fst (h rw r w)) \<and> length (rw_cells (fst (h rw r w))) = length (rw_cells rw))"

lemma orderlyD:
  assumes "orderly h" "rw_sent rw = None" "in_step rw"
  shows "in_step (fst (h rw r w))" "length (rw_cells (fst (h rw r w))) = length (rw_cells rw)"
  using assms by (auto simp: orderly_def)

lemma in_step_ops [intro, simp]:
  "in_step (set_header k v rw) = in_step rw"
  "in_step (set_cookie ck rw) = in_step rw"
  "rw_sent rw = None \<Longrightarrow> in_step (write_header c rw)"
  "in_step (write_body s rw) = in_step rw"
  "in_step (write_json j rw) = in_step rw"
  by (auto simp: in_step_def sent_status_def list_all_iff split: option.split)

lemma in_step_error [simp]: "rw_sent rw = None \<Longrightarrow> in_step (writeError c m rw)"
  by (simp add: writeError_def)

lemma cells_error [simp]: "length (rw_cells (writeError c m rw)) = length (rw_cells rw)"
  by (simp add: writeError_def)

lemma push_in_step: "rw_sent rw = None \<Longrightarrow> in_step rw \<Longrightarrow> in_step (push_cell rw)"
  by (simp add: in_step_def push_cell_def sent_status_def)

lemma Metrics_orderly: "orderly h \<Longrightarrow> orderly (MetricsMiddleware e h)"
proof -
  assume h: "orderly h"
  have "in_step (fst (MetricsMiddleware e h rw r w)) \<and>
      length (rw_cells (fst (MetricsMiddleware e h rw r w))) = length (rw_cells rw)"
    if rw: "rw_sent rw = None" "in_step rw" for rw r w
  proof -
    let ?sw = "fst (h (push_cell rw) r (snd (time_now e w)))"
    have "rw_sent (push_cell rw) = None" using rw(1) by (simp add: push_cell_def)
    then have st: "in_step ?sw" "length (rw_cells ?sw) = Suc (length (rw_cells rw))"
      using orderlyD [OF h _ push_in_step [OF rw]] by (simp_all add: push_cell_def)
    then obtain c cs where "rw_cells ?sw = c # cs" by (cases "rw_cells ?sw") auto
    with st show ?thesis
      by (simp add: MetricsMiddleware_fst in_step_def pop_cell_def sent_status_def)
  qed
  then show ?thesis by (simp add: orderly_def)
qed

text \<open>
  Over an orderly handler the middleware counts each request exactly
  once, under the method, the path (transfers by identifier merged into one label) and the
  text of the status the client received.
\<close>

theorem metrics_label:
  assumes "orderly next" "rw_sent rw = None" "in_step rw"
  shows "\<exists>d w2. snd (next (push_cell rw) r (snd (time_now e w))) = w2 \<and>
     w_metrics (snd (MetricsMiddleware e next rw r w)) = w_metrics w2 @
       [((rq_method r,
          if has_prefix (rq_path r) ''/private/transfers/'' then ''/private/transfers/:id'' else rq_path r,
          StatusText (sent_status (fst (MetricsMiddleware e next rw r w)))), d)]"
proof -
  obtain sw w2 where nx: "next (push_cell rw) r (snd (time_now e w)) = (sw, w2)" by fastforce
  have "rw_sent (push_cell rw) = None" using assms(2) by (simp add: push_cell_def)
  then have "in_step sw" "length (rw_cells sw) = Suc (length (rw_cells rw))"
    using orderlyD [OF assms(1) _ push_in_step [OF assms(2,3)], of r "snd (time_now e w)"] nx
    by (simp_all add: push_cell_def)
  then have "hd (rw_cells sw) = sent_status sw" by (cases "rw_cells sw") (auto simp: in_step_def)
  moreover have "sent_status (pop_cell sw) = sent_status sw" by (simp add: pop_cell_def sent_status_def)
  ultimately show ?thesis
    by (simp add: MetricsMiddleware_fst MetricsMiddleware_snd metric_path_def nx)
qed

text \<open>A handler for the witness: it reports that a transfer was created.\<close>

definition created_handler :: handler where
  "created_handler rw r w = (write_json (JObj []) (write_header 201 rw), w)"

lemma created_orderly: "orderly created_handler"
  by (simp add: orderly_def created_handler_def)

definition sample_request :: request where
  "sample_request =
     \<lparr>rq_method = ''POST'', rq_path = ''/private/transfers/42'', rq_raw_path = [], rq_query = [],
      rq_headers = [], rq_remote = ''10.0.0.1:5000'', rq_body = BodyData [], rq_ctx = background\<rparr>"

theorem metrics_label_witness:
  "\<exists>d. w_metrics (snd (MetricsMiddleware sample_env created_handler writer_init sample_request world_init)) =
     [((''POST'', ''/private/transfers/:id'', ''Created''), d)]"
proof -
  have "sent_status (fst (MetricsMiddleware sample_env created_handler writer_init sample_request world_init)) = 201"
    "w_metrics (snd (created_handler (push_cell writer_init) sample_request (snd (time_now sample_env world_init)))) = []"
    by (simp_all add: MetricsMiddleware_fst created_handler_def pop_cell_def sent_status_def push_cell_def
        writer_init_def world_init_def)
  with metrics_label [OF created_orderly, of writer_init sample_request sample_env world_init] show ?thesis
    by (simp add: writer_init_def in_step_def sample_request_def has_prefix_def StatusText_def status_texts_def)
qed

end
