(* ===== verification/Middleware.thy ===== *)
theory Middleware
  imports Http Pkce Telemetry
begin

text \<open>
  \<open>internal/adapters/handler/middleware.go\<close>: the correlation identifier that every request
  gets and that the log handler adds to its records, and the construction of the JWT
  middleware over the third-party validator.
\<close>

subsection \<open>Correlation\<close>

definition GetRequestID :: "go_ctx \<Rightarrow> string" where
  "GetRequestID ctx = (case ctx_request_id ctx of Some i \<Rightarrow> i | None \<Rightarrow> [])"

text \<open>\<open>ContextHandler.Handle\<close> passes the record on, with the identifier when there is one.\<close>

definition ContextHandler_Handle :: "(go_ctx \<Rightarrow> log_record \<Rightarrow> 'a) \<Rightarrow> go_ctx \<Rightarrow> log_record \<Rightarrow> 'a" where
  "ContextHandler_Handle inner ctx rec =
     (if GetRequestID ctx \<noteq> []
      then inner ctx (LogRecord (rec_level rec) (rec_msg rec)
             (rec_attrs rec @ [(''request_id'', AStr (GetRequestID ctx))]))
      else inner ctx rec)"

text \<open>The package has a copy of its own of the UUID generator.\<close>

definition mw_generateUUIDv4 :: "env \<Rightarrow> world \<Rightarrow> string \<times> world" where
  "mw_generateUUIDv4 e w =
     (case rand_read e 16 w of (bytes, err, w') \<Rightarrow> (uuid_format (uuid_bits bytes), w'))"

definition CorrelationMiddleware :: "env \<Rightarrow> handler \<Rightarrow> handler" where
  "CorrelationMiddleware e next rw r w =
     (let given = header_get (rq_headers r) ''X-Request-ID'';
          (request_id, w1) = (if given = [] then mw_generateUUIDv4 e w else (given, w));
          ctx = (rq_ctx r)\<lparr>ctx_request_id := Some request_id\<rparr>
      in next (set_header ''X-Request-ID'' request_id rw) (r\<lparr>rq_ctx := ctx\<rparr>) w1)"

subsection \<open>The JWT middleware\<close>

text \<open>
  The third-party packages: parsing the issuer's URL and printing it again, the constructor
  of the validator for an algorithm, an issuer and an audience, and the constructor of the
  middleware over a validator. A failing constructor panics at start-up, the value \<open>None\<close>.
\<close>

record 'v jwt_lib =
  lib_parse_url :: "string \<Rightarrow> string option"
  lib_validator :: "string \<Rightarrow> string \<Rightarrow> string \<Rightarrow> go_error + 'v"
  lib_middleware :: "'v \<Rightarrow> go_error + (handler \<Rightarrow> handler)"

definition JWTMiddleware :: "'v jwt_lib \<Rightarrow> string \<Rightarrow> string \<Rightarrow> (handler \<Rightarrow> handler) option" where
  "JWTMiddleware lib domain_name audience =
     (case lib_parse_url lib (''https://'' @ domain_name @ ''/'') of
        None \<Rightarrow> None
      | Some issuer \<Rightarrow>
          (case lib_validator lib ''RS256'' issuer audience of
             Inl err \<Rightarrow> None
           | Inr v \<Rightarrow>
               (case lib_middleware lib v of
                  Inl err \<Rightarrow> None
                | Inr mw \<Rightarrow> Some mw)))"

subsection \<open>Properties\<close>

lemma mw_uuid: "mw_generateUUIDv4 e w = generateUUIDv4 e w"
  by (simp add: mw_generateUUIDv4_def generateUUIDv4_def)

lemma Correlation_orderly: "orderly h \<Longrightarrow> orderly (CorrelationMiddleware e h)"
  by (auto simp: orderly_def CorrelationMiddleware_def Let_def split: prod.splits)

text \<open>
  Every request reaches the next handler with a non-empty correlation
  identifier in its context, the one the client sent or else a fresh version 4 UUID; the
  response carries the same identifier, and every log record made under that context is
  extended with it.
\<close>

theorem correlation_id:
  "\<exists>rid ctx w1. CorrelationMiddleware e next rw r w =
        next (set_header ''X-Request-ID'' rid rw) (r\<lparr>rq_ctx := ctx\<rparr>) w1 \<and>
     rid \<noteq> [] \<and> GetRequestID ctx = rid \<and> ctx_claims ctx = ctx_claims (rq_ctx r) \<and>
     (if header_get (rq_headers r) ''X-Request-ID'' = []
      then length rid = 36 \<and> rid ! 14 = CHR ''4''
      else rid = header_get (rq_headers r) ''X-Request-ID'' \<and> w1 = w) \<and>
     ContextHandler_Handle inner ctx (LogRecord l msg attrs) =
       inner ctx (LogRecord l msg (attrs @ [(''request_id'', AStr rid)]))"
proof (cases "header_get (rq_headers r) ''X-Request-ID'' = []")
  case True
  obtain u w1 where u: "generateUUIDv4 e w = (u, w1)" by fastforce
  then have "length u = 36" "u ! 14 = CHR ''4''" using generateUUIDv4_shape by metis+
  moreover from this have "u \<noteq> []" by auto
  ultimately show ?thesis using True u
    by (intro exI [of _ u] exI [of _ "(rq_ctx r)\<lparr>ctx_request_id := Some u\<rparr>"] exI [of _ w1])
       (simp add: CorrelationMiddleware_def mw_uuid GetRequestID_def ContextHandler_Handle_def)
next
  case False
  then show ?thesis
    by (intro exI [of _ "header_get (rq_headers r) ''X-Request-ID''"]
        exI [of _ "(rq_ctx r)\<lparr>ctx_request_id := Some (header_get (rq_headers r) ''X-Request-ID'')\<rparr>"] exI [of _ w])
       (simp add: CorrelationMiddleware_def GetRequestID_def ContextHandler_Handle_def Let_def)
qed

end
