(* ===== verification/AuthHandler.thy ===== *)
theory AuthHandler
  imports Middleware AuthService
begin

text \<open>
  \<open>internal/adapters/handler/auth_handler.go\<close>: the HTTP side of the login flow. Every
  handler works on the service's operations over a repository and a provider; \<open>AuthRoutes\<close>
  puts them behind the middlewares and the router in the order of the source.
\<close>

subsection \<open>Cookies\<close>

definition SessionCookieName :: string where "SessionCookieName = ''session_id''"
definition RefreshTokenCookieName :: string where "RefreshTokenCookieName = ''refresh_token''"

definition live_cookie :: "string \<Rightarrow> string \<Rightarrow> instant \<Rightarrow> cookie" where
  "live_cookie name v t =
     \<lparr>ck_name = name, ck_value = v, ck_path = ''/'', ck_expires = Some t, ck_max_age = 0,
      ck_http_only = True, ck_secure = True, ck_same_site = SameSiteStrict\<rparr>"

definition clear_cookie :: "string \<Rightarrow> cookie" where
  "clear_cookie name =
     \<lparr>ck_name = name, ck_value = [], ck_path = ''/'', ck_expires = None, ck_max_age = - 1,
      ck_http_only = True, ck_secure = True, ck_same_site = SameSiteStrict\<rparr>"

text \<open>The block that sets a rotated refresh token for thirty days, in \<open>Callback\<close> and \<open>Refresh\<close>.\<close>

definition set_refresh_cookie :: "env \<Rightarrow> token_pair \<Rightarrow> writer \<Rightarrow> world \<Rightarrow> writer \<times> world" where
  "set_refresh_cookie e toks rw w =
     (if refresh_token toks \<noteq> []
      then (case time_now e w of (now, w1) \<Rightarrow>
              (set_cookie (live_cookie RefreshTokenCookieName (refresh_token toks)
                 (time_add now (30 * 24 * hour))) rw, w1))
      else (rw, w))"

subsection \<open>Handlers\<close>

definition Login :: "env \<Rightarrow> session_repo \<Rightarrow> auth_provider \<Rightarrow> handler" where
  "Login e repo prov rw r w =
     (let redirect = query_get (rq_query r) ''redirect_uri'' in
      if redirect = [] then (writeError 400 ''Missing redirect_uri parameter'' rw, w)
      else (case InitiateAuth e repo prov (rq_ctx r) redirect w of
          (Inl err, w1) \<Rightarrow>
            (writeError 500 ''Internal Server Error'' rw,
             ErrorContext (rq_ctx r) ''failed to initiate authorization'' [(''error'', AErr err)] w1)
        | (Inr (url, sid), w1) \<Rightarrow>
            (let (now, w2) = time_now e w1;
                 rw1 = set_cookie (live_cookie SessionCookieName sid (time_add now (10 * minute))) rw
             in (write_header 302 (set_header ''Location'' url rw1), w2))))"

definition Callback :: "env \<Rightarrow> session_repo \<Rightarrow> auth_provider \<Rightarrow> handler" where
  "Callback e repo prov rw r w =
     (case request_cookie r SessionCookieName of
        None \<Rightarrow> (writeError 400 ''Missing state session cookie'' rw, w)
      | Some sid \<Rightarrow>
     (let code = query_get (rq_query r) ''code''; state = query_get (rq_query r) ''state'' in
      if code = [] \<or> state = [] then (writeError 400 ''Missing authorization parameters'' rw, w)
      else (case HandleCallback e repo prov (rq_ctx r) sid code state w of
          (Inl err, w1) \<Rightarrow>
            (let w2 = ErrorContext (rq_ctx r) ''callback exchange failed'' [(''error'', AErr err)] w1 in
             if errors_is err ErrSessionExpired \<or> errors_is err ErrInvalidState
             then (writeError 401 (error_string err) rw, w2)
             else (writeError 500 ''Token exchange failed'' rw, w2))
        | (Inr (user, toks), w1) \<Rightarrow>
            (let rw1 = set_cookie (clear_cookie SessionCookieName) rw;
                 (rw2, w2) = set_refresh_cookie e toks rw1 w1
             in (write_json (json_map [(''user'', user_json user), (''access_token'', JStr (access_token toks)),
                                       (''expires_in'', JNum (int_dec (expires_in toks)))])
                   (set_header ''Content-Type'' ''application/json'' rw2), w2)))))"

definition Refresh :: "env \<Rightarrow> auth_provider \<Rightarrow> handler" where
  "Refresh e prov rw r w =
     (case request_cookie r RefreshTokenCookieName of
        None \<Rightarrow> (writeError 400 ''Missing refresh token cookie'' rw, w)
      | Some token \<Rightarrow>
     (case RefreshToken prov (rq_ctx r) token w of
        (Inl err, w1) \<Rightarrow>
          (writeError 401 ''Invalid refresh token'' rw,
           ErrorContext (rq_ctx r) ''refresh rotation failed'' [(''error'', AErr err)] w1)
      | (Inr toks, w1) \<Rightarrow>
          (let (rw1, w2) = set_refresh_cookie e toks rw w1
           in (write_json (json_map [(''access_token'', JStr (access_token toks)),
                                     (''expires_in'', JNum (int_dec (expires_in toks)))])
                 (set_header ''Content-Type'' ''application/json'' rw1), w2))))"

definition Logout :: "auth_provider \<Rightarrow> handler" where
  "Logout prov rw r w =
     (let w1 = (case request_cookie r RefreshTokenCookieName of
                  Some token \<Rightarrow> snd (RevokeToken prov (rq_ctx r) token w)
                | None \<Rightarrow> w)
      in (write_header 204 (set_cookie (clear_cookie RefreshTokenCookieName) rw), w1))"

definition UserInfo :: handler where
  "UserInfo rw r w =
     (write_json (json_map [(''status'', JStr ''authenticated'')])
        (set_header ''Content-Type'' ''application/json'' rw), w)"

definition Health :: handler where
  "Health rw r w =
     (write_json (json_map [(''status'', JStr ''UP'')])
        (set_header ''Content-Type'' ''application/json'' rw), w)"

text \<open>
  \<open>Routes\<close>: correlation around metrics around the router; the JWT middleware around the two
  authenticated handlers. \<open>mux\<close> is the chi router, \<open>jwt\<close> the middleware that
  \<open>JWTMiddleware\<close> returned, \<open>metrics\<close> the Prometheus exposition handler.
\<close>

definition auth_table ::
  "env \<Rightarrow> session_repo \<Rightarrow> auth_provider \<Rightarrow> (handler \<Rightarrow> handler) \<Rightarrow> handler \<Rightarrow> route list" where
  "auth_table e repo prov jwt metrics =
     [(''GET'', ''/login'', Login e repo prov),
      (''GET'', ''/callback'', Callback e repo prov),
      (''POST'', ''/refresh'', Refresh e prov),
      (''GET'', ''/health'', Health),
      (''*'', ''/metrics'', metrics),
      (''POST'', ''/logout'', jwt (Logout prov)),
      (''GET'', ''/userinfo'', jwt UserInfo)]"

definition AuthRoutes ::
  "env \<Rightarrow> session_repo \<Rightarrow> auth_provider \<Rightarrow> (route list \<Rightarrow> handler) \<Rightarrow> (handler \<Rightarrow> handler) \<Rightarrow> handler \<Rightarrow> handler" where
  "AuthRoutes e repo prov mux jwt metrics =
     CorrelationMiddleware e (MetricsMiddleware e (mux (auth_table e repo prov jwt metrics)))"

subsection \<open>Orderly handlers\<close>

lemma set_refresh_cookie_keeps [simp]:
  "rw_sent (fst (set_refresh_cookie e t rw w)) = rw_sent rw"
  "rw_headers (fst (set_refresh_cookie e t rw w)) = rw_headers rw"
  "rw_body (fst (set_refresh_cookie e t rw w)) = rw_body rw"
  "rw_cells (fst (set_refresh_cookie e t rw w)) = rw_cells rw"
  "in_step (fst (set_refresh_cookie e t rw w)) = in_step rw"
  "w_sent (snd (set_refresh_cookie e t rw w)) = w_sent w"
  by (simp_all add: set_refresh_cookie_def split: prod.split) (simp_all add: time_now_def)

lemma set_refresh_cookie_cookies:
  "rw_cookies (fst (set_refresh_cookie e t rw w)) = rw_cookies rw @
     (if refresh_token t = [] then []
      else [live_cookie RefreshTokenCookieName (refresh_token t) (time_add (clock e (w_clock w)) (30 * 24 * hour))])"
  by (simp add: set_refresh_cookie_def time_now_def)

lemma set_refresh_cookie_pair:
  "set_refresh_cookie e t rw w = (rw1, w1) \<Longrightarrow>
     rw_sent rw1 = rw_sent rw \<and> rw_headers rw1 = rw_headers rw \<and> rw_body rw1 = rw_body rw \<and>
     rw_cells rw1 = rw_cells rw \<and> in_step rw1 = in_step rw \<and> w_sent w1 = w_sent w"
  using set_refresh_cookie_keeps [of e t rw w] by auto

lemma handlers_orderly:
  "orderly (Login e repo prov)" "orderly (Callback e repo prov)" "orderly (Refresh e prov)"
  "orderly (Logout prov)" "orderly UserInfo" "orderly Health"
proof -
  show "orderly (Login e repo prov)"
    by (auto simp: orderly_def Login_def Let_def split: prod.splits sum.splits)
  show "orderly (Callback e repo prov)"
    by (auto simp: orderly_def Callback_def Let_def dest!: set_refresh_cookie_pair
        split: prod.splits sum.splits option.splits)
  show "orderly (Refresh e prov)"
    by (auto simp: orderly_def Refresh_def Let_def dest!: set_refresh_cookie_pair
        split: prod.splits sum.splits option.splits)
  show "orderly (Logout prov)" "orderly UserInfo" "orderly Health"
    by (auto simp: orderly_def Logout_def UserInfo_def Health_def)
qed

subsection \<open>Properties\<close>

text \<open>Cookies a script cannot read, sent over TLS to the own site only.\<close>

definition cookie_strict :: "cookie \<Rightarrow> bool" where
  "cookie_strict c \<longleftrightarrow>
     ck_http_only c \<and> ck_secure c \<and> ck_same_site c = SameSiteStrict \<and> ck_path c = ''/''"

lemma strict_cookies [simp]: "cookie_strict (live_cookie n v t)" "cookie_strict (clear_cookie n)"
  by (simp_all add: cookie_strict_def live_cookie_def clear_cookie_def)

lemma set_refresh_cookie_strict:
  "set_refresh_cookie e t rw w = (rw1, w1) \<Longrightarrow>
     \<exists>cs. rw_cookies rw1 = rw_cookies rw @ cs \<and> list_all cookie_strict cs"
  using set_refresh_cookie_cookies [of e t rw w] by auto

lemma writeError_cookies [simp]: "rw_cookies (writeError c m rw) = rw_cookies rw"
  by (simp add: writeError_def)

text \<open>
  Every cookie that any handler of the login flow sets, to hand one
  out or to clear it, is \<open>HttpOnly\<close>, \<open>Secure\<close>, \<open>SameSite=Strict\<close> and for the whole site.
\<close>

theorem auth_cookies_strict:
  "(\<exists>cs. rw_cookies (fst (Login e repo prov rw r w)) = rw_cookies rw @ cs \<and> list_all cookie_strict cs) \<and>
   (\<exists>cs. rw_cookies (fst (Callback e repo prov rw r w)) = rw_cookies rw @ cs \<and> list_all cookie_strict cs) \<and>
   (\<exists>cs. rw_cookies (fst (Refresh e prov rw r w)) = rw_cookies rw @ cs \<and> list_all cookie_strict cs) \<and>
   (\<exists>cs. rw_cookies (fst (Logout prov rw r w)) = rw_cookies rw @ cs \<and> list_all cookie_strict cs)"
proof (intro conjI)
  show "\<exists>cs. rw_cookies (fst (Login e repo prov rw r w)) = rw_cookies rw @ cs \<and> list_all cookie_strict cs"
    by (auto simp: Login_def Let_def split: prod.splits sum.splits)
  show "\<exists>cs. rw_cookies (fst (Callback e repo prov rw r w)) = rw_cookies rw @ cs \<and> list_all cookie_strict cs"
    by (auto simp: Callback_def Let_def dest!: set_refresh_cookie_strict
        split: prod.splits sum.splits option.splits)
  show "\<exists>cs. rw_cookies (fst (Refresh e prov rw r w)) = rw_cookies rw @ cs \<and> list_all cookie_strict cs"
    by (auto simp: Refresh_def Let_def dest!: set_refresh_cookie_strict
        split: prod.splits sum.splits option.splits)
  show "\<exists>cs. rw_cookies (fst (Logout prov rw r w)) = rw_cookies rw @ cs \<and> list_all cookie_strict cs"
    by (auto simp: Logout_def Let_def)
qed

text \<open>
  A login without a redirect URI is a 400 that touches nothing; a failure
  of the service is a 500 whose body tells nothing of the cause; otherwise the browser is sent
  to the provider with a 302 and gets the session identifier in one cookie of ten minutes.
\<close>

theorem login_response:
  assumes "rw_sent rw = None"
  shows "if query_get (rq_query r) ''redirect_uri'' = []
     then sent_status (fst (Login e repo prov rw r w)) = 400 \<and> snd (Login e repo prov rw r w) = w
     else (case InitiateAuth e repo prov (rq_ctx r) (query_get (rq_query r) ''redirect_uri'') w of
        (Inl err, w1) \<Rightarrow>
          sent_status (fst (Login e repo prov rw r w)) = 500 \<and>
          sent_cookies (fst (Login e repo prov rw r w)) = rw_cookies rw \<and>
          rw_body (fst (Login e repo prov rw r w)) =
            rw_body rw @ json_print (JObj [(''error'', JStr ''Internal Server Error'')]) @ [chr 10]
      | (Inr (url, sid), w1) \<Rightarrow>
          sent_status (fst (Login e repo prov rw r w)) = 302 \<and>
          sent_header (fst (Login e repo prov rw r w)) ''Location'' = url \<and>
          sent_cookies (fst (Login e repo prov rw r w)) =
            rw_cookies rw @ [live_cookie SessionCookieName sid (time_add (clock e (w_clock w1)) (10 * minute))])"
  using assms
  by (auto simp: Login_def Let_def time_now_def sent_status_def sent_header_def sent_cookies_def
      writeError_def json_map_def split: prod.split sum.split)

definition login_request :: request where
  "login_request =
     \<lparr>rq_method = ''GET'', rq_path = ''/login'', rq_raw_path = [], rq_query = ''redirect_uri=app'',
      rq_headers = [], rq_remote = ''10.0.0.1:5000'', rq_body = BodyData [], rq_ctx = background\<rparr>"

theorem login_response_witness:
  "sent_status (fst (Login sample_env (SQLSessionRepository sample_env)
      (Auth0Gateway_provider sample_env sample_gateway) writer_init
      (login_request\<lparr>rq_query := []\<rparr>) world_init)) = 400"
proof -
  have "query_get (rq_query (login_request\<lparr>rq_query := []\<rparr>)) ''redirect_uri'' = []" by code_simp
  with login_response [of writer_init "login_request\<lparr>rq_query := []\<rparr>" sample_env "SQLSessionRepository sample_env"
      "Auth0Gateway_provider sample_env sample_gateway" world_init]
  show ?thesis by (simp add: writer_init_def)
qed

lemma callback_reply:
  assumes "rw_sent rw = None" "request_cookie r SessionCookieName = Some sid"
    and "query_get (rq_query r) ''code'' = code" "code \<noteq> []"
    and "query_get (rq_query r) ''state'' = state" "state \<noteq> []"
    and "fst (HandleCallback e repo prov (rq_ctx r) sid code state w) = Inl err"
  shows "sent_status (fst (Callback e repo prov rw r w)) =
      (if errors_is err ErrSessionExpired \<or> errors_is err ErrInvalidState then 401 else 500)"
    and "rw_body (fst (Callback e repo prov rw r w)) = rw_body rw @ json_print (JObj [(''error'', JStr
      (if errors_is err ErrSessionExpired \<or> errors_is err ErrInvalidState then error_string err
       else ''Token exchange failed''))]) @ [chr 10]"
    and "rw_cookies (fst (Callback e repo prov rw r w)) = rw_cookies rw"
    and "w_sent (snd (Callback e repo prov rw r w)) =
      w_sent (snd (HandleCallback e repo prov (rq_ctx r) sid code state w))"
  using assms
  by (auto simp: Callback_def Let_def writeError_def json_map_def sent_status_def
      split: prod.splits sum.splits)

lemma sql_gate:
  assumes "Get e ctx sid w = (Inr s, w1)" "IsExpired (clock e (w_clock w)) s \<or> session_state s \<noteq> state"
  shows "fst (HandleCallback e (SQLSessionRepository e) (Auth0Gateway_provider e g) ctx sid code state w) =
      Inl (ErrWrap ''callback verification failed: ''
         (if IsExpired (clock e (w_clock w)) s then ErrSessionExpired else ErrInvalidState) [])"
proof -
  have clk: "w_clock w1 = w_clock w" using assms(1) Get_keeps(2) [of e ctx sid w] by simp
  have "repo_get (SQLSessionRepository e) ctx sid w = (Inr s, w1)"
    "snd (repo_delete (SQLSessionRepository e) ctx sid w1) = snd (Delete e ctx sid w1)"
    using assms(1) by (simp_all add: SQLSessionRepository_def)
  from flow.callback_gate [where gw = g and e = e, OF this] show ?thesis
    using assms(2) by (auto simp: clk)
qed

text \<open>
  What a browser gets for a callback whose session is stored but
  whose window has closed, or whose state is not the session's, is a 401 naming the typed
  error, and no cookie is set or cleared; the window is judged first.
\<close>

theorem callback_response:
  assumes "rw_sent rw = None" "request_cookie r SessionCookieName = Some sid"
    and "query_get (rq_query r) ''code'' = code" "code \<noteq> []"
    and "query_get (rq_query r) ''state'' = state" "state \<noteq> []"
    and "fst (Get e (rq_ctx r) sid w) = Inr s"
    and "expires_at s < clock e (w_clock w) \<or> session_state s \<noteq> state"
  shows "sent_status (fst (Callback e (SQLSessionRepository e) (Auth0Gateway_provider e g) rw r w)) = 401 \<and>
     rw_cookies (fst (Callback e (SQLSessionRepository e) (Auth0Gateway_provider e g) rw r w)) = rw_cookies rw \<and>
     rw_body (fst (Callback e (SQLSessionRepository e) (Auth0Gateway_provider e g) rw r w)) = rw_body rw @
       json_print (JObj [(''error'', JStr (''callback verification failed: '' @
         (if expires_at s < clock e (w_clock w) then ''auth_session_expired'' else ''invalid_oauth_state'')))]) @
       [chr 10]"
proof -
  obtain w1 where get: "Get e (rq_ctx r) sid w = (Inr s, w1)" using assms(7) by (metis prod.collapse)
  have ex: "IsExpired (clock e (w_clock w)) s \<longleftrightarrow> expires_at s < clock e (w_clock w)"
    by (simp add: IsExpired_def time_after_def)
  have h: "fst (HandleCallback e (SQLSessionRepository e) (Auth0Gateway_provider e g) (rq_ctx r) sid code state w) =
      Inl (ErrWrap ''callback verification failed: ''
         (if expires_at s < clock e (w_clock w) then ErrSessionExpired else ErrInvalidState) [])"
    using sql_gate [OF get, of state g code] assms(8) by (simp add: ex)
  from callback_reply [OF assms(1-6) h] show ?thesis by (simp add: auth_errors)
qed

text \<open>A browser that comes back with a forged state.\<close>

definition forged_callback :: request where
  "forged_callback =
     \<lparr>rq_method = ''GET'', rq_path = ''/callback'', rq_raw_path = [], rq_query = ''code=c&state=forged'',
      rq_headers = [(''Cookie'', ''theme=dark; session_id='' @ session_id sample_session)],
      rq_remote = ''10.0.0.1:5000'', rq_body = BodyData [], rq_ctx = background\<rparr>"

theorem callback_response_witness:
  "sent_status (fst (Callback sample_env (SQLSessionRepository sample_env)
     (Auth0Gateway_provider sample_env sample_gateway) writer_init forged_callback
     (snd (Save sample_env background sample_session world_init)))) = 401"
proof -
  let ?w = "snd (Save sample_env background sample_session world_init)"
  obtain s where "fst (Get sample_env background (session_id sample_session) ?w) = Inr s"
    "session_state s = ''st''"
    using sample_get_state by (auto split: sum.splits)
  moreover have "request_cookie forged_callback SessionCookieName = Some (session_id sample_session)"
    "query_get (rq_query forged_callback) ''code'' = ''c''"
    "query_get (rq_query forged_callback) ''state'' = ''forged''" by code_simp+
  ultimately show ?thesis
    using callback_response [of writer_init forged_callback "session_id sample_session" "''c''" "''forged''"
        sample_env ?w s sample_gateway]
    by (simp add: writer_init_def forged_callback_def)
qed

text \<open>
  C40 (refresh_response): a refresh without the cookie is a 400 and does nothing; a refused
  refresh token is a 401 that sets no cookie; a rotation is a 200 that answers with the access
  token alone, and the new refresh token, when there is one, travels only in its cookie.
\<close>

theorem refresh_response:
  assumes "rw_sent rw = None"
  shows "case request_cookie r RefreshTokenCookieName of
     None \<Rightarrow>
       sent_status (fst (Refresh e (Auth0Gateway_provider e g) rw r w)) = 400 \<and>
       sent_cookies (fst (Refresh e (Auth0Gateway_provider e g) rw r w)) = rw_cookies rw \<and>
       snd (Refresh e (Auth0Gateway_provider e g) rw r w) = w
   | Some token \<Rightarrow>
   (case RefreshToken_gw e g (rq_ctx r) token w of
     (Inl err, w1) \<Rightarrow>
       sent_status (fst (Refresh e (Auth0Gateway_provider e g) rw r w)) = 401 \<and>
       sent_cookies (fst (Refresh e (Auth0Gateway_provider e g) rw r w)) = rw_cookies rw
   | (Inr toks, w1) \<Rightarrow>
       sent_status (fst (Refresh e (Auth0Gateway_provider e g) rw r w)) = 200 \<and>
       sent_cookies (fst (Refresh e (Auth0Gateway_provider e g) rw r w)) = rw_cookies rw @
         (if refresh_token toks = [] then []
          else [live_cookie RefreshTokenCookieName (refresh_token toks)
                  (time_add (clock e (w_clock w1)) (30 * 24 * hour))]) \<and>
       rw_body (fst (Refresh e (Auth0Gateway_provider e g) rw r w)) = rw_body rw @
         json_print (JObj [(''access_token'', JStr (access_token toks)),
                           (''expires_in'', JNum (int_dec (expires_in toks)))]) @ [chr 10])"
proof (cases "request_cookie r RefreshTokenCookieName")
  case None
  with assms show ?thesis by (simp add: Refresh_def sent_cookies_def writeError_sent)
next
  case cookie: (Some token)
  obtain q w1 where Pair: "RefreshToken_gw e g (rq_ctx r) token w = (q, w1)" by fastforce
  show ?thesis
  proof (cases q)
    case (Inl err)
    with Pair cookie assms show ?thesis
      by (simp add: Refresh_def RefreshToken_def Auth0Gateway_provider_def sent_cookies_def writeError_sent)
  next
    case (Inr toks)
    obtain rw1 w2 where rc: "set_refresh_cookie e toks rw w1 = (rw1, w2)" by fastforce
    then have "rw_cookies rw1 = rw_cookies rw @ (if refresh_token toks = [] then []
          else [live_cookie RefreshTokenCookieName (refresh_token toks)
                  (time_add (clock e (w_clock w1)) (30 * 24 * hour))])"
      using set_refresh_cookie_cookies [of e toks rw w1] by simp
    with Pair cookie Inr assms rc set_refresh_cookie_pair [OF rc] show ?thesis
      by (simp add: Refresh_def RefreshToken_def Auth0Gateway_provider_def sent_cookies_def
          sent_status_def json_map_def)
  qed
qed

theorem refresh_response_witness:
  "sent_status (fst (Refresh sample_env (Auth0Gateway_provider sample_env sample_gateway) writer_init
     (login_request\<lparr>rq_headers := [(''Cookie'', ''refresh_token=r1'')]\<rparr>) world_init)) = 200"
proof -
  let ?r = "login_request\<lparr>rq_headers := [(''Cookie'', ''refresh_token=r1'')]\<rparr>"
  have c: "request_cookie ?r RefreshTokenCookieName = Some ''r1''" by code_simp
  have "(case RefreshToken_gw sample_env sample_gateway (rq_ctx ?r) ''r1'' world_init of
      (Inl _, _) \<Rightarrow> False | (Inr _, _) \<Rightarrow> True)" by code_simp
  with refresh_response [where rw = writer_init and r = ?r and e = sample_env and g = sample_gateway and w = world_init] c show ?thesis
    by (auto simp: writer_init_def split: prod.splits sum.splits)
qed

text \<open>
  Behind the router, logging out runs only if the JWT middleware let
  the request in: otherwise no token is revoked and the answer is not a success.
\<close>

theorem logout_needs_gate:
  assumes "mux_ok mux" "jwt_gate jwt" "rq_raw_path r = []" "rq_path r = ''/logout''" "rq_method r = ''POST''"
    and "rw_sent rw = None"
  shows "(\<exists>subj. mux (auth_table e repo prov jwt metrics) rw r w = Logout prov rw (with_claims subj r) w) \<or>
     (snd (mux (auth_table e repo prov jwt metrics) rw r w) = w \<and>
      sent_status (fst (mux (auth_table e repo prov jwt metrics) rw r w)) \<noteq> 200)"
proof -
  have "route_for (auth_table e repo prov jwt metrics) r = Some (jwt (Logout prov))"
    using assms(4,5) by (simp add: route_for_def auth_table_def)
  then have "mux (auth_table e repo prov jwt metrics) rw r w = jwt (Logout prov) rw r w"
    using assms(1,3) by (auto simp: mux_ok_def split: option.splits)
  then show ?thesis using assms(2,6) by (metis jwt_gate_def)
qed

theorem logout_needs_gate_witness:
  "snd (static_mux (auth_table sample_env (SQLSessionRepository sample_env)
        (Auth0Gateway_provider sample_env sample_gateway) sample_gate Health) writer_init
        (login_request\<lparr>rq_method := ''POST'', rq_path := ''/logout''\<rparr>) world_init) = world_init"
proof -
  have "request_cookie (with_claims subj (login_request\<lparr>rq_method := ''POST'', rq_path := ''/logout''\<rparr>))
      RefreshTokenCookieName = None" for subj
    by (simp add: request_cookie_def with_claims_def login_request_def List.map_filter_def)
  then show ?thesis
    using logout_needs_gate [OF static_mux_ok sample_gate_ok,
      of "login_request\<lparr>rq_method := ''POST'', rq_path := ''/logout''\<rparr>" writer_init sample_env
        "SQLSessionRepository sample_env" "Auth0Gateway_provider sample_env sample_gateway" Health
        world_init]
    by (auto simp: login_request_def Logout_def writer_init_def)
qed

end
