(* ===== verification/BankCrypto.thy ===== *)
theory BankCrypto
  imports World GoHash
begin

text \<open>
  \<open>internal/banking/adapters/crypto\<close>: the internal token of \<open>jwt.go\<close>, an HMAC-SHA256 JWT
  with every encoding step written out, and the check of the device signature of
  \<open>signature.go\<close> over the parsers and the elliptic curve of Go's \<open>crypto\<close> packages, which are
  parameters.
\<close>

subsection \<open>Internal tokens (jwt.go)\<close>

record jwt_claims =
  claims_sub :: string
  claims_exp :: int
  claims_iat :: int
  claims_scopes :: "string list"

definition claims_zero :: jwt_claims where
  "claims_zero = \<lparr>claims_sub = [], claims_exp = 0, claims_iat = 0, claims_scopes = []\<rparr>"

text \<open>\<open>json.Marshal\<close> of the claims; a nil slice is \<open>null\<close>.\<close>

definition claims_json :: "string \<Rightarrow> int \<Rightarrow> int \<Rightarrow> string list option \<Rightarrow> json" where
  "claims_json subj expires issued scopes =
     JObj [(''sub'', JStr subj), (''exp'', JNum (int_dec expires)), (''iat'', JNum (int_dec issued)),
           (''scopes'', case scopes of None \<Rightarrow> JNull | Some ss \<Rightarrow> JArr (map JStr ss))]"

definition claims_field :: "jwt_claims \<Rightarrow> string \<Rightarrow> json \<Rightarrow> jwt_claims option" where
  "claims_field c k v =
     (if key_matches ''sub'' k then map_option (\<lambda>s. c\<lparr>claims_sub := s\<rparr>) (dec_string (claims_sub c) v)
      else if key_matches ''exp'' k
      then map_option (\<lambda>i. c\<lparr>claims_exp := i\<rparr>) (dec_int64 (claims_exp c) v)
      else if key_matches ''iat'' k
      then map_option (\<lambda>i. c\<lparr>claims_iat := i\<rparr>) (dec_int64 (claims_iat c) v)
      else if key_matches ''scopes'' k
      then map_option (\<lambda>ss. c\<lparr>claims_scopes := ss\<rparr>) (dec_strings (claims_scopes c) v)
      else Some c)"

definition jwt_header :: string where
  "jwt_header = json_print (json_map [(''alg'', JStr ''HS256''), (''typ'', JStr ''JWT'')])"

definition jwt_signature :: "string \<Rightarrow> string \<Rightarrow> string" where
  "jwt_signature secret input =
     raw_url_encode (of_bytes (hmac_sha256 (to_bytes secret) (to_bytes input)))"

definition GenerateInternalJWT ::
  "env \<Rightarrow> string \<Rightarrow> string list option \<Rightarrow> string \<Rightarrow> int \<Rightarrow> world \<Rightarrow> (go_error + string) \<times> world" where
  "GenerateInternalJWT e subj scopes secret ttl w =
     (if secret = [] then (Inl (ErrNew ''empty shared secret''), w)
      else (case time_now e w of (now, w1) \<Rightarrow>
        (let claims = json_print (claims_json subj (time_unix (time_add now ttl)) (time_unix now) scopes);
             input = raw_url_encode jwt_header @ ''.'' @ raw_url_encode claims
         in (Inr (input @ ''.'' @ jwt_signature secret input), w1))))"

definition VerifyInternalJWT :: "env \<Rightarrow> string \<Rightarrow> string \<Rightarrow> world \<Rightarrow> (go_error + jwt_claims) \<times> world" where
  "VerifyInternalJWT e token secret w =
     (if secret = [] then (Inl (ErrNew ''empty shared secret''), w)
      else (case go_split (CHR ''.'') token of
          [header64, claims64, sig64] \<Rightarrow>
            if sig64 \<noteq> jwt_signature secret (header64 @ ''.'' @ claims64)
            then (Inl (ErrNew ''invalid signature''), w)
            else (case raw_url_decode claims64 of
                None \<Rightarrow> (Inl (ErrWrap ''failed to decode claims: '' (ErrNew (b64_err e claims64)) []), w)
              | Some bytes \<Rightarrow>
                  (case Option.bind (json_unmarshal bytes) (decode_struct claims_field claims_zero) of
                     None \<Rightarrow> (Inl (ErrWrap ''failed to parse claims: ''
                               (ErrNew (json_err e ''InternalJWTClaims'' (BodyData bytes))) []), w)
                   | Some claims \<Rightarrow>
                       (case time_now e w of (now, w1) \<Rightarrow>
                          if time_unix now > claims_exp claims
                          then (Inl (ErrNew ''token is expired''), w1)
                          else (Inr claims, w1))))
        | _ \<Rightarrow> (Inl (ErrNew ''invalid token format''), w)))"

subsection \<open>What the verifier accepts\<close>

lemma list3_cases:
  obtains a b c where "xs = [a, b, c]" | "\<And>a b c. xs \<noteq> [a, b, c]"
  by metis

lemma verify_malformed:
  "(\<And>a b c. go_split (CHR ''.'') token \<noteq> [a, b, c]) \<Longrightarrow> secret \<noteq> [] \<Longrightarrow>
     VerifyInternalJWT e token secret w = (Inl (ErrNew ''invalid token format''), w)"
  by (auto simp: VerifyInternalJWT_def split: list.splits)

lemma verify_accepts_iff:
  "fst (VerifyInternalJWT e token secret w) = Inr c \<longleftrightarrow>
     secret \<noteq> [] \<and>
     (\<exists>h p bytes j. token = h @ ''.'' @ p @ ''.'' @ jwt_signature secret (h @ ''.'' @ p) \<and>
        CHR ''.'' \<notin> set h \<and> CHR ''.'' \<notin> set p \<and>
        raw_url_decode p = Some bytes \<and> json_unmarshal bytes = Some j \<and>
        decode_struct claims_field claims_zero j = Some c) \<and>
     time_unix (clock e (w_clock w)) \<le> claims_exp c"
  (is "?L \<longleftrightarrow> ?R")
proof
  assume L: ?L
  then have s: "secret \<noteq> []" by (auto simp: VerifyInternalJWT_def)
  show ?R
  proof (cases "go_split (CHR ''.'') token" rule: list3_cases)
    case (1 h p sg)
    then have tok: "token = h @ ''.'' @ p @ ''.'' @ sg" "CHR ''.'' \<notin> set h" "CHR ''.'' \<notin> set p"
      by (auto simp: go_split_three_iff)
    from L 1 s have "sg = jwt_signature secret (h @ ''.'' @ p)"
      by (auto simp: VerifyInternalJWT_def split: if_splits)
    moreover from L 1 s this obtain bytes j where "raw_url_decode p = Some bytes"
      "json_unmarshal bytes = Some j" "decode_struct claims_field claims_zero j = Some c"
      "time_unix (clock e (w_clock w)) \<le> claims_exp c"
      by (auto simp: VerifyInternalJWT_def time_now_def bind_eq_Some_conv split: option.splits if_splits)
    ultimately show ?thesis using tok s by blast
  next
    case 2
    with L s verify_malformed show ?thesis by simp
  qed
next
  assume ?R
  then obtain h p bytes j where r: "secret \<noteq> []" "CHR ''.'' \<notin> set h" "CHR ''.'' \<notin> set p"
    "token = h @ ''.'' @ p @ ''.'' @ jwt_signature secret (h @ ''.'' @ p)"
    "raw_url_decode p = Some bytes" "json_unmarshal bytes = Some j"
    "decode_struct claims_field claims_zero j = Some c" "time_unix (clock e (w_clock w)) \<le> claims_exp c"
    by blast
  have "CHR ''.'' \<notin> set (jwt_signature secret (h @ ''.'' @ p))" by (simp add: jwt_signature_def)
  then have "go_split (CHR ''.'') token = [h, p, jwt_signature secret (h @ ''.'' @ p)]"
    unfolding r(4) using go_split_three [OF r(2,3)] by simp
  with r show ?L by (simp add: VerifyInternalJWT_def time_now_def)
qed

subsection \<open>What the generator issues\<close>

lemma claims_keys:
  "fold_key ''sub'' = ''SUB''" "fold_key ''exp'' = ''EXP''" "fold_key ''iat'' = ''IAT''"
  "fold_key ''scopes'' = ''SCOPES''"
  by (simp_all add: ascii_upper_def chr_eq_iff fold_key.simps)

lemma claims_field_simps:
  "claims_field c ''sub'' v = map_option (\<lambda>s. c\<lparr>claims_sub := s\<rparr>) (dec_string (claims_sub c) v)"
  "claims_field c ''exp'' v = map_option (\<lambda>i. c\<lparr>claims_exp := i\<rparr>) (dec_int64 (claims_exp c) v)"
  "claims_field c ''iat'' v = map_option (\<lambda>i. c\<lparr>claims_iat := i\<rparr>) (dec_int64 (claims_iat c) v)"
  "claims_field c ''scopes'' v = map_option (\<lambda>ss. c\<lparr>claims_scopes := ss\<rparr>) (dec_strings (claims_scopes c) v)"
  by (simp_all add: claims_field_def key_matches_def claims_keys)

lemma claims_decode:
  assumes "in_int64 x" "in_int64 i"
  shows "decode_struct claims_field claims_zero (claims_json s x i (Some ss)) =
     Some \<lparr>claims_sub = s, claims_exp = x, claims_iat = i, claims_scopes = ss\<rparr>"
  using assms by (simp add: claims_json_def decode_struct_def claims_field_simps claims_zero_def)

lemma claims_unmarshal:
  assumes "valid_utf8 s" "list_all valid_utf8 ss"
  shows "json_unmarshal (json_print (claims_json s x i (Some ss))) = Some (claims_json s x i (Some ss))"
proof (rule json_unmarshal_print)
  show "json_ok (claims_json s x i (Some ss))"
    using assms by (auto simp: claims_json_def ascii_valid_utf8 list_all_iff)
  have "Max (insert 0 (jdepth ` JStr ` set ss)) \<le> 1" by (rule Max.boundedI) auto
  then show "jdepth (claims_json s x i (Some ss)) \<le> max_depth"
    by (simp add: claims_json_def max_depth_def image_image)
qed

lemma generate_form:
  assumes "GenerateInternalJWT e subj scopes secret ttl w = (Inr tok, w1)"
  obtains h p where "tok = h @ ''.'' @ p @ ''.'' @ jwt_signature secret (h @ ''.'' @ p)"
    "h = raw_url_encode jwt_header" "secret \<noteq> []"
    "p = raw_url_encode (json_print (claims_json subj
       (time_unix (time_add (clock e (w_clock w)) ttl)) (time_unix (clock e (w_clock w))) scopes))"
  using assms by (auto simp: GenerateInternalJWT_def time_now_def Let_def split: if_splits)

lemma verify_generated:
  assumes gen: "GenerateInternalJWT e subj (Some ss) secret ttl w = (Inr tok, w1)"
    and utf8: "valid_utf8 subj" "list_all valid_utf8 ss"
    and rng: "in_int64 (time_unix (time_add (clock e (w_clock w)) ttl))" "in_int64 (time_unix (clock e (w_clock w)))"
    and live: "time_unix (clock e' (w_clock w')) \<le> time_unix (time_add (clock e (w_clock w)) ttl)"
  shows "fst (VerifyInternalJWT e' tok secret w') = Inr
     \<lparr>claims_sub = subj, claims_exp = time_unix (time_add (clock e (w_clock w)) ttl),
      claims_iat = time_unix (clock e (w_clock w)), claims_scopes = ss\<rparr>"
proof -
  let ?x = "time_unix (time_add (clock e (w_clock w)) ttl)" and ?i = "time_unix (clock e (w_clock w))"
  let ?j = "claims_json subj ?x ?i (Some ss)"
  obtain h p where tok: "tok = h @ ''.'' @ p @ ''.'' @ jwt_signature secret (h @ ''.'' @ p)"
    and h: "h = raw_url_encode jwt_header" and s: "secret \<noteq> []" and p: "p = raw_url_encode (json_print ?j)"
    using gen by (rule generate_form)
  have "CHR ''.'' \<notin> set h" "CHR ''.'' \<notin> set p" by (simp_all add: h p)
  moreover have "raw_url_decode p = Some (json_print ?j)" by (simp add: p)
  moreover have "json_unmarshal (json_print ?j) = Some ?j" by (rule claims_unmarshal [OF utf8])
  moreover have "decode_struct claims_field claims_zero ?j = Some
      \<lparr>claims_sub = subj, claims_exp = ?x, claims_iat = ?i, claims_scopes = ss\<rparr>"
    by (rule claims_decode [OF rng])
  ultimately show ?thesis unfolding verify_accepts_iff using tok s live by fastforce
qed

text \<open>
  C13 (jwt_acceptance): the verifier accepts exactly the tokens of three segments whose last
  is the base64 of the HMAC-SHA256 of the first two under the shared secret, whose middle
  segment decodes to a claims object, and whose expiry second has not passed. (The header is
  covered by the signature but never read.)
\<close>

theorem jwt_acceptance:
  "fst (VerifyInternalJWT e token secret w) = Inr c \<longleftrightarrow>
     secret \<noteq> [] \<and>
     (\<exists>h p bytes j. token = h @ ''.'' @ p @ ''.'' @
          raw_url_encode (of_bytes (hmac_sha256 (to_bytes secret) (to_bytes (h @ ''.'' @ p)))) \<and>
        CHR ''.'' \<notin> set h \<and> CHR ''.'' \<notin> set p \<and>
        raw_url_decode p = Some bytes \<and> json_unmarshal bytes = Some j \<and>
        decode_struct claims_field claims_zero j = Some c) \<and>
     time_unix (clock e (w_clock w)) \<le> claims_exp c"
  by (rule verify_accepts_iff [unfolded jwt_signature_def])

text \<open>
  C35 (jwt_roundtrip): a token issued for a subject and scopes verifies under the same secret,
  with the same claims, up to and including the second in which its time to live ends.
\<close>

theorem jwt_roundtrip:
  assumes "GenerateInternalJWT e subj (Some ss) secret ttl w = (Inr tok, w1)"
    and "valid_utf8 subj" "list_all valid_utf8 ss"
    and "in_int64 (time_unix (time_add (clock e (w_clock w)) ttl))" "in_int64 (time_unix (clock e (w_clock w)))"
    and "time_unix (clock e' (w_clock w')) \<le> time_unix (time_add (clock e (w_clock w)) ttl)"
  shows "fst (VerifyInternalJWT e' tok secret w') = Inr
     \<lparr>claims_sub = subj, claims_exp = time_unix (time_add (clock e (w_clock w)) ttl),
      claims_iat = time_unix (clock e (w_clock w)), claims_scopes = ss\<rparr>"
  by (rule verify_generated [OF assms])

lemma sample_times:
  "time_unix (time_add (clock sample_env n) d) = (1700000000000000000 + int n * 1000000 + d) div 1000000000"
  "time_unix (clock sample_env n) = (1700000000000000000 + int n * 1000000) div 1000000000"
  by (simp_all add: sample_env_def time_unix_def time_add_def second_def)

theorem jwt_roundtrip_witness:
  "\<exists>tok w1. GenerateInternalJWT sample_env ''alice'' (Some [''transfer:execute'']) ''secret'' minute world_init =
      (Inr tok, w1) \<and>
     fst (VerifyInternalJWT sample_env tok ''secret'' (world_init\<lparr>w_clock := 60000\<rparr>)) = Inr
       \<lparr>claims_sub = ''alice'', claims_exp = 1700000060, claims_iat = 1700000000,
        claims_scopes = [''transfer:execute'']\<rparr>"
proof -
  obtain tok w1 where g: "GenerateInternalJWT sample_env ''alice'' (Some [''transfer:execute'']) ''secret''
      minute world_init = (Inr tok, w1)"
    by (simp add: GenerateInternalJWT_def time_now_def Let_def)
  have t: "time_unix (time_add (clock sample_env (w_clock world_init)) minute) = 1700000060"
    "time_unix (clock sample_env (w_clock world_init)) = 1700000000"
    "time_unix (clock sample_env (w_clock (world_init\<lparr>w_clock := 60000\<rparr>))) = 1700000060"
    by (simp_all add: sample_times world_init_def minute_def second_def)
  have "fst (VerifyInternalJWT sample_env tok ''secret'' (world_init\<lparr>w_clock := 60000\<rparr>)) = Inr
       \<lparr>claims_sub = ''alice'', claims_exp = time_unix (time_add (clock sample_env (w_clock world_init)) minute),
        claims_iat = time_unix (clock sample_env (w_clock world_init)), claims_scopes = [''transfer:execute'']\<rparr>"
    by (rule jwt_roundtrip [OF g]) (simp_all only: t, simp_all add: ascii_valid_utf8 in_int64_def)
  with g show ?thesis by (simp only: t) blast
qed

end
