(* ===== verification/Signature.thy ===== *)
theory Signature
  imports World GoHash
begin

text \<open>
  \<open>internal/banking/adapters/crypto/signature.go\<close>: the bytes a device signs and the check of
  its signature. PEM and PKIX parsing, the curve and ASN.1 are Go's \<open>encoding/pem\<close>,
  \<open>crypto/x509\<close>, \<open>crypto/ecdsa\<close> and \<open>encoding/asn1\<close>, parameters of type \<open>crypto_lib\<close>.
\<close>

subsection \<open>The crypto packages\<close>

datatype 'k pubkey = EcdsaKey string 'k | OtherKey

record 'k crypto_lib =
  pem_decode :: "string \<Rightarrow> string option"
  parse_pkix :: "string \<Rightarrow> go_error + 'k pubkey"
  ecdsa_verify :: "'k \<Rightarrow> byte list \<Rightarrow> int \<Rightarrow> int \<Rightarrow> bool"
  ecdsa_verify_asn1 :: "'k \<Rightarrow> byte list \<Rightarrow> string \<Rightarrow> bool"
  asn1_signature :: "string \<Rightarrow> (int \<times> int) option"

text \<open>\<open>big.Int.SetBytes\<close>.\<close>

definition big_int :: "string \<Rightarrow> int" where
  "big_int s = foldl (\<lambda>n c. 256 * n + int (ord c)) 0 s"

subsection \<open>The signed bytes\<close>

definition CanonicalTransferBytes :: "transfer_payload \<Rightarrow> string" where
  "CanonicalTransferBytes p =
     sender_account p @ '':'' @ receiver_account p @ '':'' @ int_dec (amount_cents p) @ '':'' @
     currency p @ '':'' @ int_dec (civil_unix (timestamp p))"

subsection \<open>The check\<close>

definition decode_signature :: "env \<Rightarrow> string \<Rightarrow> go_error + string" where
  "decode_signature e s =
     (case hex_decode s of
        Some b \<Rightarrow> Inr b
      | None \<Rightarrow>
          (case std_decode s of
             Some b \<Rightarrow> Inr b
           | None \<Rightarrow> Inl (ErrWrap ''signature is neither valid Base64 nor valid Hex: '' (ErrNew (b64_err e s)) [])))"

definition signature_matches :: "'k crypto_lib \<Rightarrow> 'k \<Rightarrow> byte list \<Rightarrow> string \<Rightarrow> bool" where
  "signature_matches lib k hash sig =
     (if length sig = 64
      then ecdsa_verify lib k hash (big_int (take 32 sig)) (big_int (drop 32 sig))
      else if ecdsa_verify_asn1 lib k hash sig then True
      else (case asn1_signature lib sig of
              Some (r, s) \<Rightarrow> ecdsa_verify lib k hash r s
            | None \<Rightarrow> False))"

text \<open>A nil payload is \<open>None\<close>; so is the error when the signature holds.\<close>

definition VerifyEnclaveSignature ::
  "env \<Rightarrow> 'k crypto_lib \<Rightarrow> string \<Rightarrow> transfer_payload option \<Rightarrow> go_error option" where
  "VerifyEnclaveSignature e lib pem payload =
     (if pem = [] then Some (ErrNew ''empty public key PEM'')
      else (case payload of
          None \<Rightarrow> Some (ErrNew ''nil transfer payload'')
        | Some p \<Rightarrow>
      if signature p = [] then Some (ErrNew ''empty transfer payload signature'')
      else (case pem_decode lib pem of
          None \<Rightarrow> Some (ErrNew ''failed to parse PEM block containing the public key'')
        | Some block \<Rightarrow>
      (case parse_pkix lib block of
          Inl err \<Rightarrow> Some (ErrWrap ''failed to parse public key bytes: '' err [])
        | Inr OtherKey \<Rightarrow> Some (ErrNew ''public key is not an ECDSA public key'')
        | Inr (EcdsaKey curve k) \<Rightarrow>
      if curve \<noteq> ''P-256''
      then Some (ErrNew (''unsupported curve: '' @ curve @
             '' (only ECDSA P-256 is permitted for Secure Enclave compliance)''))
      else (case decode_signature e (signature p) of
          Inl err \<Rightarrow> Some err
        | Inr sig \<Rightarrow>
      if signature_matches lib k (sha256 (to_bytes (CanonicalTransferBytes p))) sig then None
      else Some (ErrNew ''cryptographic signature verification failed (data may have been tampered or signature is invalid)''))))))"

subsection \<open>The signed bytes tell payloads apart, without colons\<close>

lemma canonical_split:
  assumes "CHR '':'' \<notin> set (sender_account p)" "CHR '':'' \<notin> set (receiver_account p)"
    "CHR '':'' \<notin> set (currency p)"
  shows "go_split (CHR '':'') (CanonicalTransferBytes p) =
     [sender_account p, receiver_account p, int_dec (amount_cents p), currency p,
      int_dec (civil_unix (timestamp p))]"
  using assms by (simp add: CanonicalTransferBytes_def go_split_append int_dec_colon)

lemma verify_none_iff:
  "VerifyEnclaveSignature e lib pem (Some p) = None \<longleftrightarrow>
     pem \<noteq> [] \<and> signature p \<noteq> [] \<and>
     (\<exists>block k sig. pem_decode lib pem = Some block \<and> parse_pkix lib block = Inr (EcdsaKey ''P-256'' k) \<and>
        (hex_decode (signature p) = Some sig \<or>
         (hex_decode (signature p) = None \<and> std_decode (signature p) = Some sig)) \<and>
        signature_matches lib k (sha256 (to_bytes (CanonicalTransferBytes p))) sig)"
  by (auto simp: VerifyEnclaveSignature_def decode_signature_def
      split: option.splits sum.splits pubkey.splits if_splits)

subsection \<open>Properties\<close>

text \<open>
  C21 (signature_acceptance): the check passes exactly when the PEM holds an ECDSA key on P-256,
  the signature field is hexadecimal or else standard base64, and those bytes sign the
  SHA-256 of the canonical bytes, as two 32-byte numbers when there are 64 of them and as
  ASN.1 otherwise.
\<close>

theorem signature_acceptance:
  "VerifyEnclaveSignature e lib pem (Some p) = None \<longleftrightarrow>
     pem \<noteq> [] \<and> signature p \<noteq> [] \<and>
     (\<exists>block k sig. pem_decode lib pem = Some block \<and> parse_pkix lib block = Inr (EcdsaKey ''P-256'' k) \<and>
        (case hex_decode (signature p) of Some b \<Rightarrow> b = sig | None \<Rightarrow> std_decode (signature p) = Some sig) \<and>
        (let hash = sha256 (to_bytes (CanonicalTransferBytes p)) in
         if length sig = 64
         then ecdsa_verify lib k hash (big_int (take 32 sig)) (big_int (drop 32 sig))
         else ecdsa_verify_asn1 lib k hash sig \<or>
           (\<exists>r s. asn1_signature lib sig = Some (r, s) \<and> ecdsa_verify lib k hash r s)))"
proof -
  have "signature_matches lib k hash sig \<longleftrightarrow>
      (if length sig = 64 then ecdsa_verify lib k hash (big_int (take 32 sig)) (big_int (drop 32 sig))
       else ecdsa_verify_asn1 lib k hash sig \<or>
         (\<exists>r s. asn1_signature lib sig = Some (r, s) \<and> ecdsa_verify lib k hash r s))" for k hash sig
    by (auto simp: signature_matches_def split: option.split prod.split)
  then show ?thesis unfolding verify_none_iff Let_def by (cases "hex_decode (signature p)") auto
qed

text \<open>
  C36 (canonical_injective): a signature over one transfer covers no other amount, account,
  currency or second: two payloads with the same signed bytes agree in all of them, provided
  no account and no currency contains a colon.
\<close>

theorem canonical_injective:
  assumes "CanonicalTransferBytes p = CanonicalTransferBytes q"
    and "CHR '':'' \<notin> set (sender_account p) \<union> set (receiver_account p) \<union> set (currency p)"
    and "CHR '':'' \<notin> set (sender_account q) \<union> set (receiver_account q) \<union> set (currency q)"
  shows "sender_account p = sender_account q \<and> receiver_account p = receiver_account q \<and>
     amount_cents p = amount_cents q \<and> currency p = currency q \<and>
     civil_unix (timestamp p) = civil_unix (timestamp q)"
  using canonical_split [of p] canonical_split [of q] assms by simp

lemma verify_cong:
  assumes "CanonicalTransferBytes p = CanonicalTransferBytes q" "signature p = signature q"
  shows "VerifyEnclaveSignature e lib pem (Some p) = VerifyEnclaveSignature e lib pem (Some q)"
  unfolding VerifyEnclaveSignature_def option.case assms by (rule refl)

definition sample_payload :: transfer_payload where
  "sample_payload =
     \<lparr>tx_id = ''tx1'', sender_account = ''ACC000123456'', receiver_account = ''ACC000987654'',
      amount_cents = 5000, currency = ''USD'',
      timestamp = \<lparr>cyear = 2026, cmonth = 5, cday = 23, chour = 10, cmin = 0, csec = 0, cnano = 0, coffset = 0\<rparr>,
      signature = ''00''\<rparr>"

theorem canonical_injective_witness:
  "\<exists>q. tx_id q \<noteq> tx_id sample_payload \<and> timestamp q \<noteq> timestamp sample_payload \<and>
     CanonicalTransferBytes q = CanonicalTransferBytes sample_payload \<and>
     CHR '':'' \<notin> set (sender_account q) \<union> set (receiver_account q) \<union> set (currency q) \<and>
     CHR '':'' \<notin> set (sender_account sample_payload) \<union> set (receiver_account sample_payload) \<union> set (currency sample_payload) \<and>
     amount_cents q = amount_cents sample_payload \<and> civil_unix (timestamp q) = civil_unix (timestamp sample_payload)"
proof -
  let ?q = "sample_payload\<lparr>tx_id := ''tx2'', timestamp := (timestamp sample_payload)\<lparr>chour := 11, coffset := 60\<rparr>\<rparr>"
  have same: "CanonicalTransferBytes ?q = CanonicalTransferBytes sample_payload"
    by (simp add: CanonicalTransferBytes_def sample_payload_def civil_unix_def)
  have plain: "CHR '':'' \<notin> set (sender_account ?q) \<union> set (receiver_account ?q) \<union> set (currency ?q)"
    "CHR '':'' \<notin> set (sender_account sample_payload) \<union> set (receiver_account sample_payload) \<union> set (currency sample_payload)"
    by (simp_all add: sample_payload_def)
  have "tx_id ?q \<noteq> tx_id sample_payload" "timestamp ?q \<noteq> timestamp sample_payload" by (simp_all add: sample_payload_def)
  with canonical_injective [OF same plain] same plain show ?thesis by blast
qed

text \<open>
  C37 (canonical_ambiguous): the signed bytes leave the transfer's identifier out, and they do
  not say where the sender's account ends: whatever the rest of a payload, moving text with a
  colon from the end of the sender's account to the front of the receiver's leaves them as they
  were. One signature, under any key, covers all of these transfers.
\<close>

theorem canonical_ambiguous:
  "CanonicalTransferBytes (p\<lparr>tx_id := t\<rparr>) = CanonicalTransferBytes p \<and>
   CanonicalTransferBytes (p\<lparr>sender_account := a @ '':'' @ b, receiver_account := c\<rparr>) =
     CanonicalTransferBytes (p\<lparr>sender_account := a, receiver_account := b @ '':'' @ c\<rparr>) \<and>
   VerifyEnclaveSignature e lib pem (Some (p\<lparr>tx_id := t\<rparr>)) = VerifyEnclaveSignature e lib pem (Some p) \<and>
   VerifyEnclaveSignature e lib pem (Some (p\<lparr>sender_account := a @ '':'' @ b, receiver_account := c\<rparr>)) =
     VerifyEnclaveSignature e lib pem (Some (p\<lparr>sender_account := a, receiver_account := b @ '':'' @ c\<rparr>))"
  by (intro conjI verify_cong) (simp_all add: CanonicalTransferBytes_def)

end
