(* ===== verification/Attestation.thy ===== *)
theory Attestation
  imports World
begin

text \<open>
  \<open>internal/banking/adapters/gateway/attestation_verifier.go\<close>: the check of a mobile
  device's attestation token. The port \<open>ports.AttestationVerifier\<close> is the type
  \<open>attestation_port\<close>.
\<close>

record play_claims =
  app_licensing :: string
  device_verdicts :: "string list"
  cts_profile :: bool
  basic_integrity :: bool

record app_attest_claims =
  app_id :: string
  receipt :: string
  robust :: bool

definition play_field :: "play_claims \<Rightarrow> string \<Rightarrow> json \<Rightarrow> play_claims option" where
  "play_field c k v =
     (if key_matches ''appLicensingVerdict'' k
      then map_option (\<lambda>s. c\<lparr>app_licensing := s\<rparr>) (dec_string (app_licensing c) v)
      else if key_matches ''deviceRecognitionVerdict'' k
      then map_option (\<lambda>ss. c\<lparr>device_verdicts := ss\<rparr>) (dec_strings (device_verdicts c) v)
      else if key_matches ''ctsProfileMatch'' k
      then map_option (\<lambda>b. c\<lparr>cts_profile := b\<rparr>) (dec_bool (cts_profile c) v)
      else if key_matches ''basicIntegrity'' k
      then map_option (\<lambda>b. c\<lparr>basic_integrity := b\<rparr>) (dec_bool (basic_integrity c) v)
      else Some c)"

definition play_of_json :: "json \<Rightarrow> play_claims option" where
  "play_of_json j = decode_struct play_field
     \<lparr>app_licensing = [], device_verdicts = [], cts_profile = False, basic_integrity = False\<rparr> j"

definition app_attest_field :: "app_attest_claims \<Rightarrow> string \<Rightarrow> json \<Rightarrow> app_attest_claims option" where
  "app_attest_field c k v =
     (if key_matches ''appId'' k then map_option (\<lambda>s. c\<lparr>app_id := s\<rparr>) (dec_string (app_id c) v)
      else if key_matches ''receipt'' k
      then map_option (\<lambda>s. c\<lparr>receipt := s\<rparr>) (dec_bytes (receipt c) v)
      else if key_matches ''robust'' k then map_option (\<lambda>b. c\<lparr>robust := b\<rparr>) (dec_bool (robust c) v)
      else Some c)"

definition app_attest_of_json :: "json \<Rightarrow> app_attest_claims option" where
  "app_attest_of_json j = decode_struct app_attest_field \<lparr>app_id = [], receipt = [], robust = False\<rparr> j"

text \<open>The loop over the verdicts returns at the first rejected one.\<close>

fun rejected_verdict :: "string list \<Rightarrow> string option" where
  "rejected_verdict [] = None"
| "rejected_verdict (v # vs) =
     (if v = ''MEETS_VIRTUAL_INTEGRITY'' \<or> v = ''COMPROMISED'' then Some v else rejected_verdict vs)"

definition check_android :: "env \<Rightarrow> go_ctx \<Rightarrow> string \<Rightarrow> world \<Rightarrow> go_error option \<times> world" where
  "check_android e ctx bytes w =
     (case Option.bind (json_unmarshal bytes) play_of_json of
        None \<Rightarrow> (Some (ErrWrap ''failed to parse Android Play Integrity claims: ''
                  (ErrNew (json_err e ''PlayIntegrityClaims'' (BodyData bytes))) []), w)
      | Some c \<Rightarrow>
          (let w1 = InfoContext ctx ''Android Play Integrity claims parsed''
                 [(''ctsProfileMatch'', ABool (cts_profile c)), (''basicIntegrity'', ABool (basic_integrity c)),
                  (''deviceRecognitionVerdict'', AStrs (device_verdicts c))] w
           in if \<not> basic_integrity c \<or> \<not> cts_profile c
              then (Some (ErrNew ''device failed basic or CTS profile integrity verification''), w1)
              else (case rejected_verdict (device_verdicts c) of
                      Some v \<Rightarrow> (Some (ErrNew (''device recognition verdict rejected: '' @ v)), w1)
                    | None \<Rightarrow> (None, w1))))"

definition check_ios :: "env \<Rightarrow> go_ctx \<Rightarrow> string \<Rightarrow> world \<Rightarrow> go_error option \<times> world" where
  "check_ios e ctx bytes w =
     (case Option.bind (json_unmarshal bytes) app_attest_of_json of
        None \<Rightarrow> (Some (ErrWrap ''failed to parse Apple App Attest claims: ''
                  (ErrNew (json_err e ''AppAttestClaims'' (BodyData bytes))) []), w)
      | Some c \<Rightarrow>
          (let w1 = InfoContext ctx ''Apple App Attest claims parsed''
                 [(''appId'', AStr (app_id c)), (''robust'', ABool (robust c))] w
           in if app_id c = []
              then (Some (ErrNew ''apple App Attest verification failed: missing appId''), w1)
              else (None, w1)))"

definition jws_payload :: "env \<Rightarrow> string \<Rightarrow> go_error + string" where
  "jws_payload e seg =
     (case raw_url_decode seg of
        Some b \<Rightarrow> Inr b
      | None \<Rightarrow>
          (case url_decode seg of
             Some b \<Rightarrow> Inr b
           | None \<Rightarrow> Inl (ErrWrap ''failed to decode attestation JWS payload: '' (ErrNew (b64_err e seg)) [])))"

definition VerifyAttestation ::
  "env \<Rightarrow> go_ctx \<Rightarrow> string \<Rightarrow> string \<Rightarrow> world \<Rightarrow> go_error option \<times> world" where
  "VerifyAttestation e ctx platform token w =
     (let w1 = InfoContext ctx ''initiating device attestation check'' [(''platform'', AStr platform)] w;
          passed = (\<lambda>v. (None, InfoContext ctx ''device attestation check passed successfully'' [] v));
          lower = to_lower (ulower e) platform in
      if token = [] then (Some (ErrNew ''attestation token is empty''), w1)
      else if lower \<noteq> ''ios'' \<and> lower \<noteq> ''android''
      then (Some (ErrNew (''unsupported platform: '' @ platform)), w1)
      else if token = ''compromised-device'' \<or> token = ''invalid-token''
      then (Some (ErrNew ''compromised device environment or invalid signature detected''), w1)
      else (case go_split (CHR ''.'') token of
          [_, seg, _] \<Rightarrow>
            (let w2 = DebugContext ctx ''parsing JWS attestation token'' [(''platform'', AStr lower)] w1
             in case jws_payload e seg of
                  Inl err \<Rightarrow> (Some err, w2)
                | Inr bytes \<Rightarrow>
                    (case (if lower = ''android'' then check_android e ctx bytes w2
                           else if lower = ''ios'' then check_ios e ctx bytes w2 else (None, w2)) of
                       (Some err, w3) \<Rightarrow> (Some err, w3)
                     | (None, w3) \<Rightarrow> passed w3))
        | _ \<Rightarrow>
            (let w2 = InfoContext ctx ''non-JWS attestation token detected, executing mock token verification''
                        [(''token'', AStr token)] w1
             in if token \<noteq> ''valid-mock-token''
                then (Some (ErrNew (''unrecognized mock attestation token: '' @ token)), w2)
                else passed w2)))"

text \<open>The port \<open>ports.AttestationVerifier\<close>.\<close>

type_synonym attestation_port = "go_ctx \<Rightarrow> string \<Rightarrow> string \<Rightarrow> world \<Rightarrow> go_error option \<times> world"

subsection \<open>Acceptance\<close>

lemma rejected_none: "rejected_verdict vs = None \<longleftrightarrow> ''MEETS_VIRTUAL_INTEGRITY'' \<notin> set vs \<and> ''COMPROMISED'' \<notin> set vs"
  by (induction vs) auto

lemma check_android_none:
  "fst (check_android e ctx bytes w) = None \<longleftrightarrow>
     (\<exists>j c. json_unmarshal bytes = Some j \<and> play_of_json j = Some c \<and> basic_integrity c \<and> cts_profile c \<and>
        ''MEETS_VIRTUAL_INTEGRITY'' \<notin> set (device_verdicts c) \<and> ''COMPROMISED'' \<notin> set (device_verdicts c))"
  by (auto simp: check_android_def Let_def rejected_none [symmetric] bind_eq_Some_conv split: option.split)

lemma check_ios_none:
  "fst (check_ios e ctx bytes w) = None \<longleftrightarrow>
     (\<exists>j c. json_unmarshal bytes = Some j \<and> app_attest_of_json j = Some c \<and> app_id c \<noteq> [])"
  by (auto simp: check_ios_def Let_def bind_eq_Some_conv split: option.split)

lemma jws_payload_ok:
  "jws_payload e seg = Inr bytes \<longleftrightarrow>
     raw_url_decode seg = Some bytes \<or> (raw_url_decode seg = None \<and> url_decode seg = Some bytes)"
  by (auto simp: jws_payload_def split: option.split)

text \<open>What the middle segment of a token must say, by platform.\<close>

definition integrity_claimed :: "string \<Rightarrow> string \<Rightarrow> bool" where
  "integrity_claimed lower bytes \<longleftrightarrow>
     (case json_unmarshal bytes of
        None \<Rightarrow> False
      | Some j \<Rightarrow>
          if lower = ''android''
          then (case play_of_json j of
                  None \<Rightarrow> False
                | Some c \<Rightarrow> basic_integrity c \<and> cts_profile c \<and>
                    ''MEETS_VIRTUAL_INTEGRITY'' \<notin> set (device_verdicts c) \<and>
                    ''COMPROMISED'' \<notin> set (device_verdicts c))
          else (case app_attest_of_json j of None \<Rightarrow> False | Some c \<Rightarrow> app_id c \<noteq> []))"

lemma checks_claimed:
  "fst (check_android e ctx bytes w) = None \<longleftrightarrow> integrity_claimed ''android'' bytes"
  "fst (check_ios e ctx bytes w) = None \<longleftrightarrow> integrity_claimed ''ios'' bytes"
  by (auto simp: check_android_none check_ios_none integrity_claimed_def split: option.split)

lemma verify_jws:
  assumes "go_split (CHR ''.'') token = [h, seg, s]" "to_lower (ulower e) platform \<in> {''ios'', ''android''}"
  shows "fst (VerifyAttestation e ctx platform token w) = None \<longleftrightarrow>
     (\<exists>bytes. jws_payload e seg = Inr bytes \<and> integrity_claimed (to_lower (ulower e) platform) bytes)"
proof -
  have t: "token \<noteq> []" "token \<noteq> ''compromised-device''" "token \<noteq> ''invalid-token''" using assms(1) by auto
  show ?thesis
  proof (cases "jws_payload e seg")
    case (Inl err)
    with assms t show ?thesis by (auto simp: VerifyAttestation_def Let_def)
  next
    case (Inr bytes)
    have fst_case: "fst (case q of (Some err, v) \<Rightarrow> (Some err, v) | (None, v) \<Rightarrow> (None, f v)) = fst q"
      for q :: "go_error option \<times> world" and f by (simp split: prod.split option.split)
    from assms(2) consider "to_lower (ulower e) platform = ''ios''" | "to_lower (ulower e) platform = ''android''"
      by blast
    then show ?thesis
      by cases (use assms(1) t Inr in \<open>simp_all add: VerifyAttestation_def Let_def fst_case checks_claimed\<close>)
  qed
qed

lemma verify_other:
  assumes "\<And>a b c. go_split (CHR ''.'') token \<noteq> [a, b, c]" "to_lower (ulower e) platform \<in> {''ios'', ''android''}"
  shows "fst (VerifyAttestation e ctx platform token w) = None \<longleftrightarrow> token = ''valid-mock-token''"
  using assms by (auto simp: VerifyAttestation_def Let_def split: list.splits)

lemma verify_platform:
  "to_lower (ulower e) platform \<notin> {''ios'', ''android''} \<Longrightarrow>
     fst (VerifyAttestation e ctx platform token w) \<noteq> None"
  by (auto simp: VerifyAttestation_def Let_def)

subsection \<open>The contract of a verifier\<close>

text \<open>
  What the banking service relies on: whether a token passes depends on nothing but the
  platform and the token, and a check changes no key.
\<close>

locale attestation_check =
  fixes verify :: attestation_port
    and passes :: "string \<Rightarrow> string \<Rightarrow> bool"
  assumes verify_passes: "fst (verify ctx platform token w) = None \<longleftrightarrow> passes platform token"
    and verify_frame: "w_keys (snd (verify ctx platform token w)) = w_keys w"
begin

lemma verified: "verify ctx platform token w = (None, w') \<Longrightarrow> passes platform token \<and> w_keys w' = w_keys w"
  using verify_passes [of ctx platform token w] verify_frame [of ctx platform token w] by simp

lemma refused:
  "\<not> passes platform token \<Longrightarrow> \<exists>err w'. verify ctx platform token w = (Some err, w') \<and> w_keys w' = w_keys w"
  using verify_passes [of ctx platform token w] verify_frame [of ctx platform token w]
  by (cases "verify ctx platform token w") auto

end

definition attested :: "env \<Rightarrow> string \<Rightarrow> string \<Rightarrow> bool" where
  "attested e platform token \<longleftrightarrow>
     (let lower = to_lower (ulower e) platform in
      (lower = ''ios'' \<or> lower = ''android'') \<and>
      (case go_split (CHR ''.'') token of
         [_, seg, _] \<Rightarrow> (case jws_payload e seg of Inl _ \<Rightarrow> False | Inr bytes \<Rightarrow> integrity_claimed lower bytes)
       | _ \<Rightarrow> token = ''valid-mock-token''))"

lemma VerifyAttestation_attested:
  "fst (VerifyAttestation e ctx platform token w) = None \<longleftrightarrow> attested e platform token"
proof (cases "to_lower (ulower e) platform \<in> {''ios'', ''android''}")
  case False
  with verify_platform show ?thesis by (auto simp: attested_def Let_def)
next
  case True
  show ?thesis
  proof (cases "\<exists>a b c. go_split (CHR ''.'') token = [a, b, c]")
    case True': True
    then obtain h seg s where sp: "go_split (CHR ''.'') token = [h, seg, s]" by blast
    from verify_jws [OF sp True, of ctx w] True show ?thesis
      by (auto simp: attested_def Let_def sp split: sum.split)
  next
    case False
    with verify_other [of token e platform ctx w] True show ?thesis
      by (auto simp: attested_def Let_def split: list.split)
  qed
qed

lemma VerifyAttestation_keys: "w_keys (snd (VerifyAttestation e ctx platform token w)) = w_keys w"
  by (auto simp: VerifyAttestation_def check_android_def check_ios_def Let_def
      split: option.splits sum.splits list.splits prod.splits if_splits)

interpretation attest: attestation_check "VerifyAttestation ev" "attested ev" for ev :: env
  by unfold_locales (simp_all add: VerifyAttestation_attested VerifyAttestation_keys)

subsection \<open>Properties\<close>

text \<open>
  C20 (attestation_acceptance): the verifier passes a device exactly when its platform is iOS or
  Android in any case and its token is either the mock token or has three segments whose
  middle one decodes, in URL-safe base64 with or without padding, to claims of integrity of
  the platform.
\<close>

theorem attestation_acceptance:
  "fst (VerifyAttestation e ctx platform token w) = None \<longleftrightarrow>
     (to_lower (ulower e) platform = ''ios'' \<or> to_lower (ulower e) platform = ''android'') \<and>
     (token = ''valid-mock-token'' \<or>
      (\<exists>h seg s bytes. go_split (CHR ''.'') token = [h, seg, s] \<and>
         (case raw_url_decode seg of Some b \<Rightarrow> b = bytes | None \<Rightarrow> url_decode seg = Some bytes) \<and>
         integrity_claimed (to_lower (ulower e) platform) bytes))"
proof (cases "to_lower (ulower e) platform \<in> {''ios'', ''android''}")
  case False
  with verify_platform show ?thesis by auto
next
  case True
  show ?thesis
  proof (cases "\<exists>a b c. go_split (CHR ''.'') token = [a, b, c]")
    case True': True
    then obtain h seg s where sp: "go_split (CHR ''.'') token = [h, seg, s]" by blast
    then have "token \<noteq> ''valid-mock-token''" by auto
    with verify_jws [OF sp True] True sp show ?thesis
      by (cases "raw_url_decode seg") (auto simp: jws_payload_ok)
  next
    case False
    with verify_other [of token e platform ctx w] True show ?thesis by auto
  qed
qed

text \<open>
  The header and the signature of an attestation token play no part:
  a token whose middle segment passes also passes with any other header and any other
  signature, so whoever can write the claims can pass.
\<close>

theorem attestation_unsigned:
  assumes "CHR ''.'' \<notin> set h" "CHR ''.'' \<notin> set seg" "CHR ''.'' \<notin> set s"
    and "CHR ''.'' \<notin> set h'" "CHR ''.'' \<notin> set s'"
    and "fst (VerifyAttestation e ctx platform (h @ ''.'' @ seg @ ''.'' @ s) w) = None"
  shows "fst (VerifyAttestation e ctx platform (h' @ ''.'' @ seg @ ''.'' @ s') w) = None"
proof -
  have pl: "to_lower (ulower e) platform \<in> {''ios'', ''android''}" using assms(6) verify_platform by metis
  have "go_split (CHR ''.'') (h @ ''.'' @ seg @ ''.'' @ s) = [h, seg, s]"
    "go_split (CHR ''.'') (h' @ ''.'' @ seg @ ''.'' @ s') = [h', seg, s']"
    using assms(1-5) by (simp_all add: go_split_append)
  with assms(6) show ?thesis by (simp add: verify_jws [OF _ pl])
qed

text \<open>A token of claims anyone can write, with an empty header and signature.\<close>

lemma forged_claims: "integrity_claimed ''ios'' ''{\"appId\":\"x\"}''"
  by code_simp

theorem attestation_unsigned_witness:
  "fst (VerifyAttestation sample_env background ''iOS''
     (''forged'' @ ''.'' @ raw_url_encode ''{\"appId\":\"x\"}'' @ ''.'' @ ''nothing'') world_init) = None"
proof (rule attestation_unsigned [of "[]" "raw_url_encode ''{\"appId\":\"x\"}''" "[]"])
  have l: "to_lower (ulower sample_env) ''iOS'' = ''ios''"
    by (simp add: to_lower_def ascii_lower_def chr_eq_iff)
  have sp: "go_split (CHR ''.'') ([] @ ''.'' @ raw_url_encode ''{\"appId\":\"x\"}'' @ ''.'' @ []) =
      [[], raw_url_encode ''{\"appId\":\"x\"}'', []]"
    by (simp add: go_split_append)
  show "fst (VerifyAttestation sample_env background ''iOS''
      ([] @ ''.'' @ raw_url_encode ''{\"appId\":\"x\"}'' @ ''.'' @ []) world_init) = None"
  proof -
    have pl: "to_lower (ulower sample_env) ''iOS'' \<in> {''ios'', ''android''}" by (simp add: l)
    have "jws_payload sample_env (raw_url_encode ''{\"appId\":\"x\"}'') = Inr ''{\"appId\":\"x\"}''"
      by (simp add: jws_payload_ok)
    then show ?thesis unfolding verify_jws [OF sp pl] l using forged_claims by blast
  qed
qed simp_all

end
