(* ===== verification/KeyRepo.thy ===== *)
theory KeyRepo
  imports SessionRepo "HOL-Library.Multiset"
begin

text \<open>
  \<open>internal/banking/repository/sql_key_repository.go\<close>: the device keys over the table
  \<open>device_enclave_keys\<close> of \<open>migrations/schema.sql\<close>. The port
  \<open>ports.EnclaveKeyRepository\<close> is the record \<open>key_repo\<close>, its contract the locale
  \<open>key_store\<close>.
\<close>

subsection \<open>The statements\<close>

definition key_row :: "env \<Rightarrow> enclave_key \<Rightarrow> enclave_key option" where
  "key_row e k =
     (case (pg_varchar 255 (key_id k), pg_varchar 255 (key_user k), pg_varchar 64 (algorithm k)) of
        (Some i, Some u, Some a) \<Rightarrow>
          if pg_text (public_key_pem k)
          then Some \<lparr>key_id = i, key_user = u, public_key_pem = public_key_pem k, algorithm = a,
                     registered_at = pg_time e (registered_at k)\<rparr>
          else None
      | _ \<Rightarrow> None)"

definition insert_key :: "env \<Rightarrow> enclave_key \<Rightarrow> statement" where
  "insert_key e k n w =
     (case key_row e k of
        None \<Rightarrow> None
      | Some r \<Rightarrow>
          if \<exists>x\<in>set (w_keys w). key_id x = key_id r then None
          else Some (1, w\<lparr>w_keys := w_keys w @ [r]\<rparr>))"

definition select_key :: "string \<Rightarrow> world \<Rightarrow> enclave_key list option" where
  "select_key kid w = (if pg_text kid then Some (filter (\<lambda>r. key_id r = kid) (w_keys w)) else None)"

text \<open>\<open>ORDER BY registered_at DESC\<close>; SQL leaves the order of equal times open.\<close>

definition select_user_keys :: "string \<Rightarrow> world \<Rightarrow> enclave_key list option" where
  "select_user_keys uid w =
     (if pg_text uid
      then Some (sort_key (\<lambda>r. - nanos (registered_at r)) (filter (\<lambda>r. key_user r = uid) (w_keys w)))
      else None)"

definition delete_key :: "string \<Rightarrow> statement" where
  "delete_key kid n w =
     (if pg_text kid
      then Some (length (filter (\<lambda>r. key_id r = kid) (w_keys w)),
                 w\<lparr>w_keys := filter (\<lambda>r. key_id r \<noteq> kid) (w_keys w)\<rparr>)
      else None)"

subsection \<open>The repository\<close>

definition SaveKey :: "env \<Rightarrow> go_ctx \<Rightarrow> enclave_key \<Rightarrow> world \<Rightarrow> go_error option \<times> world" where
  "SaveKey e ctx k w =
     (let w1 = InfoContext ctx ''persisting Secure Enclave public key''
                 [(''key_id'', AStr (key_id k)), (''user_id'', AStr (key_user k)),
                  (''algorithm'', AStr (algorithm k))] w
      in case db_exec e (insert_key e k) w1 of
           (Inl err, w2) \<Rightarrow> (Some (ErrWrap ''failed to insert enclave key: '' err []), w2)
         | (Inr n, w2) \<Rightarrow> (None, w2))"

definition GetKey :: "env \<Rightarrow> go_ctx \<Rightarrow> string \<Rightarrow> world \<Rightarrow> (go_error + enclave_key) \<times> world" where
  "GetKey e ctx kid w =
     (let w1 = InfoContext ctx ''retrieving Secure Enclave public key by ID'' [(''key_id'', AStr kid)] w
      in case db_get e (select_key kid) w1 of
           (Inl err, w2) \<Rightarrow>
             (if errors_is err ErrNoRows then Inl (ErrNew (''enclave key not found: '' @ kid))
              else Inl (ErrWrap ''failed to query enclave key: '' err []), w2)
         | (Inr k, w2) \<Rightarrow> (Inr k, w2))"

definition GetKeysByUserID :: "env \<Rightarrow> go_ctx \<Rightarrow> string \<Rightarrow> world \<Rightarrow> (go_error + enclave_key list) \<times> world" where
  "GetKeysByUserID e ctx uid w =
     (let w1 = InfoContext ctx ''retrieving all Secure Enclave keys for user'' [(''user_id'', AStr uid)] w
      in case db_select e (select_user_keys uid) w1 of
           (Inl err, w2) \<Rightarrow> (Inl (ErrWrap ''failed to select enclave keys by user ID: '' err []), w2)
         | (Inr ks, w2) \<Rightarrow> (Inr ks, w2))"

definition DeleteKey :: "env \<Rightarrow> go_ctx \<Rightarrow> string \<Rightarrow> world \<Rightarrow> go_error option \<times> world" where
  "DeleteKey e ctx kid w =
     (let w1 = InfoContext ctx ''revoking/deleting Secure Enclave public key'' [(''key_id'', AStr kid)] w
      in case db_exec e (delete_key kid) w1 of
           (Inl err, w2) \<Rightarrow> (Some (ErrWrap ''failed to delete enclave key: '' err []), w2)
         | (Inr n, w2) \<Rightarrow>
             (if rows_affected e (w_db w1) n = Some 0
              then Some (ErrNew (''enclave key not found: '' @ kid)) else None, w2))"

subsection \<open>The port\<close>

record key_repo =
  keys_save :: "go_ctx \<Rightarrow> enclave_key \<Rightarrow> world \<Rightarrow> go_error option \<times> world"
  keys_get :: "go_ctx \<Rightarrow> string \<Rightarrow> world \<Rightarrow> (go_error + enclave_key) \<times> world"
  keys_of_user :: "go_ctx \<Rightarrow> string \<Rightarrow> world \<Rightarrow> (go_error + enclave_key list) \<times> world"
  keys_delete :: "go_ctx \<Rightarrow> string \<Rightarrow> world \<Rightarrow> go_error option \<times> world"

definition SQLEnclaveKeyRepository :: "env \<Rightarrow> key_repo" where
  "SQLEnclaveKeyRepository e =
     \<lparr>keys_save = SaveKey e, keys_get = GetKey e, keys_of_user = GetKeysByUserID e, keys_delete = DeleteKey e\<rparr>"

text \<open>
  What a client relies on: the keys it is given for a user are registered to that user, a
  query changes nothing, and no call but a save adds a key.
\<close>

locale key_store =
  fixes repo :: key_repo
    and registered :: "world \<Rightarrow> enclave_key set"
  assumes user_keys: "keys_of_user repo ctx uid w = (Inr ks, w') \<Longrightarrow>
      set ks = {k \<in> registered w. key_user k = uid}"
    and user_keys_frame: "registered (snd (keys_of_user repo ctx uid w)) = registered w"
    and get_key: "keys_get repo ctx kid w = (Inr k, w') \<Longrightarrow> k \<in> registered w \<and> key_id k = kid"
    and delete_frame: "registered (snd (keys_delete repo ctx kid w)) \<subseteq> registered w"
    and delete_gone: "keys_delete repo ctx kid w = (None, w') \<Longrightarrow> k \<in> registered w' \<Longrightarrow> key_id k \<noteq> kid"
    and registered_table: "w_keys w = w_keys w' \<Longrightarrow> registered w = registered w'"
begin

text \<open>A deleted key verifies nothing any more: it is in no list a user gets.\<close>

lemma deleted_not_listed:
  assumes "keys_delete repo ctx kid w = (None, w1)" "keys_of_user repo ctx' uid w1 = (Inr ks, w2)" "k \<in> set ks"
  shows "key_id k \<noteq> kid"
  using user_keys [OF assms(2)] delete_gone [OF assms(1)] assms(3) by blast

lemma listed_owner: "keys_of_user repo ctx uid w = (Inr ks, w') \<Longrightarrow> k \<in> set ks \<Longrightarrow> key_user k = uid"
  using user_keys by blast

end

text \<open>
  A store that also says what a save does: it adds the key in the form \<open>stored\<close> gives it, of
  the same public key, or nothing if it fails, and maybe all the same.
\<close>

locale key_registry = key_store repo registered
  for repo :: key_repo and registered :: "world \<Rightarrow> enclave_key set" +
  fixes stored :: "enclave_key \<Rightarrow> enclave_key option"
  assumes stored_pem: "stored k = Some r \<Longrightarrow> public_key_pem r = public_key_pem k"
    and save_done: "keys_save repo ctx k w = (None, w') \<Longrightarrow>
      \<exists>r. stored k = Some r \<and> registered w' = insert r (registered w)"
    and save_frame: "keys_save repo ctx k w = (q, w') \<Longrightarrow> registered w' \<subseteq> registered w \<union> set_option (stored k)"
begin

lemma save_listed:
  assumes "keys_save repo ctx k w = (None, w1)" "keys_of_user repo ctx' uid w1 = (Inr ks, w2)"
    and "stored k = Some r" "key_user r = uid"
  shows "r \<in> set ks"
  using save_done [OF assms(1)] user_keys [OF assms(2)] assms(3,4) by auto

end

subsection \<open>The SQL repository keeps the contract\<close>

lemma GetKeys_keeps [simp]:
  "w_keys (snd (GetKeysByUserID e ctx uid w)) = w_keys w" "w_keys (snd (GetKey e ctx kid w)) = w_keys w"
  "w_sent (snd (GetKeysByUserID e ctx uid w)) = w_sent w"
  "w_clock (snd (GetKeysByUserID e ctx uid w)) = w_clock w"
  by (simp_all add: GetKeysByUserID_def db_select_def GetKey_def db_get_def Let_def split: sum.split)

lemma GetKeys_found:
  "GetKeysByUserID e ctx uid w = (Inr ks, w') \<Longrightarrow>
     ks = sort_key (\<lambda>r. - nanos (registered_at r)) (filter (\<lambda>r. key_user r = uid) (w_keys w))"
  by (auto simp: GetKeysByUserID_def db_select_def select_user_keys_def Let_def
      split: option.splits prod.splits if_splits)

lemma GetKey_found:
  assumes "GetKey e ctx kid w = (Inr k, w')"
  shows "k \<in> set (w_keys w) \<and> key_id k = kid"
proof -
  let ?w1 = "InfoContext ctx ''retrieving Secure Enclave public key by ID'' [(''key_id'', AStr kid)] w"
  from assms have "fst (db_get e (select_key kid) ?w1) = Inr k"
    by (auto simp: GetKey_def split: sum.splits prod.splits if_splits)
  then obtain rs where "filter (\<lambda>r. key_id r = kid) (w_keys w) = k # rs"
    by (auto simp: db_get_def select_key_def Let_def split: option.splits prod.splits list.splits if_splits)
  then have "k \<in> set (filter (\<lambda>r. key_id r = kid) (w_keys w))" by simp
  then show ?thesis by simp
qed

lemma DeleteKey_keys:
  assumes "DeleteKey e ctx kid w = (r, w')"
  shows "w_keys w' = w_keys w \<or> w_keys w' = filter (\<lambda>k. key_id k \<noteq> kid) (w_keys w)"
    and "r = None \<Longrightarrow> w_keys w' = filter (\<lambda>k. key_id k \<noteq> kid) (w_keys w)"
proof -
  let ?w1 = "InfoContext ctx ''revoking/deleting Secure Enclave public key'' [(''key_id'', AStr kid)] w"
  obtain q w2 where ex: "db_exec e (delete_key kid) ?w1 = (q, w2)" by fastforce
  with assms have w2: "w' = w2" "r = None \<Longrightarrow> \<exists>n. q = Inr n" by (auto simp: DeleteKey_def split: sum.splits)
  from ex have "w_keys w2 = w_keys w \<and> (\<exists>err. q = Inl err) \<or> w_keys w2 = filter (\<lambda>k. key_id k \<noteq> kid) (w_keys w)"
    by (cases rule: db_exec_cases) (auto simp: delete_key_def split: if_splits)
  with w2 show "w_keys w' = w_keys w \<or> w_keys w' = filter (\<lambda>k. key_id k \<noteq> kid) (w_keys w)"
    "r = None \<Longrightarrow> w_keys w' = filter (\<lambda>k. key_id k \<noteq> kid) (w_keys w)" by auto
qed

lemma key_row_bounds:
  "key_row e k = Some r \<Longrightarrow>
     rune_count (key_id r) \<le> 255 \<and> rune_count (key_user r) \<le> 255 \<and> rune_count (algorithm r) \<le> 64"
  by (auto simp: key_row_def dest: pg_varchar_bound split: option.splits if_splits)

lemma key_row_pem: "key_row e k = Some r \<Longrightarrow> public_key_pem r = public_key_pem k"
  by (auto simp: key_row_def split: option.splits if_splits)

lemma SaveKey_keys:
  assumes "SaveKey e ctx k w = (r, w')"
  shows "w_keys w' = w_keys w \<or>
     (\<exists>row. key_row e k = Some row \<and> key_id row \<notin> key_id ` set (w_keys w) \<and> w_keys w' = w_keys w @ [row])"
    and "r = None \<Longrightarrow>
     \<exists>row. key_row e k = Some row \<and> key_id row \<notin> key_id ` set (w_keys w) \<and> w_keys w' = w_keys w @ [row]"
proof -
  let ?w1 = "InfoContext ctx ''persisting Secure Enclave public key''
      [(''key_id'', AStr (key_id k)), (''user_id'', AStr (key_user k)), (''algorithm'', AStr (algorithm k))] w"
  let ?added = "\<exists>row. key_row e k = Some row \<and> key_id row \<notin> key_id ` set (w_keys w) \<and> w_keys w' = w_keys w @ [row]"
  obtain q w2 where ex: "db_exec e (insert_key e k) ?w1 = (q, w2)" by fastforce
  with assms have w2: "w' = w2" "r = None \<Longrightarrow> \<exists>n. q = Inr n" by (auto simp: SaveKey_def split: sum.splits)
  from ex have "w_keys w2 = w_keys w \<and> (\<exists>err. q = Inl err) \<or> ?added" unfolding w2(1)
    by (cases rule: db_exec_cases) (auto simp: insert_key_def split: option.splits if_splits)
  with w2 show "w_keys w' = w_keys w \<or> ?added" "r = None \<Longrightarrow> ?added" by auto
qed

interpretation keys: key_registry "SQLEnclaveKeyRepository ev" "\<lambda>w. set (w_keys w)" "key_row ev" for ev :: env
proof
  fix ctx uid w ks w'
  assume "keys_of_user (SQLEnclaveKeyRepository ev) ctx uid w = (Inr ks, w')"
  then show "set ks = {k \<in> set (w_keys w). key_user k = uid}"
    by (auto simp: SQLEnclaveKeyRepository_def dest!: GetKeys_found)
next
  fix ctx kid w w' k
  assume "keys_get (SQLEnclaveKeyRepository ev) ctx kid w = (Inr k, w')"
  then show "k \<in> set (w_keys w) \<and> key_id k = kid" by (simp add: SQLEnclaveKeyRepository_def GetKey_found)
next
  fix ctx kid w
  obtain r w' where d: "DeleteKey ev ctx kid w = (r, w')" by fastforce
  then show "set (w_keys (snd (keys_delete (SQLEnclaveKeyRepository ev) ctx kid w))) \<subseteq> set (w_keys w)"
    using DeleteKey_keys(1) [OF d] by (auto simp: SQLEnclaveKeyRepository_def)
next
  fix ctx kid w w' k
  assume "keys_delete (SQLEnclaveKeyRepository ev) ctx kid w = (None, w')" "k \<in> set (w_keys w')"
  then show "key_id k \<noteq> kid" using DeleteKey_keys(2) by (auto simp: SQLEnclaveKeyRepository_def)
next
  fix k r
  assume "key_row ev k = Some r"
  then show "public_key_pem r = public_key_pem k" by (rule key_row_pem)
next
  fix ctx k w w'
  assume "keys_save (SQLEnclaveKeyRepository ev) ctx k w = (None, w')"
  then show "\<exists>r. key_row ev k = Some r \<and> set (w_keys w') = insert r (set (w_keys w))"
    using SaveKey_keys(2) [of ev ctx k w None w'] by (auto simp: SQLEnclaveKeyRepository_def)
next
  fix ctx k w q w'
  assume "keys_save (SQLEnclaveKeyRepository ev) ctx k w = (q, w')"
  then show "set (w_keys w') \<subseteq> set (w_keys w) \<union> set_option (key_row ev k)"
    using SaveKey_keys(1) [of ev ctx k w q w'] by (auto simp: SQLEnclaveKeyRepository_def)
qed (simp_all add: SQLEnclaveKeyRepository_def)

subsection \<open>Sequences of calls\<close>

datatype key_call =
    CallSave go_ctx enclave_key
  | CallGet go_ctx string
  | CallList go_ctx string
  | CallDelete go_ctx string

fun run_call :: "env \<Rightarrow> key_call \<Rightarrow> world \<Rightarrow> world" where
  "run_call e (CallSave ctx k) w = snd (SaveKey e ctx k w)"
| "run_call e (CallGet ctx kid) w = snd (GetKey e ctx kid w)"
| "run_call e (CallList ctx uid) w = snd (GetKeysByUserID e ctx uid w)"
| "run_call e (CallDelete ctx kid) w = snd (DeleteKey e ctx kid w)"

definition run_calls :: "env \<Rightarrow> key_call list \<Rightarrow> world \<Rightarrow> world" where
  "run_calls e cs w = fold (run_call e) cs w"

text \<open>Identifiers are unique, and the columns are within their limits.\<close>

definition keys_wf :: "enclave_key list \<Rightarrow> bool" where
  "keys_wf ks \<longleftrightarrow>
     distinct (map key_id ks) \<and>
     list_all (\<lambda>k. rune_count (key_id k) \<le> 255 \<and> rune_count (key_user k) \<le> 255 \<and>
                   rune_count (algorithm k) \<le> 64) ks"

lemma keys_wf_filter: "keys_wf ks \<Longrightarrow> keys_wf (filter P ks)"
  by (auto simp: keys_wf_def distinct_map_filter list_all_iff)

lemma run_call_wf: "keys_wf (w_keys w) \<Longrightarrow> keys_wf (w_keys (run_call e c w))"
proof (cases c)
  case (CallSave ctx k)
  obtain r w' where s: "SaveKey e ctx k w = (r, w')" by fastforce
  assume "keys_wf (w_keys w)"
  with SaveKey_keys(1) [OF s] show ?thesis unfolding CallSave
    by (auto simp: s keys_wf_def dest: key_row_bounds)
next
  case (CallDelete ctx kid)
  obtain r w' where d: "DeleteKey e ctx kid w = (r, w')" by fastforce
  assume "keys_wf (w_keys w)"
  with DeleteKey_keys(1) [OF d] show ?thesis unfolding CallDelete by (auto simp: d keys_wf_filter)
qed simp_all

lemma run_call_keeps:
  assumes "k \<in> set (w_keys w)" "\<And>ctx. c \<noteq> CallDelete ctx (key_id k)"
  shows "k \<in> set (w_keys (run_call e c w))"
proof (cases c)
  case (CallSave ctx k')
  obtain r w' where s: "SaveKey e ctx k' w = (r, w')" by fastforce
  from SaveKey_keys(1) [OF s] assms(1) show ?thesis unfolding CallSave by (auto simp: s)
next
  case (CallDelete ctx kid)
  obtain r w' where d: "DeleteKey e ctx kid w = (r, w')" by fastforce
  from assms(2) [of ctx] have "kid \<noteq> key_id k" by (auto simp: CallDelete)
  with DeleteKey_keys(1) [OF d] assms(1) show ?thesis unfolding CallDelete by (auto simp: d)
qed (use assms(1) in simp_all)

lemma run_calls_wf: "keys_wf (w_keys w) \<Longrightarrow> keys_wf (w_keys (run_calls e cs w))"
  by (induction cs arbitrary: w) (simp_all add: run_calls_def run_call_wf)

lemma run_calls_keeps:
  "k \<in> set (w_keys w) \<Longrightarrow> (\<And>ctx. CallDelete ctx (key_id k) \<notin> set cs) \<Longrightarrow> k \<in> set (w_keys (run_calls e cs w))"
proof (induction cs arbitrary: w)
  case (Cons c cs)
  have "\<And>ctx. c \<noteq> CallDelete ctx (key_id k)" using Cons.prems(2) by (metis list.set_intros(1))
  then have "k \<in> set (w_keys (run_call e c w))" using run_call_keeps Cons.prems(1) by blast
  then show ?case using Cons.IH Cons.prems(2) by (simp add: run_calls_def)
qed (simp add: run_calls_def)

lemma filter_key_singleton:
  assumes "distinct (map f xs)" "x \<in> set xs"
  shows "filter (\<lambda>y. f y = f x) xs = [x]"
proof -
  from assms(2) obtain ys zs where xs: "xs = ys @ x # zs" by (meson split_list)
  with assms(1) have "\<forall>y\<in>set ys \<union> set zs. f y \<noteq> f x" by (auto simp: image_iff)
  then have "filter (\<lambda>y. f y = f x) ys = []" "filter (\<lambda>y. f y = f x) zs = []"
    by (simp_all add: filter_empty_conv)
  then show ?thesis by (simp add: xs)
qed

subsection \<open>Properties\<close>

text \<open>
  C28 (key_binding): a device key stays bound: whatever calls the repository gets, in whatever
  order and with whatever faults, the table holds at most one key of an identifier, and one
  that is there keeps its owner and its public key until a call deletes that identifier.
\<close>

theorem key_binding:
  assumes "w_keys w = []" "k \<in> set (w_keys (run_calls e cs w))"
    and "\<forall>ctx. CallDelete ctx (key_id k) \<notin> set cs'"
  shows "filter (\<lambda>x. key_id x = key_id k) (w_keys (run_calls e cs' (run_calls e cs w))) = [k]"
proof -
  let ?ks = "w_keys (run_calls e cs' (run_calls e cs w))"
  have "keys_wf (w_keys (run_calls e cs w))" by (rule run_calls_wf) (simp add: assms(1) keys_wf_def)
  then have "distinct (map key_id ?ks)" using run_calls_wf keys_wf_def by metis
  moreover have "k \<in> set ?ks" using run_calls_keeps assms(2,3) by blast
  ultimately show ?thesis by (rule filter_key_singleton)
qed


definition sample_key :: enclave_key where
  "sample_key =
     \<lparr>key_id = ''dev1'', key_user = ''alice'', public_key_pem = ''pem'', algorithm = ''ECDSA_P256'',
      registered_at = Instant 1700000000000000000\<rparr>"

lemma sample_key_saved:
  "fst (SaveKey sample_env background sample_key world_init) = None"
  "w_keys (snd (SaveKey sample_env background sample_key world_init)) = [sample_key]"
  by code_simp+

theorem key_binding_witness:
  "filter (\<lambda>x. key_id x = ''dev1'')
     (w_keys (run_calls sample_env
        [CallSave background (sample_key\<lparr>key_user := ''mallory'', public_key_pem := ''other''\<rparr>),
         CallDelete background ''dev2'']
        (run_calls sample_env [CallSave background sample_key] world_init))) = [sample_key]"
proof -
  have "sample_key \<in> set (w_keys (run_calls sample_env [CallSave background sample_key] world_init))"
    by (simp add: run_calls_def sample_key_saved)
  from key_binding [OF _ this, of "[CallSave background (sample_key\<lparr>key_user := ''mallory'', public_key_pem := ''other''\<rparr>),
      CallDelete background ''dev2'']"]
  show ?thesis by (simp add: world_init_def sample_key_def)
qed

text \<open>
  Once a key is saved, the list of a user's keys has exactly the rows of that
  user, the new one with its public key among them if it is theirs, the newest first.
\<close>

theorem keys_listed:
  assumes "SaveKey e ctx k w = (None, w1)" "GetKeysByUserID e ctx' uid w1 = (Inr ks, w2)"
  shows "\<exists>row. key_row e k = Some row \<and> public_key_pem row = public_key_pem k \<and>
     mset ks = filter_mset (\<lambda>x. key_user x = uid) (mset (w_keys w) + {#row#}) \<and>
     sorted (rev (map (\<lambda>x. nanos (registered_at x)) ks))"
proof -
  obtain row where row: "key_row e k = Some row" "w_keys w1 = w_keys w @ [row]"
    using SaveKey_keys(2) [OF assms(1)] by blast
  have ks: "ks = sort_key (\<lambda>r. - nanos (registered_at r)) (filter (\<lambda>r. key_user r = uid) (w_keys w1))"
    by (rule GetKeys_found [OF assms(2)])
  have "sorted_wrt (\<lambda>x y. nanos (registered_at y) \<le> nanos (registered_at x)) ks"
    using sorted_sort_key [of "\<lambda>r. - nanos (registered_at r)" "filter (\<lambda>r. key_user r = uid) (w_keys w1)"]
    unfolding ks sorted_map by simp
  then have "sorted (rev (map (\<lambda>x. nanos (registered_at x)) ks))"
    by (simp add: sorted_wrt_rev sorted_wrt_map)
  moreover have "public_key_pem row = public_key_pem k"
    by (rule key_row_pem [OF row(1)])
  moreover have "mset ks = filter_mset (\<lambda>x. key_user x = uid) (mset (w_keys w) + {#row#})"
    by (simp add: ks row(2))
  ultimately show ?thesis using row(1) by blast
qed

theorem keys_listed_witness:
  "\<exists>ks w2. GetKeysByUserID sample_env background ''alice''
       (snd (SaveKey sample_env background sample_key world_init)) = (Inr ks, w2) \<and>
     mset ks = {#sample_key#}"
proof -
  let ?w1 = "snd (SaveKey sample_env background sample_key world_init)"
  have s: "SaveKey sample_env background sample_key world_init = (None, ?w1)"
    using sample_key_saved(1) by (metis prod.collapse)
  have "(case fst (GetKeysByUserID sample_env background ''alice'' ?w1) of Inl _ \<Rightarrow> False | Inr _ \<Rightarrow> True)"
    by code_simp
  then obtain ks w2 where g: "GetKeysByUserID sample_env background ''alice'' ?w1 = (Inr ks, w2)"
    by (cases "GetKeysByUserID sample_env background ''alice'' ?w1") (auto split: sum.splits)
  have "key_row sample_env sample_key = Some sample_key" by code_simp
  with keys_listed [OF s g] have "mset ks = filter_mset (\<lambda>x. key_user x = ''alice'') {#sample_key#}"
    by (simp add: world_init_def)
  with g show ?thesis by (simp add: sample_key_def)
qed

end
