(* ===== verification/BankService.thy ===== *)
theory BankService
  imports BankCrypto Signature Attestation KeyRepo GoFloat
begin

text \<open>
  \<open>internal/banking/services/banking_service.go\<close>: registering a device key after its
  attestation, forwarding a transfer from the edge to the intranet with a fresh internal
  token, and executing it there against the token, its scope and the user's device keys.
\<close>

text \<open>The service's shared secret and the address of the intranet.\<close>

record bank_config =
  shared_secret :: string
  private_url :: string

text \<open>
  The settings of the circuit breaker around the requests to the intranet, and the condition
  under which it opens, on the counts that gobreaker keeps. Times are in nanoseconds.
\<close>

record breaker_counts =
  requests :: "32 word"
  total_failures :: "32 word"

record breaker_settings =
  breaker_name :: string
  max_requests :: "32 word"
  breaker_interval :: int
  breaker_timeout :: int
  trips :: "breaker_counts \<Rightarrow> bool"

definition ready_to_trip :: "breaker_counts \<Rightarrow> bool" where
  "ready_to_trip counts =
     (let failure_ratio = div_float (int_float (uint (total_failures counts))) (int_float (uint (requests counts)))
      in 5 \<le> requests counts \<and> float_ge failure_ratio (1 / 2))"

definition intranet_breaker :: breaker_settings where
  "intranet_breaker =
     \<lparr>breaker_name = ''PrivateCoreBankingClient'', max_requests = 3, breaker_interval = 10 * second,
      breaker_timeout = 30 * second, trips = ready_to_trip\<rparr>"

text \<open>
  Without a client of its own the service takes one with a timeout; \<open>None\<close> is a client that
  waits for ever.
\<close>

definition client_timeout :: "int option option \<Rightarrow> int option" where
  "client_timeout given = (case given of None \<Rightarrow> Some (10 * second) | Some t \<Rightarrow> t)"

text \<open>The rounding of the ratio does not move the threshold of a half.\<close>

lemma ready_to_trip_exact:
  "ready_to_trip c \<longleftrightarrow> 5 \<le> uint (requests c) \<and> uint (requests c) \<le> 2 * uint (total_failures c)"
proof (cases "5 \<le> uint (requests c)")
  case True
  have "0 \<le> uint (total_failures c)" "uint (total_failures c) < 2 ^ 32" "uint (requests c) < 2 ^ 32"
    using uint_lt2p [of "total_failures c"] uint_lt2p [of "requests c"] by simp_all
  with quotient_half [of "uint (total_failures c)" "uint (requests c)"] True show ?thesis
    by (simp add: ready_to_trip_def word_le_def Let_def)
qed (simp add: ready_to_trip_def word_le_def Let_def)

subsection \<open>Device registration\<close>

definition RegisterDeviceKey ::
  "env \<Rightarrow> key_repo \<Rightarrow> attestation_port \<Rightarrow> go_ctx \<Rightarrow> string \<Rightarrow> enclave_key \<Rightarrow> string \<Rightarrow> string \<Rightarrow>
   world \<Rightarrow> go_error option \<times> world" where
  "RegisterDeviceKey e repo verify ctx uid key platform token w =
     (let who = [(''user_id'', AStr uid), (''key_id'', AStr (key_id key))];
          w1 = InfoContext ctx ''registering device key with attestation'' who w
      in case verify ctx platform token w1 of
           (Some err, w2) \<Rightarrow>
             (Some (ErrWrap ''device integrity check failed: '' err []),
              WarnContext ctx ''device attestation failed'' [(''user_id'', AStr uid), (''error'', AErr err)] w2)
         | (None, w2) \<Rightarrow>
     (case time_now e w2 of (now, w3) \<Rightarrow>
      case keys_save repo ctx (key\<lparr>key_user := uid, registered_at := now\<rparr>) w3 of
           (Some err, w4) \<Rightarrow>
             (Some (ErrWrap ''failed to save enclave key: '' err []),
              ErrorContext ctx ''failed to save enclave public key''
                [(''user_id'', AStr uid), (''error'', AErr err)] w4)
         | (None, w4) \<Rightarrow> (None, InfoContext ctx ''device key registered successfully'' who w4)))"

subsection \<open>The edge\<close>

text \<open>
  The message of a refusal: the member \<open>error\<close> of the answer decoded as a map of strings,
  whose decoding error is dropped; a member of another type counts as empty.
\<close>

definition refusal_message :: "response \<Rightarrow> string" where
  "refusal_message resp =
     (let msg = (case decode_body (rs_body resp) of
                   Some (JObj kvs) \<Rightarrow> (case map_of (rev kvs) ''error'' of Some (JStr s) \<Rightarrow> s | _ \<Rightarrow> [])
                 | _ \<Rightarrow> [])
      in if msg = [] then ''HTTP status '' @ int_dec (rs_status resp) else msg)"

text \<open>The function the circuit breaker runs.\<close>

definition forward_transfer ::
  "env \<Rightarrow> go_ctx \<Rightarrow> string \<Rightarrow> string \<Rightarrow> string \<Rightarrow> world \<Rightarrow> (go_error + string) \<times> world" where
  "forward_transfer e ctx url token payload w =
     (case new_request e ''POST'' url payload of
        Inl err \<Rightarrow> (Inl err, w)
      | Inr q \<Rightarrow>
     (let req = q\<lparr>oq_headers := header_set ''Content-Type'' ''application/json''
                    (header_set ''Authorization'' (''Bearer '' @ token) (oq_headers q))\<rparr>
      in case http_do e req w of
           (Inl err, w1) \<Rightarrow>
             (Inl err, ErrorContext ctx ''intranet peer HTTP request failed'' [(''error'', AErr err)] w1)
         | (Inr resp, w1) \<Rightarrow>
             if rs_status resp \<noteq> 200
             then (Inl (ErrNew (''intranet execution rejected: '' @ refusal_message resp)), w1)
             else (Inr ''SUCCESS'', w1)))"

definition InitiateTransfer ::
  "env \<Rightarrow> bank_config \<Rightarrow> go_ctx \<Rightarrow> string \<Rightarrow> transfer_payload \<Rightarrow> world \<Rightarrow> go_error option \<times> world" where
  "InitiateTransfer e cfg ctx uid p w =
     (let w1 = InfoContext ctx ''initiating money transfer edge request''
            [(''user_id'', AStr uid), (''tx_id'', AStr (tx_id p)),
             (''sender'', MaskedAccount_LogValue (sender_account p)),
             (''receiver'', MaskedAccount_LogValue (receiver_account p)),
             (''amount_cents'', AInt (amount_cents p))] w
      in if amount_cents p \<le> 0
         then (Some (ErrNew ''invalid transfer amount: must be positive''), w1)
         else if sender_account p = [] \<or> receiver_account p = []
         then (Some (ErrNew ''sender and receiver accounts must not be empty''), w1)
         else
     (case GenerateInternalJWT e uid (Some [''transfer:execute'']) (shared_secret cfg) minute w1 of
        (Inl err, w2) \<Rightarrow> (Some (ErrWrap ''failed to perform token swap: '' err []), w2)
      | (Inr token, w2) \<Rightarrow>
     (case payload_marshal p of
        None \<Rightarrow> (Some (ErrWrap ''failed to serialize payload: ''
                  (ErrNew (json_err e ''TransferPayload'' BodyNil)) []), w2)
      | Some bytes \<Rightarrow>
     (case breaker_execute e (forward_transfer e ctx (private_url cfg) token bytes) w2 of
        (Inl err, w3) \<Rightarrow>
          (Some (ErrWrap ''transfer execution failed: '' err []),
           ErrorContext ctx ''failed to initiate transfer via intranet connection'' [(''error'', AErr err)] w3)
      | (Inr _, w3) \<Rightarrow>
          (None, InfoContext ctx ''transfer execution completed successfully'' [(''tx_id'', AStr (tx_id p))] w3)))))"

subsection \<open>The intranet\<close>

fun has_scope :: "string \<Rightarrow> string list \<Rightarrow> bool" where
  "has_scope sc [] = False"
| "has_scope sc (s # ss) = (if s = sc then True else has_scope sc ss)"

text \<open>The loop over the keys stops at the first that verifies the payload.\<close>

fun first_verifying :: "env \<Rightarrow> 'k crypto_lib \<Rightarrow> transfer_payload \<Rightarrow> enclave_key list \<Rightarrow> enclave_key option" where
  "first_verifying e lib p [] = None"
| "first_verifying e lib p (k # ks) =
     (if VerifyEnclaveSignature e lib (public_key_pem k) (Some p) = None then Some k
      else first_verifying e lib p ks)"

definition ExecuteIntranetTransfer ::
  "env \<Rightarrow> bank_config \<Rightarrow> 'k crypto_lib \<Rightarrow> key_repo \<Rightarrow> go_ctx \<Rightarrow> string \<Rightarrow> transfer_payload \<Rightarrow> world \<Rightarrow>
   go_error option \<times> world" where
  "ExecuteIntranetTransfer e cfg lib repo ctx token p w =
     (let w1 = InfoContext ctx ''executing private VPC intranet ledger transfer'' [(''tx_id'', AStr (tx_id p))] w
      in case VerifyInternalJWT e token (shared_secret cfg) w1 of
           (Inl err, w2) \<Rightarrow>
             (Some (ErrWrap ''unauthorized internal token: '' err []),
              WarnContext ctx ''internal JWT validation failed'' [(''error'', AErr err)] w2)
         | (Inr claims, w2) \<Rightarrow>
     if \<not> has_scope ''transfer:execute'' (claims_scopes claims)
     then (Some (ErrNew (''unauthorized: missing required '' @ [chr 39] @ ''transfer:execute'' @ [chr 39] @ '' scope'')), w2)
     else
     (case keys_of_user repo ctx (claims_sub claims) w2 of
        (Inl err, w3) \<Rightarrow> (Some (ErrWrap ''failed to retrieve enclave keys for user: '' err []), w3)
      | (Inr ks, w3) \<Rightarrow>
     if ks = [] then (Some (ErrNew ''unauthorized: user has zero registered device enclave keys''), w3)
     else
     (case first_verifying e lib p ks of
        None \<Rightarrow>
          (Some (ErrNew ''unauthorized: cryptographic secure enclave signature is invalid or tampered''),
           WarnContext ctx ''Secure Enclave signature check failed for all registered keys'' [] w3)
      | Some k \<Rightarrow>
          (None,
           InfoContext ctx ''transaction finalized on core secure banking ledger''
             [(''tx_id'', AStr (tx_id p)), (''sender'', MaskedAccount_LogValue (sender_account p)),
              (''receiver'', MaskedAccount_LogValue (receiver_account p)),
              (''amount_cents'', AInt (amount_cents p))]
             (InfoContext ctx ''Secure Enclave signature validated successfully''
                [(''key_id'', AStr (key_id k))] w3)))))"


subsection \<open>What a client of the ports gets\<close>

lemma has_scope_iff: "has_scope sc ss \<longleftrightarrow> sc \<in> set ss"
  by (induction ss) auto

lemma first_verifying_Some:
  "first_verifying e lib p ks = Some k \<Longrightarrow>
     k \<in> set ks \<and> VerifyEnclaveSignature e lib (public_key_pem k) (Some p) = None"
  by (induction ks) (auto split: if_splits)

lemma first_verifying_None:
  "first_verifying e lib p ks = None \<longleftrightarrow>
     (\<forall>k\<in>set ks. VerifyEnclaveSignature e lib (public_key_pem k) (Some p) \<noteq> None)"
  by (induction ks) auto

lemma first_verifying_cong:
  assumes "\<And>pem. VerifyEnclaveSignature e lib pem (Some p) = VerifyEnclaveSignature e lib pem (Some q)"
  shows "first_verifying e lib p ks = first_verifying e lib q ks"
  by (induction ks) (simp_all add: assms)

lemma Verify_keeps [simp]:
  "w_keys (snd (VerifyInternalJWT e token secret w)) = w_keys w"
  "w_sent (snd (VerifyInternalJWT e token secret w)) = w_sent w"
  "w_db (snd (VerifyInternalJWT e token secret w)) = w_db w"
  "w_sessions (snd (VerifyInternalJWT e token secret w)) = w_sessions w"
  by (auto simp: VerifyInternalJWT_def time_now_def split: list.split option.split prod.split)

lemma Verify_log: "w_clock w = w_clock w' \<Longrightarrow>
    fst (VerifyInternalJWT e token secret w) = fst (VerifyInternalJWT e token secret w')"
  by (auto simp: VerifyInternalJWT_def time_now_def split: list.split option.split prod.split)

lemma Generate_keeps:
  "GenerateInternalJWT e uid scopes secret ttl w = (r, w') \<Longrightarrow>
     w_keys w' = w_keys w \<and> w_sent w' = w_sent w \<and> w_http w' = w_http w \<and> w_breaker w' = w_breaker w"
  by (auto simp: GenerateInternalJWT_def time_now_def Let_def split: if_splits)

text \<open>
  The banking service over any registry of keys and any verifier of attestations that keep
  their contracts.
\<close>

locale banking = key_registry repo registered stored + attestation_check verify passes
  for repo :: key_repo and registered :: "world \<Rightarrow> enclave_key set"
    and stored :: "enclave_key \<Rightarrow> enclave_key option"
    and verify :: attestation_port and passes :: "string \<Rightarrow> string \<Rightarrow> bool"
begin

lemma register_refused:
  assumes "\<not> passes platform token"
  shows "fst (RegisterDeviceKey e repo verify ctx uid key platform token w) \<noteq> None"
    and "registered (snd (RegisterDeviceKey e repo verify ctx uid key platform token w)) = registered w"
proof -
  let ?w1 = "InfoContext ctx ''registering device key with attestation''
      [(''user_id'', AStr uid), (''key_id'', AStr (key_id key))] w"
  obtain err w2 where v: "verify ctx platform token ?w1 = (Some err, w2)" "w_keys w2 = w_keys w"
    using refused [OF assms, of ctx ?w1] by auto
  then show "fst (RegisterDeviceKey e repo verify ctx uid key platform token w) \<noteq> None"
    by (simp add: RegisterDeviceKey_def)
  have "w_keys (snd (RegisterDeviceKey e repo verify ctx uid key platform token w)) = w_keys w"
    using v by (simp add: RegisterDeviceKey_def)
  then show "registered (snd (RegisterDeviceKey e repo verify ctx uid key platform token w)) = registered w"
    by (rule registered_table)
qed

lemma register_done:
  assumes "RegisterDeviceKey e repo verify ctx uid key platform token w = (None, w')"
  shows "\<exists>now r. stored (key\<lparr>key_user := uid, registered_at := now\<rparr>) = Some r \<and>
     registered w' = insert r (registered w)"
proof -
  let ?w1 = "InfoContext ctx ''registering device key with attestation''
      [(''user_id'', AStr uid), (''key_id'', AStr (key_id key))] w"
  obtain q w2 where v: "verify ctx platform token ?w1 = (q, w2)" by fastforce
  with assms have "q = None" by (auto simp: RegisterDeviceKey_def Let_def split: option.splits prod.splits)
  with v have w2: "w_keys w2 = w_keys w" using verified by fastforce
  obtain now w3 where t: "time_now e w2 = (now, w3)" by fastforce
  then have "w_keys w3 = w_keys w" using w2 by (auto simp: time_now_def)
  then have w3: "registered w3 = registered w" by (rule registered_table)
  obtain q' w4 where s: "keys_save repo ctx (key\<lparr>key_user := uid, registered_at := now\<rparr>) w3 = (q', w4)" by fastforce
  from assms v \<open>q = None\<close> t s have "q' = None" "w_keys w' = w_keys w4"
    by (auto simp: RegisterDeviceKey_def Let_def split: option.splits)
  with s have "keys_save repo ctx (key\<lparr>key_user := uid, registered_at := now\<rparr>) w3 = (None, w4)" by simp
  from save_done [OF this] obtain r where
    "stored (key\<lparr>key_user := uid, registered_at := now\<rparr>) = Some r" "registered w4 = insert r (registered w3)" by blast
  moreover have "registered w' = registered w4" by (rule registered_table) fact
  ultimately show ?thesis using w3 by (intro exI conjI) simp_all
qed

lemma execute_needs_key:
  assumes "ExecuteIntranetTransfer e cfg lib repo ctx token p w = (None, w')"
  shows "\<exists>c k. fst (VerifyInternalJWT e token (shared_secret cfg) w) = Inr c \<and>
     ''transfer:execute'' \<in> set (claims_scopes c) \<and> k \<in> registered w \<and> key_user k = claims_sub c \<and>
     VerifyEnclaveSignature e lib (public_key_pem k) (Some p) = None"
proof -
  let ?w1 = "InfoContext ctx ''executing private VPC intranet ledger transfer'' [(''tx_id'', AStr (tx_id p))] w"
  from assms obtain c w2 ks w3 k where
    v: "VerifyInternalJWT e token (shared_secret cfg) ?w1 = (Inr c, w2)" and
    sc: "has_scope ''transfer:execute'' (claims_scopes c)" and
    ks: "keys_of_user repo ctx (claims_sub c) w2 = (Inr ks, w3)" and
    k: "first_verifying e lib p ks = Some k"
    by (auto simp: ExecuteIntranetTransfer_def Let_def split: sum.splits prod.splits option.splits if_splits)
  have "w_keys w2 = w_keys w" using v Verify_keeps(1) [of e token "shared_secret cfg" ?w1] by simp
  then have "registered w2 = registered w" by (rule registered_table)
  then have "k \<in> registered w \<and> key_user k = claims_sub c"
    using user_keys [OF ks] first_verifying_Some [OF k] by auto
  moreover have "fst (VerifyInternalJWT e token (shared_secret cfg) w) = Inr c"
    using v Verify_log [of w ?w1 e token "shared_secret cfg"] by simp
  ultimately show ?thesis using sc first_verifying_Some [OF k] by (auto simp: has_scope_iff)
qed

end

interpretation bank: banking "SQLEnclaveKeyRepository ev" "\<lambda>w. set (w_keys w)" "key_row ev"
    "VerifyAttestation ev" "attested ev" for ev :: env
  by unfold_locales

subsection \<open>Properties\<close>

lemma GetKeys_ok:
  "GetKeysByUserID e ctx uid w =
     (let w1 = (InfoContext ctx ''retrieving all Secure Enclave keys for user'' [(''user_id'', AStr uid)] w)
                 \<lparr>w_db := Suc (w_db w)\<rparr> in
      case db_fault e (w_db w) of
        Some (_, m) \<Rightarrow> (Inl (ErrWrap ''failed to select enclave keys by user ID: '' (ErrNew m) []), w1)
      | None \<Rightarrow>
          (if pg_text uid
           then Inr (sort_key (\<lambda>r. - nanos (registered_at r)) (filter (\<lambda>r. key_user r = uid) (w_keys w)))
           else Inl (ErrWrap ''failed to select enclave keys by user ID: '' (ErrNew (db_msg e (w_db w))) []), w1))"
  by (simp add: GetKeysByUserID_def db_select_def select_user_keys_def Let_def split: option.split prod.split)

lemma execute_iff:
  "fst (ExecuteIntranetTransfer e cfg lib (SQLEnclaveKeyRepository e) ctx token p w) = None \<longleftrightarrow>
     (\<exists>c. fst (VerifyInternalJWT e token (shared_secret cfg) w) = Inr c \<and>
        ''transfer:execute'' \<in> set (claims_scopes c) \<and>
        db_fault e (w_db w) = None \<and> pg_text (claims_sub c) \<and>
        (\<exists>k. k \<in> set (w_keys w) \<and> key_user k = claims_sub c \<and>
           VerifyEnclaveSignature e lib (public_key_pem k) (Some p) = None))"
proof -
  let ?w1 = "InfoContext ctx ''executing private VPC intranet ledger transfer'' [(''tx_id'', AStr (tx_id p))] w"
  obtain q w2 where v: "VerifyInternalJWT e token (shared_secret cfg) ?w1 = (q, w2)" by fastforce
  then have q: "fst (VerifyInternalJWT e token (shared_secret cfg) w) = q"
    using Verify_log [of w ?w1 e token "shared_secret cfg"] by simp
  have w2: "w_keys w2 = w_keys w" "w_db w2 = w_db w"
    using v Verify_keeps(1,3) [of e token "shared_secret cfg" ?w1] by simp_all
  have none: "first_verifying e lib p ks = None \<longleftrightarrow>
      \<not> (\<exists>k. k \<in> set ks \<and> VerifyEnclaveSignature e lib (public_key_pem k) (Some p) = None)" for ks
    by (auto simp: first_verifying_None)
  show ?thesis
  proof (cases q)
    case (Inl err)
    with v q show ?thesis by (simp add: ExecuteIntranetTransfer_def)
  next
    case (Inr c)
    let ?ks = "sort_key (\<lambda>r. - nanos (registered_at r)) (filter (\<lambda>r. key_user r = claims_sub c) (w_keys w))"
    have "?ks = [] \<or> first_verifying e lib p ?ks = None \<longleftrightarrow> first_verifying e lib p ?ks = None" by auto
    with v q Inr w2 none [of ?ks] show ?thesis
      by (auto simp: ExecuteIntranetTransfer_def SQLEnclaveKeyRepository_def GetKeys_ok has_scope_iff Let_def
          split: option.splits)
  qed
qed

definition transfer_request :: "bank_config \<Rightarrow> string \<Rightarrow> string \<Rightarrow> out_request" where
  "transfer_request cfg token bytes =
     \<lparr>oq_method = ''POST'', oq_url = private_url cfg,
      oq_headers = [(''Authorization'', ''Bearer '' @ token), (''Content-Type'', ''application/json'')],
      oq_body = bytes\<rparr>"

lemma forward_refused: "request_err e url = Some m \<Longrightarrow> forward_transfer e ctx url token bytes w = (Inl (ErrNew m), w)"
  by (simp add: forward_transfer_def new_request_def)

lemma forward_run:
  assumes "request_err e (private_url cfg) = None"
  shows "w_sent (snd (forward_transfer e ctx (private_url cfg) token bytes w)) = w_sent w @ [transfer_request cfg token bytes]"
    and "isl (fst (forward_transfer e ctx (private_url cfg) token bytes w)) \<longleftrightarrow>
      (case transport e (w_http w) (transfer_request cfg token bytes) of Inl _ \<Rightarrow> True | Inr resp \<Rightarrow> rs_status resp \<noteq> 200)"
proof -
  have f: "forward_transfer e ctx (private_url cfg) token bytes w =
      (case http_do e (transfer_request cfg token bytes) w of
         (Inl err, w1) \<Rightarrow>
             (Inl err, ErrorContext ctx ''intranet peer HTTP request failed'' [(''error'', AErr err)] w1)
         | (Inr resp, w1) \<Rightarrow>
             if rs_status resp \<noteq> 200
             then (Inl (ErrNew (''intranet execution rejected: '' @ refusal_message resp)), w1)
             else (Inr ''SUCCESS'', w1))"
    using assms by (simp add: forward_transfer_def new_request_def transfer_request_def)
  show "w_sent (snd (forward_transfer e ctx (private_url cfg) token bytes w)) = w_sent w @ [transfer_request cfg token bytes]"
    unfolding f http_do_def by (simp split: sum.split)
  show "isl (fst (forward_transfer e ctx (private_url cfg) token bytes w)) \<longleftrightarrow>
      (case transport e (w_http w) (transfer_request cfg token bytes) of Inl _ \<Rightarrow> True | Inr resp \<Rightarrow> rs_status resp \<noteq> 200)"
    unfolding f http_do_def by (simp split: sum.split)
qed

text \<open>The transfer past its validation: its result and what it sent, by the steps before the request.\<close>

lemma initiate_invalid:
  "amount_cents p \<le> 0 \<or> sender_account p = [] \<or> receiver_account p = [] \<Longrightarrow>
     fst (InitiateTransfer e cfg ctx uid p w) \<noteq> None \<and> w_sent (snd (InitiateTransfer e cfg ctx uid p w)) = w_sent w"
  by (auto simp: InitiateTransfer_def Let_def)

definition forwarded ::
  "env \<Rightarrow> bank_config \<Rightarrow> go_ctx \<Rightarrow> transfer_payload \<Rightarrow> (go_error + string) \<times> world \<Rightarrow> go_error option \<times> world" where
  "forwarded e cfg ctx p t =
     (case t of
        (Inl err, w2) \<Rightarrow> (Some (ErrWrap ''failed to perform token swap: '' err []), w2)
      | (Inr token, w2) \<Rightarrow>
     (case payload_marshal p of
        None \<Rightarrow> (Some (ErrWrap ''failed to serialize payload: ''
                  (ErrNew (json_err e ''TransferPayload'' BodyNil)) []), w2)
      | Some bytes \<Rightarrow>
     (case breaker_execute e (forward_transfer e ctx (private_url cfg) token bytes) w2 of
        (Inl err, w3) \<Rightarrow>
          (Some (ErrWrap ''transfer execution failed: '' err []),
           ErrorContext ctx ''failed to initiate transfer via intranet connection'' [(''error'', AErr err)] w3)
      | (Inr _, w3) \<Rightarrow>
          (None, InfoContext ctx ''transfer execution completed successfully'' [(''tx_id'', AStr (tx_id p))] w3))))"

lemma initiate_valid:
  assumes "0 < amount_cents p" "sender_account p \<noteq> []" "receiver_account p \<noteq> []"
  obtains w1 where "InitiateTransfer e cfg ctx uid p w = forwarded e cfg ctx p
      (GenerateInternalJWT e uid (Some [''transfer:execute'']) (shared_secret cfg) minute w1)"
    "w_clock w1 = w_clock w" "w_sent w1 = w_sent w" "w_http w1 = w_http w" "w_breaker w1 = w_breaker w"
proof
  let ?w1 = "InfoContext ctx ''initiating money transfer edge request''
            [(''user_id'', AStr uid), (''tx_id'', AStr (tx_id p)),
             (''sender'', MaskedAccount_LogValue (sender_account p)),
             (''receiver'', MaskedAccount_LogValue (receiver_account p)),
             (''amount_cents'', AInt (amount_cents p))] w"
  have "\<not> amount_cents p \<le> 0" "\<not> (sender_account p = [] \<or> receiver_account p = [])" using assms by auto
  then show "InitiateTransfer e cfg ctx uid p w = forwarded e cfg ctx p
      (GenerateInternalJWT e uid (Some [''transfer:execute'']) (shared_secret cfg) minute ?w1)"
    unfolding InitiateTransfer_def forwarded_def Let_def by (simp only: if_False)
qed simp_all

lemma Generate_clock: "w_clock w = w_clock w' \<Longrightarrow>
    fst (GenerateInternalJWT e uid scopes secret ttl w) = fst (GenerateInternalJWT e uid scopes secret ttl w')"
  by (simp add: GenerateInternalJWT_def time_now_def Let_def)

lemma forwarded_run:
  assumes "payload_marshal p = Some bytes" "breaker e (w_breaker w2) = None" "request_err e (private_url cfg) = None"
  shows "w_sent (snd (forwarded e cfg ctx p (Inr token, w2))) = w_sent w2 @ [transfer_request cfg token bytes] \<and>
     (fst (forwarded e cfg ctx p (Inr token, w2)) = None \<longleftrightarrow>
      (case transport e (w_http w2) (transfer_request cfg token bytes) of
         Inl _ \<Rightarrow> False | Inr resp \<Rightarrow> rs_status resp = 200))"
proof -
  obtain x w4 where fw: "forward_transfer e ctx (private_url cfg) token bytes (w2\<lparr>w_breaker := Suc (w_breaker w2)\<rparr>) = (x, w4)"
    by fastforce
  have "w_sent w4 = w_sent w2 @ [transfer_request cfg token bytes]"
    "isl x \<longleftrightarrow> (case transport e (w_http w2) (transfer_request cfg token bytes) of
       Inl _ \<Rightarrow> True | Inr resp \<Rightarrow> rs_status resp \<noteq> 200)"
    using forward_run [OF assms(3), of ctx token bytes "w2\<lparr>w_breaker := Suc (w_breaker w2)\<rparr>"] fw by simp_all
  with fw assms(1,2) show ?thesis
    by (cases x) (auto simp: forwarded_def breaker_execute_def split: sum.splits)
qed

lemma initiate_sends:
  assumes "InitiateTransfer e cfg ctx uid p w = (r, w')"
  shows "(w_sent w' = w_sent w \<and> r \<noteq> None) \<or>
     (\<exists>token bytes.
       0 < amount_cents p \<and> sender_account p \<noteq> [] \<and> receiver_account p \<noteq> [] \<and>
       fst (GenerateInternalJWT e uid (Some [''transfer:execute'']) (shared_secret cfg) minute w) = Inr token \<and>
       payload_marshal p = Some bytes \<and> breaker e (w_breaker w) = None \<and>
       w_sent w' = w_sent w @ [transfer_request cfg token bytes] \<and>
       (r = None \<longleftrightarrow> (\<exists>resp. transport e (w_http w) (transfer_request cfg token bytes) = Inr resp \<and> rs_status resp = 200)))"
proof (cases "amount_cents p \<le> 0 \<or> sender_account p = [] \<or> receiver_account p = []")
  case True
  with initiate_invalid [of p e cfg ctx uid w] assms show ?thesis by simp
next
  case False
  then have v: "0 < amount_cents p" "sender_account p \<noteq> []" "receiver_account p \<noteq> []" by auto
  from v obtain w1 where w1: "InitiateTransfer e cfg ctx uid p w = forwarded e cfg ctx p
      (GenerateInternalJWT e uid (Some [''transfer:execute'']) (shared_secret cfg) minute w1)"
    and same: "w_clock w1 = w_clock w" "w_sent w1 = w_sent w" "w_http w1 = w_http w" "w_breaker w1 = w_breaker w"
    by (rule initiate_valid)
  obtain g w2 where g: "GenerateInternalJWT e uid (Some [''transfer:execute'']) (shared_secret cfg) minute w1 = (g, w2)"
    by fastforce
  have w2: "w_sent w2 = w_sent w" "w_http w2 = w_http w" "w_breaker w2 = w_breaker w"
    using Generate_keeps [OF g] same by simp_all
  have fr: "forwarded e cfg ctx p (g, w2) = (r, w')" using assms w1 g by simp
  show ?thesis
  proof (cases "\<exists>token bytes. g = Inr token \<and> payload_marshal p = Some bytes \<and> breaker e (w_breaker w) = None \<and>
      request_err e (private_url cfg) = None")
    case True
    then obtain token bytes where t: "g = Inr token" "payload_marshal p = Some bytes" "breaker e (w_breaker w2) = None"
      "request_err e (private_url cfg) = None" using w2 by auto
    have "fst (GenerateInternalJWT e uid (Some [''transfer:execute'']) (shared_secret cfg) minute w) = Inr token"
      using Generate_clock [OF same(1)] g t(1) by (metis fst_conv)
    with forwarded_run [OF t(2-4), of ctx token] fr t v w2 show ?thesis by (auto split: sum.splits)
  next
    case False
    with fr w2 have "w_sent w' = w_sent w \<and> r \<noteq> None"
      by (cases g; cases "payload_marshal p"; cases "breaker e (w_breaker w)"; cases "request_err e (private_url cfg)")
         (auto simp: forwarded_def breaker_execute_def forward_refused)
    then show ?thesis ..
  qed
qed

lemma initiate_ok:
  assumes "0 < amount_cents p" "sender_account p \<noteq> []" "receiver_account p \<noteq> []"
    and "fst (GenerateInternalJWT e uid (Some [''transfer:execute'']) (shared_secret cfg) minute w) = Inr token"
    and "payload_marshal p = Some bytes"
    and "transport e (w_http w) (transfer_request cfg token bytes) = Inr resp" "rs_status resp = 200"
    and "breaker e (w_breaker w) = None" "request_err e (private_url cfg) = None"
  shows "fst (InitiateTransfer e cfg ctx uid p w) = None \<and>
     w_sent (snd (InitiateTransfer e cfg ctx uid p w)) = w_sent w @ [transfer_request cfg token bytes]"
proof -
  from assms(1-3) obtain w1 where w1: "InitiateTransfer e cfg ctx uid p w = forwarded e cfg ctx p
      (GenerateInternalJWT e uid (Some [''transfer:execute'']) (shared_secret cfg) minute w1)"
    and same: "w_clock w1 = w_clock w" "w_sent w1 = w_sent w" "w_http w1 = w_http w" "w_breaker w1 = w_breaker w"
    by (rule initiate_valid)
  obtain w2 where g: "GenerateInternalJWT e uid (Some [''transfer:execute'']) (shared_secret cfg) minute w1 = (Inr token, w2)"
    using assms(4) Generate_clock [OF same(1)] by (metis prod.collapse)
  have w2: "w_sent w2 = w_sent w" "w_http w2 = w_http w" "w_breaker w2 = w_breaker w"
    using Generate_keeps [OF g] same by simp_all
  with forwarded_run [OF assms(5) _ assms(9), of w2 ctx token] assms(6,7,8) show ?thesis by (simp add: w1 g)
qed

text \<open>
  C1 (transfer_authorized): the intranet executes a transfer exactly when its token is
  accepted under the shared secret, carries the scope \<open>transfer:execute\<close>, the database
  answers, and a device key registered to the token's subject verifies the payload.
\<close>

theorem transfer_authorized:
  "fst (ExecuteIntranetTransfer e cfg lib (SQLEnclaveKeyRepository e) ctx token p w) = None \<longleftrightarrow>
     (\<exists>c. fst (VerifyInternalJWT e token (shared_secret cfg) w) = Inr c \<and>
        ''transfer:execute'' \<in> set (claims_scopes c) \<and>
        db_fault e (w_db w) = None \<and> pg_text (claims_sub c) \<and>
        (\<exists>k. k \<in> set (w_keys w) \<and> key_user k = claims_sub c \<and>
           VerifyEnclaveSignature e lib (public_key_pem k) (Some p) = None))"
  by (rule execute_iff)

text \<open>
  C16 (transfer_forwarded): starting a transfer sends nothing and fails, or sends exactly one
  request: a positive amount between named accounts, as JSON, with a fresh internal token of
  the caller for one minute and the scope \<open>transfer:execute\<close>, admitted by the circuit
  breaker; it succeeds exactly if the intranet answers that request with 200.
\<close>

theorem transfer_forwarded:
  assumes "InitiateTransfer e cfg ctx uid p w = (r, w')"
  shows "if w_sent w' = w_sent w then r \<noteq> None
     else \<exists>token bytes req.
       0 < amount_cents p \<and> sender_account p \<noteq> [] \<and> receiver_account p \<noteq> [] \<and>
       fst (GenerateInternalJWT e uid (Some [''transfer:execute'']) (shared_secret cfg) minute w) = Inr token \<and>
       payload_marshal p = Some bytes \<and> breaker e (w_breaker w) = None \<and>
       req = \<lparr>oq_method = ''POST'', oq_url = private_url cfg,
              oq_headers = [(''Authorization'', ''Bearer '' @ token), (''Content-Type'', ''application/json'')],
              oq_body = bytes\<rparr> \<and>
       w_sent w' = w_sent w @ [req] \<and>
       (r = None \<longleftrightarrow> (\<exists>resp. transport e (w_http w) req = Inr resp \<and> rs_status resp = 200))"
  using initiate_sends [OF assms] unfolding transfer_request_def by auto

definition sample_config :: bank_config where
  "sample_config = \<lparr>shared_secret = ''secret'', private_url = ''https://intranet/private/transfers''\<rparr>"

lemma sample_payload_ok: "payload_ok sample_payload"
  by (simp add: payload_ok_def sample_payload_def ascii_valid_utf8 in_int64_def civil_ok_def days_in_def)

lemma sample_marshal: "\<exists>bytes. payload_marshal sample_payload = Some bytes"
  using payload_json_total [OF sample_payload_ok] by (auto simp: payload_marshal_def)

lemma sample_token: "\<exists>token. fst (GenerateInternalJWT sample_env uid scopes (shared_secret sample_config) ttl w) = Inr token"
  by (simp add: GenerateInternalJWT_def time_now_def sample_config_def Let_def)

lemma sample_initiated:
  "\<exists>w' req. InitiateTransfer sample_env sample_config background ''alice'' sample_payload world_init = (None, w') \<and>
     w_sent w' = [req]"
proof -
  obtain token where t: "fst (GenerateInternalJWT sample_env ''alice'' (Some [''transfer:execute''])
      (shared_secret sample_config) minute world_init) = Inr token" using sample_token by blast
  obtain bytes where b: "payload_marshal sample_payload = Some bytes" using sample_marshal ..
  have "0 < amount_cents sample_payload" "sender_account sample_payload \<noteq> []" "receiver_account sample_payload \<noteq> []"
    by (simp_all add: sample_payload_def)
  from initiate_ok [OF this t b, of "\<lparr>rs_status = 200, rs_body = BodyData ''{}''\<rparr>" background]
  have "fst (InitiateTransfer sample_env sample_config background ''alice'' sample_payload world_init) = None \<and>
     (\<exists>req. w_sent (snd (InitiateTransfer sample_env sample_config background ''alice'' sample_payload world_init)) = [req])"
    by (auto simp: sample_env_def world_init_def)
  then show ?thesis by (metis prod.collapse)
qed

theorem transfer_forwarded_witness:
  "\<exists>token bytes. w_sent (snd (InitiateTransfer sample_env sample_config background ''alice'' sample_payload world_init)) =
     [\<lparr>oq_method = ''POST'', oq_url = ''https://intranet/private/transfers'',
       oq_headers = [(''Authorization'', ''Bearer '' @ token), (''Content-Type'', ''application/json'')],
       oq_body = bytes\<rparr>] \<and>
     payload_marshal sample_payload = Some bytes"
proof -
  obtain w' req where i: "InitiateTransfer sample_env sample_config background ''alice'' sample_payload world_init = (None, w')"
    "w_sent w' = [req]"
    using sample_initiated by blast
  then have "w_sent w' \<noteq> w_sent world_init" by (simp add: world_init_def)
  with transfer_forwarded [OF i(1)] i show ?thesis by (auto simp: world_init_def sample_config_def)
qed

text \<open>
  Registering a device leaves the key table alone unless the attestation
  passes; a registration that succeeds adds exactly the key, bound to the caller and with the
  public key it came with.
\<close>

theorem register_attested:
  assumes "RegisterDeviceKey e (SQLEnclaveKeyRepository e) (VerifyAttestation e) ctx uid key platform token w = (r, w')"
  shows "if r = None
     then attested e platform token \<and>
       (\<exists>now row. key_row e (key\<lparr>key_user := uid, registered_at := now\<rparr>) = Some row \<and>
          set (w_keys w') = insert row (set (w_keys w)) \<and> public_key_pem row = public_key_pem key)
     else if attested e platform token then True else set (w_keys w') = set (w_keys w)"
proof (cases "attested e platform token")
  case False
  with bank.register_refused [where ev = e and platform = platform and token = token] assms show ?thesis
    by (metis fst_conv snd_conv)
next
  case True
  show ?thesis
  proof (cases r)
    case None
    with assms bank.register_done obtain now row where
      "key_row e (key\<lparr>key_user := uid, registered_at := now\<rparr>) = Some row"
      "set (w_keys w') = insert row (set (w_keys w))" by blast
    moreover from key_row_pem [OF this(1)] have "public_key_pem row = public_key_pem key" by simp
    ultimately show ?thesis using None True by auto
  qed (simp add: True)
qed

theorem register_attested_witness:
  "w_keys (snd (RegisterDeviceKey sample_env (SQLEnclaveKeyRepository sample_env) (VerifyAttestation sample_env)
     background ''alice'' sample_key ''android'' ''compromised-device'' world_init)) = []"
proof -
  obtain r w' where d: "RegisterDeviceKey sample_env (SQLEnclaveKeyRepository sample_env) (VerifyAttestation sample_env)
     background ''alice'' sample_key ''android'' ''compromised-device'' world_init = (r, w')" by fastforce
  have "\<not> attested sample_env ''android'' ''compromised-device''" by code_simp
  with register_attested [OF d] have "w_keys w' = []" by (simp add: world_init_def split: if_splits)
  then show ?thesis unfolding d by simp
qed

text \<open>
  C39 (transfer_log_masked): executing a transfer reveals nothing of an account number beyond
  what its mask shows: two payloads whose accounts have the same masks, and which the device
  keys treat alike, leave the same log and the same world.
\<close>

theorem transfer_log_masked:
  assumes "q = p\<lparr>sender_account := s, receiver_account := t\<rparr>"
    and "MaskedAccount_String (sender_account p) = MaskedAccount_String s"
    and "MaskedAccount_String (receiver_account p) = MaskedAccount_String t"
    and "\<And>pem. VerifyEnclaveSignature e lib pem (Some p) = VerifyEnclaveSignature e lib pem (Some q)"
  shows "ExecuteIntranetTransfer e cfg lib repo ctx token p w = ExecuteIntranetTransfer e cfg lib repo ctx token q w"
proof -
  have "first_verifying e lib p ks = first_verifying e lib q ks" for ks by (rule first_verifying_cong) (rule assms(4))
  moreover have "tx_id q = tx_id p" "amount_cents q = amount_cents p"
    "MaskedAccount_LogValue (sender_account q) = MaskedAccount_LogValue (sender_account p)"
    "MaskedAccount_LogValue (receiver_account q) = MaskedAccount_LogValue (receiver_account p)"
    using assms(1-3) by (simp_all add: MaskedAccount_LogValue_def)
  ultimately show ?thesis by (simp only: ExecuteIntranetTransfer_def)
qed

text \<open>A library whose keys all parse and verify everything.\<close>

definition open_lib :: "unit crypto_lib" where
  "open_lib =
     \<lparr>pem_decode = (\<lambda>s. Some s), parse_pkix = (\<lambda>_. Inr (EcdsaKey ''P-256'' ())),
      ecdsa_verify = (\<lambda>_ _ _ _. True), ecdsa_verify_asn1 = (\<lambda>_ _ _. True), asn1_signature = (\<lambda>_. None)\<rparr>"

theorem transfer_log_masked_witness:
  "ExecuteIntranetTransfer sample_env sample_config open_lib (SQLEnclaveKeyRepository sample_env) background
     ''token'' sample_payload world_init =
   ExecuteIntranetTransfer sample_env sample_config open_lib (SQLEnclaveKeyRepository sample_env) background
     ''token'' (sample_payload\<lparr>sender_account := ''AC9999993456'', receiver_account := ''AC7777777654''\<rparr>) world_init"
proof (rule transfer_log_masked [OF refl])
  show "MaskedAccount_String (sender_account sample_payload) = MaskedAccount_String ''AC9999993456''"
    "MaskedAccount_String (receiver_account sample_payload) = MaskedAccount_String ''AC7777777654''"
    by code_simp+
  show "VerifyEnclaveSignature sample_env open_lib pem (Some sample_payload) =
     VerifyEnclaveSignature sample_env open_lib pem (Some (sample_payload
       \<lparr>sender_account := ''AC9999993456'', receiver_account := ''AC7777777654''\<rparr>))" for pem
  proof -
    have "hex_decode ''00'' = Some [chr 0]" by code_simp
    then show ?thesis
      by (simp add: VerifyEnclaveSignature_def open_lib_def sample_payload_def decode_signature_def
          signature_matches_def)
  qed
qed

end
