(* ===== verification/SchemaMiddleware.thy ===== *)
theory SchemaMiddleware
  imports Http Telemetry
begin

text \<open>
  \<open>internal/adapters/handler/schema_middleware.go\<close>: the middleware that holds the bodies of
  device registrations and transfers against constraints of its own before any handler sees
  them. They resemble the contract of \<open>openapi.yaml\<close> but are not the same (see below). A transfer's body is decoded into a structure with the fields of
  \<open>TransferPayload\<close>, so \<open>payload_of_json\<close> is its decoder.
\<close>

subsection \<open>Requests for a device\<close>

record device_request =
  dr_id :: string
  dr_pem :: string
  dr_algorithm :: string
  dr_platform :: string
  dr_token :: string

definition device_field :: "device_request \<Rightarrow> string \<Rightarrow> json \<Rightarrow> device_request option" where
  "device_field d k v =
     (if key_matches ''id'' k then map_option (\<lambda>s. d\<lparr>dr_id := s\<rparr>) (dec_string (dr_id d) v)
      else if key_matches ''public_key_pem'' k
      then map_option (\<lambda>s. d\<lparr>dr_pem := s\<rparr>) (dec_string (dr_pem d) v)
      else if key_matches ''algorithm'' k
      then map_option (\<lambda>s. d\<lparr>dr_algorithm := s\<rparr>) (dec_string (dr_algorithm d) v)
      else if key_matches ''platform'' k
      then map_option (\<lambda>s. d\<lparr>dr_platform := s\<rparr>) (dec_string (dr_platform d) v)
      else if key_matches ''attestation_token'' k
      then map_option (\<lambda>s. d\<lparr>dr_token := s\<rparr>) (dec_string (dr_token d) v)
      else Some d)"

definition device_of_json :: "json \<Rightarrow> device_request option" where
  "device_of_json j = decode_struct device_field
     \<lparr>dr_id = [], dr_pem = [], dr_algorithm = [], dr_platform = [], dr_token = []\<rparr> j"

subsection \<open>The middleware\<close>

text \<open>\<open>readAndBufferBody\<close>: the bytes or the error, and the request with the body left in it.\<close>

definition readAndBufferBody :: "request \<Rightarrow> (go_error + string) \<times> request" where
  "readAndBufferBody r =
     (if rq_body r = BodyNil then (Inl (ErrNew ''empty request body''), r)
      else (case read_all (rq_body r) of
          (Inl err, rest) \<Rightarrow> (Inl err, r\<lparr>rq_body := rest\<rparr>)
        | (Inr bytes, rest) \<Rightarrow> (Inr bytes, r\<lparr>rq_body := BodyData bytes\<rparr>)))"

definition writeSchemaError :: "nat \<Rightarrow> string \<Rightarrow> string \<Rightarrow> writer \<Rightarrow> writer" where
  "writeSchemaError code field msg rw =
     write_json (json_map [(''error'', JStr ''openapi schema contract validation failed''),
                           (''details'', JObj [(''field'', JStr field), (''message'', JStr msg)])])
       (write_header code (set_header ''Content-Type'' ''application/json'' rw))"

text \<open>The first violated constraint of each body, with its message.\<close>

definition device_violation :: "env \<Rightarrow> device_request \<Rightarrow> (string \<times> string) option" where
  "device_violation e d =
     (let lower = to_lower (ulower e) (dr_platform d) in
      if dr_id d = [] then Some (''id'', ''parameter is required and cannot be empty'')
      else if \<not> contains_sub (dr_pem d) ''-----BEGIN PUBLIC KEY-----''
      then Some (''public_key_pem'', ''must be a valid PEM public key block'')
      else if dr_algorithm d \<noteq> ''ECDSA_P256'' then Some (''algorithm'', ''must be exactly ECDSA_P256'')
      else if lower \<noteq> ''ios'' \<and> lower \<noteq> ''android''
      then Some (''platform'', ''must be '' @ [chr 39] @ ''ios'' @ [chr 39] @ '' or '' @ [chr 39] @ ''android'' @ [chr 39])
      else if dr_token d = [] then Some (''attestation_token'', ''parameter is required and cannot be empty'')
      else None)"

definition transfer_violation :: "transfer_payload \<Rightarrow> (string \<times> string) option" where
  "transfer_violation p =
     (if tx_id p = [] then Some (''id'', ''parameter is required and cannot be empty'')
      else if length (sender_account p) < 6
      then Some (''sender_account'', ''must be at least 6 characters in length'')
      else if length (receiver_account p) < 6
      then Some (''receiver_account'', ''must be at least 6 characters in length'')
      else if amount_cents p \<le> 0 then Some (''amount_cents'', ''must be a positive integer greater than 0'')
      else if length (currency p) \<noteq> 3
      then Some (''currency'', ''must be exactly 3 characters (ISO 4217 code)'')
      else if civil_is_zero (timestamp p)
      then Some (''timestamp'', ''must be a valid RFC3339 formatted date-time'')
      else if signature p = [] then Some (''signature'', ''parameter is required and cannot be empty'')
      else None)"

text \<open>
  The steps both checks go through: buffer the body, decode it, look for a violation; a
  request that passes goes on with its body restored.
\<close>

definition check_body ::
  "(json \<Rightarrow> 'd option) \<Rightarrow> ('d \<Rightarrow> (string \<times> string) option) \<Rightarrow> request \<Rightarrow> (string \<times> string) + request" where
  "check_body decode violation r =
     (case readAndBufferBody r of
        (Inl err, r1) \<Rightarrow> Inl (''body'', ''failed to read request body'')
      | (Inr bytes, r1) \<Rightarrow>
          (case Option.bind (json_unmarshal bytes) decode of
             None \<Rightarrow> Inl (''body'', ''malformed JSON payload'')
           | Some d \<Rightarrow> (case violation d of Some v \<Rightarrow> Inl v | None \<Rightarrow> Inr r1)))"

definition check_device :: "env \<Rightarrow> request \<Rightarrow> (string \<times> string) + request" where
  "check_device e r =
     (if rq_path r = ''/auth/register-device'' \<and> rq_method r = ''POST''
      then check_body device_of_json (device_violation e) r else Inr r)"

definition check_transfer :: "request \<Rightarrow> (string \<times> string) + request" where
  "check_transfer r =
     (if (rq_path r = ''/transfer/initiate'' \<or> rq_path r = ''/private/transfers'') \<and> rq_method r = ''POST''
      then check_body payload_of_json transfer_violation r else Inr r)"

definition SchemaValidationMiddleware :: "env \<Rightarrow> handler \<Rightarrow> handler" where
  "SchemaValidationMiddleware e next rw r w =
     (case check_device e r of
        Inl (field, msg) \<Rightarrow> (writeSchemaError 400 field msg rw, w)
      | Inr r1 \<Rightarrow>
          (case check_transfer r1 of
             Inl (field, msg) \<Rightarrow> (writeSchemaError 400 field msg rw, w)
           | Inr r2 \<Rightarrow> next rw r2 w))"

subsection \<open>What passes\<close>

text \<open>
  The constraints the middleware enforces, lengths counted in bytes. What later theories call the
  contract are these, not those of \<open>openapi.yaml\<close>.
\<close>

definition transfer_contract :: "transfer_payload \<Rightarrow> bool" where
  "transfer_contract p \<longleftrightarrow>
     tx_id p \<noteq> [] \<and> 6 \<le> length (sender_account p) \<and> 6 \<le> length (receiver_account p) \<and>
     0 < amount_cents p \<and> length (currency p) = 3 \<and> \<not> civil_is_zero (timestamp p) \<and> signature p \<noteq> []"

definition device_contract :: "env \<Rightarrow> device_request \<Rightarrow> bool" where
  "device_contract e d \<longleftrightarrow>
     dr_id d \<noteq> [] \<and> contains_sub (dr_pem d) ''-----BEGIN PUBLIC KEY-----'' \<and>
     dr_algorithm d = ''ECDSA_P256'' \<and> to_lower (ulower e) (dr_platform d) \<in> {''ios'', ''android''} \<and>
     dr_token d \<noteq> []"

definition body_json :: "request \<Rightarrow> json option" where
  "body_json r = (case rq_body r of BodyData s \<Rightarrow> json_unmarshal s | _ \<Rightarrow> None)"

definition contract_met :: "env \<Rightarrow> request \<Rightarrow> bool" where
  "contract_met e r \<longleftrightarrow>
     (if rq_method r \<noteq> ''POST'' then True
      else if rq_path r = ''/auth/register-device''
      then (case Option.bind (body_json r) device_of_json of Some d \<Rightarrow> device_contract e d | None \<Rightarrow> False)
      else if rq_path r = ''/transfer/initiate'' \<or> rq_path r = ''/private/transfers''
      then (case Option.bind (body_json r) payload_of_json of Some p \<Rightarrow> transfer_contract p | None \<Rightarrow> False)
      else True)"

lemma transfer_violation_None: "transfer_violation p = None \<longleftrightarrow> transfer_contract p"
  by (auto simp: transfer_violation_def transfer_contract_def)

lemma device_violation_None: "device_violation e d = None \<longleftrightarrow> device_contract e d"
  by (auto simp: device_violation_def device_contract_def Let_def)

text \<open>
  Where they differ from \<open>openapi.yaml\<close>: a currency of two letters is within its \<open>maxLength\<close> of
  three and refused here; an account of two characters of three bytes is below its \<open>minLength\<close> of
  six and passes here; \<open>iOS\<close> is none of its platforms and passes here. It does not ask for a
  PEM marker either.
\<close>

lemma openapi_gaps:
  "length (currency p) = 2 \<Longrightarrow> \<not> transfer_contract p"
  "transfer_contract p \<Longrightarrow> transfer_contract (p\<lparr>sender_account := map chr [226, 130, 172, 226, 130, 172]\<rparr>)"
  "device_contract e d \<Longrightarrow> device_contract e (d\<lparr>dr_platform := ''iOS''\<rparr>)"
proof -
  have "to_lower (ulower e) ''iOS'' = ''ios''" by (simp add: to_lower_def is_ascii_def ascii_lower_def chr_eq_iff)
  then show "device_contract e d \<Longrightarrow> device_contract e (d\<lparr>dr_platform := ''iOS''\<rparr>)" by (simp add: device_contract_def)
qed (simp_all add: transfer_contract_def)

lemma read_body_data: "rq_body r = BodyData s \<Longrightarrow> readAndBufferBody r = (Inr s, r)"
  by (cases r) (simp add: readAndBufferBody_def read_all_def)

lemma read_body_other: "(\<And>s. rq_body r \<noteq> BodyData s) \<Longrightarrow> \<exists>err r'. readAndBufferBody r = (Inl err, r')"
  by (cases "rq_body r") (auto simp: readAndBufferBody_def read_all_def)

lemma check_body_result:
  "if (case Option.bind (body_json r) decode of Some d \<Rightarrow> violation d = None | None \<Rightarrow> False)
   then check_body decode violation r = Inr r else \<exists>f m. check_body decode violation r = Inl (f, m)"
proof (cases "\<exists>s. rq_body r = BodyData s")
  case True
  then obtain s where "rq_body r = BodyData s" ..
  with read_body_data [OF this] show ?thesis
    by (auto simp: check_body_def body_json_def split: option.split)
next
  case False
  then obtain err r' where "readAndBufferBody r = (Inl err, r')" using read_body_other by blast
  moreover have "body_json r = None" using False by (auto simp: body_json_def split: body.split)
  ultimately show ?thesis by (simp add: check_body_def)
qed

lemma check_both:
  "if contract_met e r then check_device e r = Inr r \<and> check_transfer r = Inr r
   else (\<exists>f m. check_device e r = Inl (f, m)) \<or> (check_device e r = Inr r \<and> (\<exists>f m. check_transfer r = Inl (f, m)))"
  using check_body_result [where r = r and decode = device_of_json and violation = "device_violation e"]
    check_body_result [where r = r and decode = payload_of_json and violation = transfer_violation]
  by (auto simp: contract_met_def check_device_def check_transfer_def
      transfer_violation_None device_violation_None split: if_splits option.splits)

lemma schema_pass: "contract_met e r \<Longrightarrow> SchemaValidationMiddleware e next rw r w = next rw r w"
  using check_both [of e r] by (simp add: SchemaValidationMiddleware_def)

lemma schema_reject:
  assumes "\<not> contract_met e r"
  shows "\<exists>field msg. SchemaValidationMiddleware e next rw r w = (writeSchemaError 400 field msg rw, w)"
  using check_both [of e r] assms by (auto simp: SchemaValidationMiddleware_def) blast+

lemma writeSchemaError_simps [simp]:
  "rw_sent rw = None \<Longrightarrow> sent_status (writeSchemaError c f m rw) = c"
  "length (rw_cells (writeSchemaError c f m rw)) = length (rw_cells rw)"
  "rw_sent rw = None \<Longrightarrow> in_step (writeSchemaError c f m rw)"
  by (simp_all add: writeSchemaError_def sent_status_def)

lemma Schema_orderly: "orderly h \<Longrightarrow> orderly (SchemaValidationMiddleware e h)"
  unfolding orderly_def
  by (metis schema_pass schema_reject fst_conv writeSchemaError_simps(2,3))

subsection \<open>Properties\<close>

text \<open>
  C17 (schema_gate): a request outside the three calls, or one whose body meets the constraints
  of the middleware written out here, reaches the next handler as it came, its body unread; any
  other is answered 400 with the name of a field, and the next handler does not run. The
  constraints are the code's; \<open>openapi.yaml\<close> allows shorter currencies, counts accounts in
  characters, and allows fewer spellings of a platform and any key text.
\<close>

theorem schema_gate:
  assumes "rw_sent rw = None"
  shows "if (if rq_method r \<noteq> ''POST'' then True
         else if rq_path r = ''/auth/register-device''
         then \<exists>s j d. rq_body r = BodyData s \<and> json_unmarshal s = Some j \<and> device_of_json j = Some d \<and>
           dr_id d \<noteq> [] \<and> contains_sub (dr_pem d) ''-----BEGIN PUBLIC KEY-----'' \<and>
           dr_algorithm d = ''ECDSA_P256'' \<and>
           to_lower (ulower e) (dr_platform d) \<in> {''ios'', ''android''} \<and> dr_token d \<noteq> []
         else if rq_path r = ''/transfer/initiate'' \<or> rq_path r = ''/private/transfers''
         then \<exists>s j p. rq_body r = BodyData s \<and> json_unmarshal s = Some j \<and> payload_of_json j = Some p \<and>
           tx_id p \<noteq> [] \<and> 6 \<le> length (sender_account p) \<and> 6 \<le> length (receiver_account p) \<and>
           0 < amount_cents p \<and> length (currency p) = 3 \<and> \<not> civil_is_zero (timestamp p) \<and> signature p \<noteq> []
         else True)
     then SchemaValidationMiddleware e next rw r w = next rw r w
     else sent_status (fst (SchemaValidationMiddleware e next rw r w)) = 400 \<and>
       snd (SchemaValidationMiddleware e next rw r w) = w"
proof -
  have "contract_met e r \<longleftrightarrow> (if rq_method r \<noteq> ''POST'' then True
         else if rq_path r = ''/auth/register-device''
         then \<exists>s j d. rq_body r = BodyData s \<and> json_unmarshal s = Some j \<and> device_of_json j = Some d \<and> device_contract e d
         else if rq_path r = ''/transfer/initiate'' \<or> rq_path r = ''/private/transfers''
         then \<exists>s j p. rq_body r = BodyData s \<and> json_unmarshal s = Some j \<and> payload_of_json j = Some p \<and> transfer_contract p
         else True)"
    by (auto simp: contract_met_def body_json_def bind_eq_Some_conv split: option.split body.split)
  moreover have "\<not> contract_met e r \<Longrightarrow> sent_status (fst (SchemaValidationMiddleware e next rw r w)) = 400 \<and>
       snd (SchemaValidationMiddleware e next rw r w) = w"
    using schema_reject [of e r "next" rw w] assms by auto
  ultimately show ?thesis
    using schema_pass [of e r "next" rw w] unfolding device_contract_def transfer_contract_def by argo
qed

text \<open>An empty object does not get through as a transfer.\<close>

theorem schema_gate_witness:
  "sent_status (fst (SchemaValidationMiddleware sample_env created_handler writer_init
     (sample_request\<lparr>rq_path := ''/transfer/initiate'', rq_body := BodyData ''{}''\<rparr>) world_init)) = 400"
proof -
  let ?r = "sample_request\<lparr>rq_path := ''/transfer/initiate'', rq_body := BodyData ''{}''\<rparr>"
  have u: "json_unmarshal ''{}'' = Some (JObj [])" by code_simp
  have "payload_of_json (JObj []) = Some payload_zero" by (simp add: payload_of_json_def decode_struct_def)
  with u show ?thesis
    using schema_gate [of writer_init ?r sample_env created_handler world_init]
    by (simp add: writer_init_def sample_request_def payload_zero_def)
qed

end
