(* ===== verification/PolicyMiddleware.thy ===== *)
theory PolicyMiddleware
  imports SchemaMiddleware GoFloat
begin

text \<open>
  \<open>internal/adapters/handler/policy_middleware.go\<close>: the middleware that asks an embedded
  policy engine about every request, and the evaluator that compiles the policy and reloads
  it when its file changes. The engine is third party, a parameter; the policy it runs,
  \<open>policies/policy.rego\<close>, is translated here with the semantics of its language.
\<close>

subsection \<open>Dynamic values\<close>

text \<open>
  Values of type \<open>interface{}\<close> as \<open>encoding/json\<close> makes them. A map keeps its members in the
  order they were decoded; the last of a key counts. A number out of range is an error that
  \<open>Unmarshal\<close> reports after decoding the rest, and leaves nil in its place.
\<close>

datatype dyn = DNil | DBool bool | DNum rat | DStr string | DArr "dyn list" | DMap "(string \<times> dyn) list"

fun dyn_of_json :: "json \<Rightarrow> dyn" where
  "dyn_of_json JNull = DNil"
| "dyn_of_json (JBool b) = DBool b"
| "dyn_of_json (JNum n) = (case float64 (num_rat n) of Some x \<Rightarrow> DNum x | None \<Rightarrow> DNil)"
| "dyn_of_json (JStr s) = DStr s"
| "dyn_of_json (JArr vs) = DArr (map dyn_of_json vs)"
| "dyn_of_json (JObj kvs) = DMap (map (\<lambda>(k, v). (k, dyn_of_json v)) kvs)"

fun in_range :: "json \<Rightarrow> bool" where
  "in_range (JNum n) = (float64 (num_rat n) \<noteq> None)"
| "in_range (JArr vs) = list_all in_range vs"
| "in_range (JObj kvs) = list_all (\<lambda>(k, v). in_range v) kvs"
| "in_range j = True"

definition dyn_get :: "(string \<times> dyn) list \<Rightarrow> string \<Rightarrow> dyn" where
  "dyn_get kvs k = (case map_of (rev kvs) k of Some v \<Rightarrow> v | None \<Rightarrow> DNil)"

text \<open>\<open>json.Unmarshal\<close> into a nil map: the map, \<open>None\<close> for nil, and whether there was no error.\<close>

definition unmarshal_map :: "string \<Rightarrow> (string \<times> dyn) list option \<times> bool" where
  "unmarshal_map s =
     (case json_unmarshal s of
        None \<Rightarrow> (None, False)
      | Some JNull \<Rightarrow> (None, True)
      | Some (JObj kvs) \<Rightarrow> (Some (map (\<lambda>(k, v). (k, dyn_of_json v)) kvs), in_range (JObj kvs))
      | Some _ \<Rightarrow> (None, False))"

subsection \<open>The evaluator\<close>

text \<open>
  The engine: reading the policy file for the \<open>k\<close>-th time, compiling a policy at a path,
  evaluating a compiled query on an input. An evaluation gives a list of results, each the
  values of its expressions.
\<close>

record 'q opa_lib =
  read_file :: "nat \<Rightarrow> go_error + string"
  prepare :: "string \<Rightarrow> string \<Rightarrow> go_error + 'q"
  eval_query :: "'q \<Rightarrow> dyn \<Rightarrow> go_error + dyn list list"

record 'q opa_evaluator =
  ev_query :: 'q
  ev_path :: string
  ev_reads :: nat

definition compile_policy :: "'q opa_lib \<Rightarrow> string \<Rightarrow> nat \<Rightarrow> go_error + 'q" where
  "compile_policy lib path k =
     (case read_file lib k of Inl err \<Rightarrow> Inl err | Inr content \<Rightarrow> prepare lib path content)"

definition reload :: "'q opa_lib \<Rightarrow> 'q opa_evaluator \<Rightarrow> go_error option \<times> 'q opa_evaluator" where
  "reload lib ev =
     (case compile_policy lib (ev_path ev) (ev_reads ev) of
        Inl err \<Rightarrow> (Some err, ev\<lparr>ev_reads := Suc (ev_reads ev)\<rparr>)
      | Inr q \<Rightarrow> (None, ev\<lparr>ev_reads := Suc (ev_reads ev), ev_query := q\<rparr>))"

text \<open>The constructor loads the policy for the first time; an evaluator without a query is never seen.\<close>

definition NewOPAPolicyEvaluator :: "'q opa_lib \<Rightarrow> string \<Rightarrow> go_error + 'q opa_evaluator" where
  "NewOPAPolicyEvaluator lib path =
     (case compile_policy lib path 0 of
        Inl err \<Rightarrow> Inl err
      | Inr q \<Rightarrow> Inr \<lparr>ev_query = q, ev_path = path, ev_reads = 1\<rparr>)"

definition Evaluate :: "'q opa_lib \<Rightarrow> 'q opa_evaluator \<Rightarrow> dyn \<Rightarrow> go_error + bool" where
  "Evaluate lib ev input =
     (case eval_query lib (ev_query ev) input of
        Inl err \<Rightarrow> Inl err
      | Inr results \<Rightarrow>
          (case results of
             [] \<Rightarrow> Inr False
           | exprs # _ \<Rightarrow> (case exprs of DBool allowed # _ \<Rightarrow> Inr allowed | _ \<Rightarrow> Inr False)))"

subsection \<open>The middleware\<close>

definition extractJWTClaims :: "request \<Rightarrow> (string \<times> dyn) list option" where
  "extractJWTClaims r =
     (let auth = header_get (rq_headers r) ''Authorization'' in
      if auth = [] \<or> \<not> has_prefix auth ''Bearer '' then None
      else (case go_split (CHR ''.'') (trim_prefix auth ''Bearer '') of
          [_, part, _] \<Rightarrow>
            (case raw_url_decode part of
               None \<Rightarrow> None
             | Some bytes \<Rightarrow>
                 (case unmarshal_map bytes of (m, ok) \<Rightarrow> if ok then m else None))
        | _ \<Rightarrow> None))"

text \<open>The loop that keeps the strings of a slice.\<close>

fun collect_strings :: "dyn list \<Rightarrow> string list \<Rightarrow> string list" where
  "collect_strings [] acc = acc"
| "collect_strings (v # vs) acc = collect_strings vs (case v of DStr s \<Rightarrow> acc @ [s] | _ \<Rightarrow> acc)"

definition claims_subject :: "(string \<times> dyn) list option \<Rightarrow> string" where
  "claims_subject m = (case m of None \<Rightarrow> [] | Some kvs \<Rightarrow> (case dyn_get kvs ''sub'' of DStr s \<Rightarrow> s | _ \<Rightarrow> []))"

definition claims_scope_list :: "(string \<times> dyn) list option \<Rightarrow> string list" where
  "claims_scope_list m =
     (case m of
        None \<Rightarrow> []
      | Some kvs \<Rightarrow>
          (case dyn_get kvs ''scope'' of
             DStr s \<Rightarrow> go_split (CHR '' '') s
           | _ \<Rightarrow>
               (case dyn_get kvs ''scopes'' of
                  DArr vs \<Rightarrow> collect_strings vs []
                | _ \<Rightarrow> (case dyn_get kvs ''permissions'' of DArr vs \<Rightarrow> collect_strings vs [] | _ \<Rightarrow> []))))"

text \<open>The middleware's own \<open>readAndBufferBody\<close>; it does what that of the schema check does.\<close>

definition policy_readAndBufferBody :: "request \<Rightarrow> (go_error + string) \<times> request" where
  "policy_readAndBufferBody r =
     (if rq_body r = BodyNil then (Inl (ErrNew ''empty request body''), r)
      else (case read_all (rq_body r) of
          (Inl err, rest) \<Rightarrow> (Inl err, r\<lparr>rq_body := rest\<rparr>)
        | (Inr bytes, rest) \<Rightarrow> (Inr bytes, r\<lparr>rq_body := BodyData bytes\<rparr>)))"

lemma policy_readAndBufferBody_eq: "policy_readAndBufferBody = readAndBufferBody"
  by (rule ext) (simp add: policy_readAndBufferBody_def readAndBufferBody_def)

text \<open>
  The body for the policy, \<open>None\<close> for a nil map, and the request afterwards. The error of the
  reading and that of the decoding are dropped.
\<close>

definition policy_body :: "request \<Rightarrow> (string \<times> dyn) list option \<times> request" where
  "policy_body r =
     (if rq_method r = ''POST''
      then (case policy_readAndBufferBody r of
              (Inr bytes, r1) \<Rightarrow> (if bytes \<noteq> [] then fst (unmarshal_map bytes) else None, r1)
            | (Inl err, r1) \<Rightarrow> (None, r1))
      else (None, r))"

lemmas policy_body_reads = policy_body_def [unfolded policy_readAndBufferBody_eq]

definition policy_input :: "string \<Rightarrow> string \<Rightarrow> string \<Rightarrow> string list \<Rightarrow> (string \<times> dyn) list option \<Rightarrow> dyn" where
  "policy_input path meth subj scopes body =
     DMap [(''path'', DStr path), (''method'', DStr meth),
           (''claims'', DMap [(''sub'', DStr subj),
                              (''scopes'', if scopes = [] then DNil else DArr (map DStr scopes))]),
           (''body'', case body of None \<Rightarrow> DNil | Some kvs \<Rightarrow> DMap kvs)]"

definition PolicyMiddleware_Handler :: "'q opa_lib \<Rightarrow> 'q opa_evaluator \<Rightarrow> handler \<Rightarrow> handler" where
  "PolicyMiddleware_Handler lib ev next rw r w =
     (let claims = extractJWTClaims r;
          sub = claims_subject claims;
          scopes = claims_scope_list claims;
          (body, r1) = policy_body r
      in case Evaluate lib ev (policy_input (rq_path r) (rq_method r) sub scopes body) of
           Inl err \<Rightarrow>
             (write_json (json_map [(''error'', JStr ''internal policy evaluation error'')])
                (write_header 500 (set_header ''Content-Type'' ''application/json'' rw)),
              ErrorContext (rq_ctx r) ''OPA policy evaluation failed'' [(''error'', AErr err)] w)
         | Inr allowed \<Rightarrow>
             if \<not> allowed
             then (write_json (json_map [(''error'', JStr ''forbidden''),
                                         (''message'', JStr ''access denied by system security policy'')])
                     (write_header 403 (set_header ''Content-Type'' ''application/json'' rw)),
                   WarnContext (rq_ctx r) ''OPA policy check rejected request''
                     [(''path'', AStr (rq_path r)), (''sub'', AStr sub)] w)
             else next rw r1 w)"

subsection \<open>The policy\<close>

text \<open>
  The rules of \<open>policy.rego\<close>. A reference into the input that finds nothing leaves its rule
  undefined; the comparison operators order values of all types, nil before booleans before
  numbers before strings before arrays before objects; \<open>xs[_]\<close> ranges over the elements of
  an array and the values of an object.
\<close>

fun rego_ref :: "dyn \<Rightarrow> string list \<Rightarrow> dyn option" where
  "rego_ref v [] = Some v"
| "rego_ref v (k # ks) =
     (case v of DMap kvs \<Rightarrow> Option.bind (map_of (rev kvs) k) (\<lambda>u. rego_ref u ks) | _ \<Rightarrow> None)"

definition rego_less :: "dyn \<Rightarrow> rat \<Rightarrow> bool" where
  "rego_less v n = (case v of DNil \<Rightarrow> True | DBool _ \<Rightarrow> True | DNum x \<Rightarrow> x < n | _ \<Rightarrow> False)"

definition rego_elems :: "dyn \<Rightarrow> dyn list" where
  "rego_elems v = (case v of DArr vs \<Rightarrow> vs | DMap kvs \<Rightarrow> map (\<lambda>(k, _). dyn_get kvs k) kvs | _ \<Rightarrow> [])"

definition rego_has_scope :: "dyn \<Rightarrow> string \<Rightarrow> bool" where
  "rego_has_scope scopes required \<longleftrightarrow> DStr required \<in> set (rego_elems scopes)"

definition amount_cents_under_limit :: "dyn \<Rightarrow> bool" where
  "amount_cents_under_limit cents \<longleftrightarrow> rego_less cents 1000000"

text \<open>A condition on a reference: false when it is undefined.\<close>

definition rego_holds :: "dyn \<Rightarrow> string list \<Rightarrow> (dyn \<Rightarrow> bool) \<Rightarrow> bool" where
  "rego_holds input path P = (case rego_ref input path of Some v \<Rightarrow> P v | None \<Rightarrow> False)"

definition authz_allow :: "dyn \<Rightarrow> bool" where
  "authz_allow input \<longleftrightarrow>
     rego_holds input [''path''] (\<lambda>v. v = DStr ''/auth/register-device'') \<or>
     (rego_holds input [''path''] (\<lambda>v. v = DStr ''/transfer/initiate'') \<and>
      rego_holds input [''method''] (\<lambda>v. v = DStr ''POST'') \<and>
      rego_holds input [''claims'', ''sub''] (\<lambda>v. v \<noteq> DStr []) \<and>
      rego_holds input [''body'', ''amount_cents''] amount_cents_under_limit) \<or>
     (rego_holds input [''path''] (\<lambda>v. v = DStr ''/transfer/initiate'') \<and>
      rego_holds input [''method''] (\<lambda>v. v = DStr ''POST'') \<and>
      rego_holds input [''claims'', ''sub''] (\<lambda>v. v \<noteq> DStr []) \<and>
      rego_holds input [''body'', ''amount_cents''] (\<lambda>v. \<not> rego_less v 1000000) \<and>
      rego_holds input [''claims'', ''scopes''] (\<lambda>v. rego_has_scope v ''transfer:high_value'')) \<or>
     (rego_holds input [''path''] (\<lambda>v. v = DStr ''/private/transfers'') \<and>
      rego_holds input [''method''] (\<lambda>v. v = DStr ''POST'') \<and>
      rego_holds input [''claims'', ''scopes''] (\<lambda>v. rego_has_scope v ''transfer:execute''))"

text \<open>The engine, with the policy of the repository loaded: the query has one boolean value.\<close>

definition runs_policy :: "'q opa_lib \<Rightarrow> 'q opa_evaluator \<Rightarrow> bool" where
  "runs_policy lib ev \<longleftrightarrow> (\<forall>input. eval_query lib (ev_query ev) input = Inr [[DBool (authz_allow input)]])"

text \<open>An engine of that kind, whose queries are the compiled policies themselves.\<close>

definition sample_opa :: "(dyn \<Rightarrow> bool) opa_lib" where
  "sample_opa =
     \<lparr>read_file = (\<lambda>k. if even k then Inr ''policy'' else Inl (ErrNew ''gone'')),
      prepare = (\<lambda>path content. Inr authz_allow),
      eval_query = (\<lambda>q input. Inr [[DBool (q input)]])\<rparr>"

definition sample_evaluator :: "(dyn \<Rightarrow> bool) opa_evaluator" where
  "sample_evaluator = \<lparr>ev_query = authz_allow, ev_path = ''policy.rego'', ev_reads = 1\<rparr>"

lemma sample_runs: "runs_policy sample_opa sample_evaluator"
  by (simp add: runs_policy_def sample_opa_def sample_evaluator_def)

subsection \<open>What the policy decides\<close>

lemma input_refs:
  "rego_ref (policy_input path meth subj scopes body) [''path''] = Some (DStr path)"
  "rego_ref (policy_input path meth subj scopes body) [''method''] = Some (DStr meth)"
  "rego_ref (policy_input path meth subj scopes body) [''claims'', ''sub''] = Some (DStr subj)"
  "rego_ref (policy_input path meth subj scopes body) [''claims'', ''scopes''] =
     Some (if scopes = [] then DNil else DArr (map DStr scopes))"
  "rego_ref (policy_input path meth subj scopes body) [''body'', ''amount_cents''] =
     Option.bind body (\<lambda>kvs. map_of (rev kvs) ''amount_cents'')"
  by (simp_all add: policy_input_def split: option.split)

lemma has_scope_input:
  "rego_has_scope (if scopes = [] then DNil else DArr (map DStr scopes)) sc \<longleftrightarrow> sc \<in> set scopes"
  by (auto simp: rego_has_scope_def rego_elems_def)

definition policy_allows :: "string \<Rightarrow> string \<Rightarrow> string \<Rightarrow> string list \<Rightarrow> (string \<times> dyn) list option \<Rightarrow> bool" where
  "policy_allows path meth subj scopes body \<longleftrightarrow>
     (if path = ''/auth/register-device'' then True
      else if path = ''/transfer/initiate''
      then meth = ''POST'' \<and> subj \<noteq> [] \<and>
        (case Option.bind body (\<lambda>kvs. map_of (rev kvs) ''amount_cents'') of
           None \<Rightarrow> False
         | Some v \<Rightarrow> rego_less v 1000000 \<or> ''transfer:high_value'' \<in> set scopes)
      else if path = ''/private/transfers'' then meth = ''POST'' \<and> ''transfer:execute'' \<in> set scopes
      else False)"

lemma authz_allow_input: "authz_allow (policy_input path meth subj scopes body) \<longleftrightarrow> policy_allows path meth subj scopes body"
  unfolding authz_allow_def rego_holds_def input_refs option.case has_scope_input policy_allows_def
    amount_cents_under_limit_def
  by (auto split: option.splits)

lemma handler_decides:
  assumes "runs_policy lib ev"
  shows "if policy_allows (rq_path r) (rq_method r) (claims_subject (extractJWTClaims r))
       (claims_scope_list (extractJWTClaims r)) (fst (policy_body r))
     then PolicyMiddleware_Handler lib ev next rw r w = next rw (snd (policy_body r)) w
     else PolicyMiddleware_Handler lib ev next rw r w =
       (write_json (json_map [(''error'', JStr ''forbidden''),
                              (''message'', JStr ''access denied by system security policy'')])
          (write_header 403 (set_header ''Content-Type'' ''application/json'' rw)),
        WarnContext (rq_ctx r) ''OPA policy check rejected request''
          [(''path'', AStr (rq_path r)), (''sub'', AStr (claims_subject (extractJWTClaims r)))] w)"
  using assms
  by (simp add: PolicyMiddleware_Handler_def Let_def Evaluate_def runs_policy_def authz_allow_input split: prod.split)


lemma rego_less_int:
  assumes "in_int64 i"
  shows "rego_less (dyn_of_json (JNum (int_dec i))) 1000000 \<longleftrightarrow> i < 1000000"
proof -
  obtain y where y: "float64 (of_int i) = Some y" using float64_int64 [OF assms] ..
  with float64_int_less [OF y, of 1000000] show ?thesis by (simp add: rego_less_def)
qed

lemma json_unmarshal_Nil: "json_unmarshal [] = None"
  by code_simp

lemma map_of_members: "map_of (rev (map (\<lambda>(k, v). (k, dyn_of_json v)) kvs)) k = map_option dyn_of_json (map_get kvs k)"
  by (simp add: map_get_def rev_map map_of_map)

lemma policy_body_data:
  assumes "rq_method r = ''POST''" "rq_body r = BodyData s" "json_unmarshal s = Some (JObj kvs)"
  shows "policy_body r = (Some (map (\<lambda>(k, v). (k, dyn_of_json v)) kvs), r)"
proof -
  have "s \<noteq> []" using assms(3) json_unmarshal_Nil by auto
  with assms read_body_data [OF assms(2)] show ?thesis by (simp add: policy_body_reads unmarshal_map_def)
qed

lemma writeForbidden_simps:
  "rw_sent rw = None \<Longrightarrow> sent_status (write_json j (write_header c (set_header k v rw))) = c"
  by (simp add: sent_status_def)

lemma Policy_orderly: "orderly h \<Longrightarrow> orderly (PolicyMiddleware_Handler lib ev h)"
  by (auto simp: orderly_def PolicyMiddleware_Handler_def Let_def split: prod.split sum.split)

subsection \<open>Properties\<close>

text \<open>
  C18 (policy_decision): under the repository's policy, a request goes on exactly if it
  registers a device, or is a \<open>POST\<close> that starts a transfer for a named subject with an
  amount under the limit or the scope for high values, or is one that executes a transfer
  with the scope for it; subject and scopes are those the bearer token states, whoever signed
  it. Any other request is a 403 and leaves nothing but a log record.
\<close>

theorem policy_decision:
  assumes "runs_policy lib ev" "rw_sent rw = None"
  shows "let claims = extractJWTClaims r; scopes = claims_scope_list claims; (body, r1) = policy_body r in
     if rq_path r = ''/auth/register-device'' \<or>
       (rq_path r = ''/transfer/initiate'' \<and> rq_method r = ''POST'' \<and> claims_subject claims \<noteq> [] \<and>
        (case Option.bind body (\<lambda>kvs. map_of (rev kvs) ''amount_cents'') of
           None \<Rightarrow> False
         | Some v \<Rightarrow> rego_less v 1000000 \<or> ''transfer:high_value'' \<in> set scopes)) \<or>
       (rq_path r = ''/private/transfers'' \<and> rq_method r = ''POST'' \<and> ''transfer:execute'' \<in> set scopes)
     then PolicyMiddleware_Handler lib ev next rw r w = next rw r1 w
     else sent_status (fst (PolicyMiddleware_Handler lib ev next rw r w)) = 403 \<and>
       w_keys (snd (PolicyMiddleware_Handler lib ev next rw r w)) = w_keys w \<and>
       w_sent (snd (PolicyMiddleware_Handler lib ev next rw r w)) = w_sent w"
  using handler_decides [OF assms(1), of r "next" rw w] assms(2)
  by (auto simp: policy_allows_def Let_def writeForbidden_simps split: prod.split if_splits)

theorem policy_decision_witness:
  "sent_status (fst (PolicyMiddleware_Handler sample_opa sample_evaluator created_handler writer_init
     (sample_request\<lparr>rq_path := ''/private/transfers''\<rparr>) world_init)) = 403"
proof -
  have "claims_scope_list (extractJWTClaims (sample_request\<lparr>rq_path := ''/private/transfers''\<rparr>)) = []"
    by (simp add: extractJWTClaims_def sample_request_def header_get_def claims_scope_list_def)
  with policy_decision [OF sample_runs, of writer_init "sample_request\<lparr>rq_path := ''/private/transfers''\<rparr>"
      created_handler world_init]
  show ?thesis by (simp add: writer_init_def sample_request_def split: prod.splits)
qed

text \<open>
  C31 (policy_limit): for a transfer whose body states a 64-bit amount, the rounding of the
  number to a float does not blur the limit: the request goes on exactly if the token names
  a subject and the amount is under 1000000 cents or the token has the scope for high values.
\<close>

theorem policy_limit:
  assumes "runs_policy lib ev" "rw_sent rw = None"
    and "rq_path r = ''/transfer/initiate''" "rq_method r = ''POST''"
    and "rq_body r = BodyData s" "json_unmarshal s = Some (JObj kvs)"
    and "map_get kvs ''amount_cents'' = Some (JNum (int_dec i))" "in_int64 i"
  shows "if claims_subject (extractJWTClaims r) \<noteq> [] \<and>
       (i < 1000000 \<or> ''transfer:high_value'' \<in> set (claims_scope_list (extractJWTClaims r)))
     then PolicyMiddleware_Handler lib ev next rw r w = next rw r w
     else sent_status (fst (PolicyMiddleware_Handler lib ev next rw r w)) = 403"
  using handler_decides [OF assms(1), of r "next" rw w] assms(2-8) policy_body_data [OF assms(4-6)]
    rego_less_int [OF assms(8)]
  by (auto simp: policy_allows_def writeForbidden_simps map_of_members split: if_splits simp del: dyn_of_json.simps)

text \<open>A bearer token of claims with the given subject, unsigned.\<close>

definition bearer :: "string \<Rightarrow> string" where
  "bearer claims = ''Bearer h.'' @ raw_url_encode claims @ ''.s''"

definition transfer_members :: "(string \<times> json) list \<Rightarrow> (string \<times> json) list" where
  "transfer_members amounts =
     [(''id'', JStr ''t1''), (''sender_account'', JStr ''ACC000123456''),
      (''receiver_account'', JStr ''ACC000987654'')] @ amounts @
     [(''currency'', JStr ''USD''), (''timestamp'', JStr ''2026-05-23T10:00:00Z''), (''signature'', JStr ''00'')]"

definition transfer_post :: "(string \<times> json) list \<Rightarrow> request" where
  "transfer_post amounts =
     \<lparr>rq_method = ''POST'', rq_path = ''/transfer/initiate'', rq_raw_path = [], rq_query = [],
      rq_headers = [(''Authorization'', bearer ''{\"sub\":\"alice\"}'')], rq_remote = ''10.0.0.1:5000'',
      rq_body = BodyData (json_print (JObj (transfer_members amounts))), rq_ctx = background\<rparr>"

lemma transfer_parsed:
  assumes "amounts \<in> {[(''amount_cents'', JNum (int_dec i))],
      [(''amount_cents'', JNum (int_dec i)), (''AMOUNT_CENTS'', JNum (int_dec j))]}"
  shows "json_unmarshal (json_print (JObj (transfer_members amounts))) = Some (JObj (transfer_members amounts))"
proof (rule json_unmarshal_print)
  show "json_ok (JObj (transfer_members amounts))"
    using assms by (auto simp: transfer_members_def ascii_valid_utf8)
  have "\<forall>a\<in>set (transfer_members amounts). (case a of (k, v) \<Rightarrow> jdepth v) \<le> 9999"
    using assms by (auto simp: transfer_members_def)
  then show "jdepth (JObj (transfer_members amounts)) \<le> max_depth" by (simp add: max_depth_def)
qed

lemma sample_claims:
  "claims_subject (extractJWTClaims (transfer_post amounts)) = ''alice''"
  "claims_scope_list (extractJWTClaims (transfer_post amounts)) = []"
proof -
  have u: "unmarshal_map ''{\"sub\":\"alice\"}'' = (Some [(''sub'', DStr ''alice'')], True)" by code_simp
  have "go_split (CHR ''.'') (''h.'' @ raw_url_encode ''{\"sub\":\"alice\"}'' @ ''.s'') =
      [''h'', raw_url_encode ''{\"sub\":\"alice\"}'', ''s'']"
    by (simp add: go_split_append)
  then have "extractJWTClaims (transfer_post amounts) = Some [(''sub'', DStr ''alice'')]"
    using u by (simp add: extractJWTClaims_def transfer_post_def bearer_def header_get_def has_prefix_def trim_prefix_def)
  then show "claims_subject (extractJWTClaims (transfer_post amounts)) = ''alice''"
    "claims_scope_list (extractJWTClaims (transfer_post amounts)) = []"
    by (simp_all add: claims_subject_def claims_scope_list_def dyn_get_def)
qed

lemma transfer_post_simps:
  "rq_path (transfer_post m) = ''/transfer/initiate''" "rq_method (transfer_post m) = ''POST''"
  "rq_body (transfer_post m) = BodyData (json_print (JObj (transfer_members m)))"
  by (simp_all only: transfer_post_def request.simps)

lemma members_amount:
  "map_get (transfer_members [(''amount_cents'', JNum (int_dec i))]) ''amount_cents'' = Some (JNum (int_dec i))"
  "map_get (transfer_members [(''amount_cents'', JNum (int_dec i)), (''AMOUNT_CENTS'', JNum (int_dec j))]) ''amount_cents'' =
     Some (JNum (int_dec i))"
  by (simp_all add: map_get_def transfer_members_def)

theorem policy_limit_witness:
  "sent_status (fst (PolicyMiddleware_Handler sample_opa sample_evaluator created_handler writer_init
     (transfer_post [(''amount_cents'', JNum (int_dec 5000000))]) world_init)) = 403"
proof -
  have "json_unmarshal (json_print (JObj (transfer_members [(''amount_cents'', JNum (int_dec 5000000))]))) =
      Some (JObj (transfer_members [(''amount_cents'', JNum (int_dec 5000000))]))"
    by (rule transfer_parsed) blast
  from policy_limit [OF sample_runs _ transfer_post_simps this members_amount(1), of writer_init created_handler world_init]
  have "if claims_subject (extractJWTClaims (transfer_post [(''amount_cents'', JNum (int_dec 5000000))])) \<noteq> [] \<and>
       ((5000000 :: int) < 1000000 \<or>
        ''transfer:high_value'' \<in> set (claims_scope_list (extractJWTClaims (transfer_post [(''amount_cents'', JNum (int_dec 5000000))]))))
     then PolicyMiddleware_Handler sample_opa sample_evaluator created_handler writer_init
        (transfer_post [(''amount_cents'', JNum (int_dec 5000000))]) world_init =
       created_handler writer_init (transfer_post [(''amount_cents'', JNum (int_dec 5000000))]) world_init
     else ?thesis"
    by (simp only: in_int64_def writer_init_def writer.simps) simp
  then show ?thesis unfolding sample_claims by simp
qed

text \<open>
  C32 (policy_bypass): the policy reads the member \<open>amount_cents\<close> of the body in exactly that
  spelling, the schema check and the handler the last member that matches it in any case. So
  there is a transfer of 50,000 dollars, well formed for the schema, that passes both without
  the scope for high values.
\<close>

theorem policy_bypass:
  "\<exists>r j (p :: transfer_payload). body_json r = Some j \<and> payload_of_json j = Some p \<and> amount_cents p = 5000000 \<and>
     ''transfer:high_value'' \<notin> set (claims_scope_list (extractJWTClaims r)) \<and>
     (\<forall>e next rw w. SchemaValidationMiddleware e (PolicyMiddleware_Handler sample_opa sample_evaluator next) rw r w =
        next rw r w)"
proof (intro exI conjI allI)
  let ?m = "[(''amount_cents'', JNum (int_dec 1)), (''AMOUNT_CENTS'', JNum (int_dec 5000000))]"
  let ?r = "transfer_post ?m" and ?j = "JObj (transfer_members ?m)"
  let ?t = "\<lparr>cyear = 2026, cmonth = 5, cday = 23, chour = 10, cmin = 0, csec = 0, cnano = 0, coffset = 0\<rparr>"
  let ?p = "\<lparr>tx_id = ''t1'', sender_account = ''ACC000123456'', receiver_account = ''ACC000987654'',
      amount_cents = 5000000, currency = ''USD'', timestamp = ?t, signature = ''00''\<rparr>"
  have js: "json_unmarshal (json_print ?j) = Some ?j" by (rule transfer_parsed) blast
  show body: "body_json ?r = Some ?j" by (simp only: body_json_def transfer_post_simps body.case js)
  have t: "parse_rfc3339 ''2026-05-23T10:00:00Z'' = Some ?t" by code_simp
  have "key_matches ''amount_cents'' ''AMOUNT_CENTS''" "\<not> key_matches ''id'' ''AMOUNT_CENTS''"
    "\<not> key_matches ''sender_account'' ''AMOUNT_CENTS''" "\<not> key_matches ''receiver_account'' ''AMOUNT_CENTS''"
    by code_simp+
  then have "payload_field q ''AMOUNT_CENTS'' v = map_option (\<lambda>i. q\<lparr>amount_cents := i\<rparr>) (dec_int64 (amount_cents q) v)"
    for q v by (simp add: payload_field_def)
  then show p: "payload_of_json ?j = Some ?p"
    by (simp add: transfer_members_def payload_of_json_def decode_struct_def payload_field_simps payload_zero_def
        dec_time_def t in_int64_def)
  show "amount_cents ?p = 5000000" by simp
  show "''transfer:high_value'' \<notin> set (claims_scope_list (extractJWTClaims ?r))" by (simp only: sample_claims) simp
  fix e "next" rw w
  have "\<not> civil_is_zero ?t"
    by (simp add: civil_is_zero_def civil_unix_def days_before_year_def days_before_month_def)
  then have "transfer_contract ?p" by (simp add: transfer_contract_def)
  then have "contract_met e ?r" by (simp add: contract_met_def transfer_post_simps body p del: dyn_of_json.simps)
  moreover have "PolicyMiddleware_Handler sample_opa sample_evaluator next rw ?r w = next rw ?r w"
    using handler_decides [OF sample_runs, of ?r "next" rw w] policy_body_data [OF transfer_post_simps(2,3) js]
      rego_less_int [of 1] members_amount(2) [of 1 5000000]
    by (simp add: policy_allows_def transfer_post_simps sample_claims map_of_members in_int64_def
        del: dyn_of_json.simps)
  ultimately show "SchemaValidationMiddleware e (PolicyMiddleware_Handler sample_opa sample_evaluator next) rw ?r w = next rw ?r w"
    by (simp only: schema_pass)
qed

end
