(* ===== verification/RateLimiter.thy ===== *)
theory RateLimiter
  imports Http Telemetry GoFloat GoHash
begin

text \<open>
  \<open>internal/adapters/handler/rate_limiter.go\<close>: the token bucket script that runs inside
  Valkey, the backend that evaluates it, and the middleware around it. The numbers of the
  script are floats: every operation is the exact one followed by the rounding of \<open>float64\<close>,
  with infinities and NaN for the divisions by zero a configuration may lead to.
\<close>

subsection \<open>Numbers of the script\<close>

text \<open>The sign of a number, infinities included.\<close>

definition lua_sign :: "float_val \<Rightarrow> rat" where
  "lua_sign a = (case a of Fin x \<Rightarrow> sgn x | PInf \<Rightarrow> 1 | NInf \<Rightarrow> - 1 | NaN \<Rightarrow> 0)"

definition lua_mul :: "float_val \<Rightarrow> float_val \<Rightarrow> float_val" where
  "lua_mul a b =
     (case (a, b) of
        (Fin x, Fin y) \<Rightarrow> round_float (x * y)
      | (NaN, _) \<Rightarrow> NaN | (_, NaN) \<Rightarrow> NaN
      | _ \<Rightarrow> inf_of_sign (lua_sign a * lua_sign b))"

definition lua_positive :: "float_val \<Rightarrow> bool" where
  "lua_positive a = (case a of Fin x \<Rightarrow> 0 < x | PInf \<Rightarrow> True | _ \<Rightarrow> False)"

text \<open>\<open>math.min(capacity, tokens + refilled)\<close> of finite capacity and tokens and positive refill.\<close>

definition min_add :: "rat \<Rightarrow> rat \<Rightarrow> float_val \<Rightarrow> rat" where
  "min_add cap t refilled =
     (case refilled of
        Fin x \<Rightarrow> (case round_float (t + x) of Fin y \<Rightarrow> min cap y | _ \<Rightarrow> cap)
      | _ \<Rightarrow> cap)"

subsection \<open>The script\<close>

record limits =
  lim_capacity :: int
  lim_rate :: int
  lim_period :: int  \<comment> \<open>milliseconds\<close>

text \<open>The refill: the tokens and the time of the last update before the request is counted.\<close>

definition refill :: "limits \<Rightarrow> int \<Rightarrow> bucket option \<Rightarrow> rat \<times> rat" where
  "refill lm now b =
     (case b of
        None \<Rightarrow> (int_float (lim_capacity lm), int_float now)
      | Some b \<Rightarrow>
          (case round_float (int_float now - last_update b) of
             Fin elapsed \<Rightarrow>
               if 0 < elapsed
               then (let refilled = lua_mul (Fin elapsed)
                           (div_float (int_float (lim_rate lm)) (int_float (lim_period lm)))
                     in if lua_positive refilled
                        then (min_add (int_float (lim_capacity lm)) (tokens b) refilled, int_float now)
                        else (tokens b, last_update b))
               else (tokens b, last_update b)
           | _ \<Rightarrow> (tokens b, last_update b)))"

definition lua_val :: "rat \<Rightarrow> rat" where
  "lua_val x = (case round_float x of Fin y \<Rightarrow> y | _ \<Rightarrow> 0)"

definition bucket_ttl :: "limits \<Rightarrow> float_val" where
  "bucket_ttl lm =
     (case lua_mul (lua_mul (div_float (int_float (lim_capacity lm)) (int_float (lim_rate lm)))
                            (div_float (int_float (lim_period lm)) 1000)) (Fin 2) of
        Fin x \<Rightarrow> Fin (of_int \<lceil>x\<rceil>) | n \<Rightarrow> n)"

text \<open>
  The table of buckets, by key. An expired key is as good as gone. \<open>EXPIRE\<close> with a time that
  is not positive deletes the key, and fails on one that is no integer or too far away.
\<close>

definition live_bucket :: "int \<Rightarrow> (string \<times> bucket) list \<Rightarrow> string \<Rightarrow> bucket option" where
  "live_bucket now bs key =
     (case map_of bs key of
        Some b \<Rightarrow> (case expiry b of Some t \<Rightarrow> if t \<le> now then None else Some b | None \<Rightarrow> Some b)
      | None \<Rightarrow> None)"

definition put_bucket :: "string \<Rightarrow> bucket \<Rightarrow> (string \<times> bucket) list \<Rightarrow> (string \<times> bucket) list" where
  "put_bucket key b bs = (key, b) # filter (\<lambda>(k, _). k \<noteq> key) bs"

definition expire_bucket ::
  "int \<Rightarrow> string \<Rightarrow> bucket \<Rightarrow> float_val \<Rightarrow> (string \<times> bucket) list \<Rightarrow> (string \<times> bucket) list option" where
  "expire_bucket now key b ttl bs =
     (case ttl of
        Fin x \<Rightarrow>
          (let s = \<lfloor>x\<rfloor> in
           if 2 ^ 63 - 1 - now < s * 1000 \<or> s * 1000 < - (2 ^ 63) then None
           else if s \<le> 0 then Some (filter (\<lambda>(k, _). k \<noteq> key) bs)
           else Some (put_bucket key (b\<lparr>expiry := Some (now + s * 1000)\<rparr>) bs))
      | _ \<Rightarrow> None)"

text \<open>
  The script on the table at Valkey's time: its reply, \<open>None\<close> when \<open>EXPIRE\<close> stops it, and the
  table. (The reply's integer is the floor itself: its cast to 64 bits is exact for buckets of
  up to nine quadrillion tokens. Of negative configurations the sign of a zero time to live is
  not kept.)
\<close>

definition token_bucket_script ::
  "limits \<Rightarrow> int \<Rightarrow> int \<Rightarrow> string \<Rightarrow> (string \<times> bucket) list \<Rightarrow> (int \<times> int) option \<times> (string \<times> bucket) list" where
  "token_bucket_script lm now vnow key bs =
     (let b = live_bucket vnow bs key; (t, u) = refill lm now b in
      if 1 \<le> t
      then (let t1 = lua_val (t - 1);
                b1 = \<lparr>tokens = t1, last_update = u, expiry = Option.bind b expiry\<rparr>
            in case expire_bucket vnow key b1 (bucket_ttl lm) bs of
                 None \<Rightarrow> (None, put_bucket key b1 bs)
               | Some bs' \<Rightarrow> (Some (1, \<lfloor>lua_val (t1 * 1000)\<rfloor>), bs'))
      else (Some (0, \<lfloor>lua_val (t * 1000)\<rfloor>), bs))"

subsection \<open>The backend\<close>

text \<open>The reply of the client: the script's, or what came instead of it.\<close>

definition valkey_do :: "env \<Rightarrow> limits \<Rightarrow> int \<Rightarrow> string \<Rightarrow> world \<Rightarrow> valkey_reply \<times> world" where
  "valkey_do e lm now key w =
     (let k = w_valkey w; w1 = w\<lparr>w_valkey := Suc k\<rparr>;
          (res, bs) = token_bucket_script lm now (valkey_clock e k) key (w_buckets w);
          ran = w1\<lparr>w_buckets := bs\<rparr>
      in case valkey_fault e k of
           Some (took_effect, reply) \<Rightarrow> (reply, if took_effect then ran else w1)
         | None \<Rightarrow>
             (case res of
                None \<Rightarrow> VErr (valkey_msg e k)
              | Some (allowed, remaining) \<Rightarrow> VVals [Inr allowed, Inr remaining], ran))"

definition ValkeyNil :: go_error where
  "ValkeyNil = ErrSentinel ''valkey nil message''"

type_synonym limiter_backend =
  "go_ctx \<Rightarrow> string \<Rightarrow> limits \<Rightarrow> int \<Rightarrow> world \<Rightarrow> (go_error + bool \<times> int) \<times> world"

definition EvalTokenBucket :: "env \<Rightarrow> limiter_backend" where
  "EvalTokenBucket e ctx key lm now w =
     (case valkey_do e lm now key w of
        (reply, w1) \<Rightarrow>
          (case reply of
             VErr m \<Rightarrow> Inl (ErrNew m)
           | VNotArray m \<Rightarrow> Inl (ErrNew m)
           | VVals vals \<Rightarrow>
               (case vals of
                  v0 # v1 # _ \<Rightarrow>
                    (case v0 of
                       Inl m \<Rightarrow> Inl (ErrNew m)
                     | Inr allowed \<Rightarrow>
                         (case v1 of Inl m \<Rightarrow> Inl (ErrNew m) | Inr remaining \<Rightarrow> Inr (allowed = 1, remaining)))
                | _ \<Rightarrow> Inl ValkeyNil), w1))"

subsection \<open>The middleware\<close>

record limiter_config =
  cfg_capacity :: int
  cfg_rate :: int
  cfg_period :: int  \<comment> \<open>nanoseconds\<close>

text \<open>\<open>net.SplitHostPort\<close>: the host, \<open>None\<close> on an error.\<close>

definition split_host :: "string \<Rightarrow> string option" where
  "split_host hp =
     (if CHR '':'' \<notin> set hp then None
      else let i = length hp - 1 - length (takeWhile (\<lambda>c. c \<noteq> CHR '':'') (rev hp)) in
        if hd hp = CHR ''[''
        then (if CHR '']'' \<notin> set hp then None
              else let n = length (takeWhile (\<lambda>c. c \<noteq> CHR '']'') hp) in
                if n + 1 \<noteq> i then None
                else if CHR ''['' \<in> set (drop 1 hp) \<or> CHR '']'' \<in> set (drop (n + 1) hp) then None
                else Some (drop 1 (take n hp)))
        else (if CHR '':'' \<in> set (take i hp) then None
              else if CHR ''['' \<in> set hp \<or> CHR '']'' \<in> set hp then None
              else Some (take i hp)))"

definition getClientIdentifier :: "request \<Rightarrow> string" where
  "getClientIdentifier r =
     (case ctx_claims (rq_ctx r) of
        Some (Some (c # cs)) \<Rightarrow> ''user:'' @ c # cs
      | _ \<Rightarrow>
          (let ip = (case split_host (rq_remote r) of Some h \<Rightarrow> h | None \<Rightarrow> rq_remote r);
               xff = header_get (rq_headers r) ''X-Forwarded-For'';
               ip1 = (if xff \<noteq> [] then trim_space (hd (go_split (CHR '','') xff)) else ip)
           in ''ip:'' @ ip1))"

definition hashIdentifier :: "string \<Rightarrow> string" where
  "hashIdentifier i = hex_encode (of_bytes (sha256 (to_bytes i)))"

text \<open>\<open>int64(d.Seconds())\<close>: the seconds and the rest are added as floats, then truncated.\<close>

definition seconds_truncated :: "int \<Rightarrow> int" where
  "seconds_truncated d =
     (let sec = toward_zero d second; nsec = d - sec * second;
          x = lua_val (of_int sec + lua_val (of_int nsec / 1000000000))
      in if 0 \<le> x then \<lfloor>x\<rfloor> else \<lceil>x\<rceil>)"

definition RateLimiter_Handler :: "env \<Rightarrow> limiter_backend \<Rightarrow> limiter_config \<Rightarrow> handler \<Rightarrow> handler" where
  "RateLimiter_Handler e backend cfg next rw r w =
     (let ctx = rq_ctx r;
          hashed = hashIdentifier (getClientIdentifier r);
          (now, w1) = time_now e w;
          lm = \<lparr>lim_capacity = cfg_capacity cfg, lim_rate = cfg_rate cfg, lim_period = duration_millis (cfg_period cfg)\<rparr>
      in case backend ctx (''ratelimit:'' @ hashed) lm (nanos now div 1000000) w1 of
           (Inl err, w2) \<Rightarrow>
             next rw r (WarnContext ctx ''rate limiter backend error, failing open'' [(''error'', AErr err)] w2)
         | (Inr (allowed, remaining), w2) \<Rightarrow>
             (let rw1 = set_header ''X-RateLimit-Remaining'' (int_dec remaining)
                          (set_header ''X-RateLimit-Limit'' (int_dec (cfg_capacity cfg)) rw)
              in if \<not> allowed
                 then (write_json (json_map [(''error'', JStr ''too many requests''),
                                             (''message'', JStr ''rate limit exceeded, please retry later'')])
                         (write_header 429
                            (set_header ''Content-Type'' ''application/json''
                               (set_header ''Retry-After'' (int_dec (seconds_truncated (cfg_period cfg))) rw1))),
                       WarnContext ctx ''rate limit exceeded for client'' [(''client_hash'', AStr hashed)] w2)
                 else next rw1 r w2))"


subsection \<open>Bounds of the arithmetic\<close>

lemma lua_val_float64: "lua_val x = (case float64 x of Some y \<Rightarrow> y | None \<Rightarrow> 0)"
  by (simp add: lua_val_def round_float_def split: option.split)

lemma lua_val_int: "0 \<le> n \<Longrightarrow> n \<le> 2 ^ 52 \<Longrightarrow> lua_val (of_int n) = of_int n"
  by (simp add: lua_val_float64 float64_exact)

lemma lua_val_bounds:
  assumes "0 \<le> x" "x \<le> of_int n" "0 < n" "n \<le> 2 ^ 52"
  shows "0 \<le> lua_val x \<and> lua_val x \<le> of_int n"
  using float64_nonneg [OF assms(1)] float64_le [OF assms(2-4)] assms(3)
  by (auto simp: lua_val_float64 split: option.split)

text \<open>A configuration within the bounds of exact arithmetic.\<close>

definition limits_ok :: "limits \<Rightarrow> bool" where
  "limits_ok lm \<longleftrightarrow> 1 \<le> lim_capacity lm \<and> lim_capacity lm \<le> 2 ^ 52"

definition bucket_ok :: "limits \<Rightarrow> bucket \<Rightarrow> bool" where
  "bucket_ok lm b \<longleftrightarrow> 0 \<le> tokens b \<and> tokens b \<le> of_int (lim_capacity lm)"

lemma min_add_bounds:
  assumes "limits_ok lm" "0 \<le> t" "lua_positive x"
  shows "0 \<le> min_add (of_int (lim_capacity lm)) t x \<and> min_add (of_int (lim_capacity lm)) t x \<le> of_int (lim_capacity lm)"
proof -
  have c: "(0 :: rat) \<le> of_int (lim_capacity lm)" using assms(1) by (simp add: limits_ok_def)
  have "0 \<le> y" if "x = Fin z" "round_float (t + z) = Fin y" for y z
    using that assms(2,3) float64_nonneg [of "t + z" y]
    by (auto simp: lua_positive_def round_float_def split: option.splits if_splits)
  with c show ?thesis by (auto simp: min_add_def split: float_val.split)
qed

lemma refill_bounds:
  assumes "limits_ok lm" "case b of Some b \<Rightarrow> bucket_ok lm b | None \<Rightarrow> True"
  shows "0 \<le> fst (refill lm now b) \<and> fst (refill lm now b) \<le> of_int (lim_capacity lm)"
proof -
  have c: "int_float (lim_capacity lm) = of_int (lim_capacity lm)" "(0 :: rat) \<le> of_int (lim_capacity lm)"
    using assms(1) by (simp_all add: limits_ok_def int_float_id)
  show ?thesis
  proof (cases b)
    case None
    with c show ?thesis by (simp add: refill_def)
  next
    case (Some b')
    with assms(2) have b': "0 \<le> tokens b'" "tokens b' \<le> of_int (lim_capacity lm)" by (simp_all add: bucket_ok_def)
    from b' c min_add_bounds [OF assms(1) b'(1)] show ?thesis
      by (simp add: refill_def Some Let_def split: float_val.split)
  qed
qed

definition table_ok :: "limits \<Rightarrow> (string \<times> bucket) list \<Rightarrow> bool" where
  "table_ok lm bs \<longleftrightarrow> list_all (\<lambda>(k, b). bucket_ok lm b) bs"

lemma table_ok_simps:
  "table_ok lm bs \<Longrightarrow> table_ok lm (filter P bs)"
  "table_ok lm bs \<Longrightarrow> bucket_ok lm b \<Longrightarrow> table_ok lm (put_bucket key b bs)"
  by (auto simp: table_ok_def list_all_iff put_bucket_def)

lemma live_ok: "table_ok lm bs \<Longrightarrow> case live_bucket v bs key of Some b \<Rightarrow> bucket_ok lm b | None \<Rightarrow> True"
  by (auto simp: live_bucket_def table_ok_def list_all_iff dest!: map_of_SomeD split: option.splits)

lemma expire_ok:
  "expire_bucket v key b ttl bs = Some bs' \<Longrightarrow> table_ok lm bs \<Longrightarrow> bucket_ok lm b \<Longrightarrow> table_ok lm bs'"
  by (auto simp: expire_bucket_def Let_def bucket_ok_def intro!: table_ok_simps split: float_val.splits if_splits)

lemma script_ok:
  assumes "limits_ok lm" "table_ok lm bs"
  shows "table_ok lm (snd (token_bucket_script lm now v key bs))"
proof -
  obtain t u where tu: "refill lm now (live_bucket v bs key) = (t, u)" by fastforce
  have t: "0 \<le> t" "t \<le> of_int (lim_capacity lm)"
    using refill_bounds [OF assms(1) live_ok [OF assms(2)], of now v key] tu by simp_all
  show ?thesis
  proof (cases "1 \<le> t")
    case False
    with tu assms(2) show ?thesis by (simp add: token_bucket_script_def)
  next
    case True
    have "0 \<le> lua_val (t - 1) \<and> lua_val (t - 1) \<le> of_int (lim_capacity lm)"
      by (rule lua_val_bounds) (use True t assms(1) in \<open>auto simp: limits_ok_def\<close>)
    then have b: "bucket_ok lm \<lparr>tokens = lua_val (t - 1), last_update = u, expiry = x\<rparr>" for x
      by (simp add: bucket_ok_def)
    show ?thesis using True tu b assms(2)
      by (auto simp: token_bucket_script_def Let_def intro: table_ok_simps dest!: expire_ok split: option.split)
  qed
qed

subsection \<open>The contract of a backend\<close>

text \<open>
  What the middleware relies on: evaluating a request keeps an invariant of the buckets and
  touches nothing else that the handlers see.
\<close>

locale bucket_backend =
  fixes eval :: limiter_backend
    and inv :: "limits \<Rightarrow> (string \<times> bucket) list \<Rightarrow> bool"
  assumes eval_inv: "limits_ok lm \<Longrightarrow> inv lm (w_buckets w) \<Longrightarrow> inv lm (w_buckets (snd (eval ctx key lm now w)))"
    and eval_frame: "w_sent (snd (eval ctx key lm now w)) = w_sent w"
      "w_keys (snd (eval ctx key lm now w)) = w_keys w" "w_log (snd (eval ctx key lm now w)) = w_log w"
begin

lemma handler_inv:
  assumes "limits_ok lm" "lm = \<lparr>lim_capacity = cfg_capacity cfg, lim_rate = cfg_rate cfg,
      lim_period = duration_millis (cfg_period cfg)\<rparr>"
    and "\<And>rw r w. inv lm (w_buckets w) \<Longrightarrow> inv lm (w_buckets (snd (next rw r w)))" "inv lm (w_buckets w)"
  shows "inv lm (w_buckets (snd (RateLimiter_Handler e eval cfg next rw r w)))"
proof -
  obtain now w1 where t: "time_now e w = (now, w1)" by fastforce
  then have "w_buckets w1 = w_buckets w" by (auto simp: time_now_def)
  then have "inv lm (w_buckets (snd (eval (rq_ctx r) (''ratelimit:'' @ hashIdentifier (getClientIdentifier r)) lm
      (nanos now div 1000000) w1)))"
    using eval_inv [OF assms(1)] assms(4) by simp
  with assms(2,3) t show ?thesis
    by (auto simp: RateLimiter_Handler_def Let_def split: prod.split sum.split)
qed

lemma refused_quiet:
  assumes "sent_status (fst (RateLimiter_Handler e eval cfg next rw r w)) = 429" "rw_sent rw = None"
    and "\<And>rw r w. rw_sent rw = None \<Longrightarrow> sent_status (fst (next rw r w)) \<noteq> 429"
  shows "w_sent (snd (RateLimiter_Handler e eval cfg next rw r w)) = w_sent w"
    "w_keys (snd (RateLimiter_Handler e eval cfg next rw r w)) = w_keys w"
proof -
  obtain now w1 where t: "time_now e w = (now, w1)" by fastforce
  then have w1: "w_sent w1 = w_sent w" "w_keys w1 = w_keys w" by (auto simp: time_now_def)
  obtain q w2 where q: "eval (rq_ctx r) (''ratelimit:'' @ hashIdentifier (getClientIdentifier r))
      \<lparr>lim_capacity = cfg_capacity cfg, lim_rate = cfg_rate cfg, lim_period = duration_millis (cfg_period cfg)\<rparr>
      (nanos now div 1000000) w1 = (q, w2)" by fastforce
  have w2: "w_sent w2 = w_sent w" "w_keys w2 = w_keys w"
    using eval_frame(1,2) [of "rq_ctx r" "''ratelimit:'' @ hashIdentifier (getClientIdentifier r)" _ _ w1] q w1
    by (metis snd_conv)+
  from assms t q w2 show "w_sent (snd (RateLimiter_Handler e eval cfg next rw r w)) = w_sent w"
    "w_keys (snd (RateLimiter_Handler e eval cfg next rw r w)) = w_keys w"
    by (auto simp: RateLimiter_Handler_def Let_def split: sum.splits prod.splits if_splits)
qed

end

lemma Eval_buckets:
  "w_buckets (snd (EvalTokenBucket e ctx key lm now w)) =
     (case valkey_fault e (w_valkey w) of
        Some (False, _) \<Rightarrow> w_buckets w
      | _ \<Rightarrow> snd (token_bucket_script lm now (valkey_clock e (w_valkey w)) key (w_buckets w)))"
  by (auto simp: EvalTokenBucket_def valkey_do_def Let_def split: prod.split option.split bool.split)

lemma Eval_frame:
  "w_sent (snd (EvalTokenBucket e ctx key lm now w)) = w_sent w"
  "w_keys (snd (EvalTokenBucket e ctx key lm now w)) = w_keys w"
  "w_log (snd (EvalTokenBucket e ctx key lm now w)) = w_log w"
  by (auto simp: EvalTokenBucket_def valkey_do_def Let_def split: prod.split option.split)

interpretation limiter: bucket_backend "EvalTokenBucket ev" table_ok for ev :: env
proof
  fix lm ctx key now and w :: world
  assume "limits_ok lm" "table_ok lm (w_buckets w)"
  then show "table_ok lm (w_buckets (snd (EvalTokenBucket ev ctx key lm now w)))"
    using script_ok by (auto simp: Eval_buckets split: option.split bool.split)
qed (simp_all add: Eval_frame)

subsection \<open>A burst of requests\<close>

text \<open>The refill depends on the time of the last update only, and happens at most once per reading.\<close>

lemma refill_settled:
  assumes "refill lm now b = (t, u)"
  shows "refill lm now (Some \<lparr>tokens = t', last_update = u, expiry = x\<rparr>) = (t', u)"
proof (cases b)
  case None
  with assms have "u = int_float now" by (simp add: refill_def)
  then show ?thesis by (simp add: refill_def round_float_def float64_def)
next
  case (Some b')
  show ?thesis
  proof (cases "u = int_float now")
    case True
    then show ?thesis by (simp add: refill_def round_float_def float64_def)
  next
    case False
    with assms Some show ?thesis
      by (auto simp: refill_def Let_def split: float_val.splits if_splits)
  qed
qed

lemma map_of_put: "map_of (put_bucket key b bs) key = Some b"
  by (simp add: put_bucket_def)

lemma script_burst:
  assumes lm: "0 \<le> m" "m \<le> lim_capacity lm" "lim_capacity lm \<le> 10 ^ 12"
    and ttl: "bucket_ttl lm = Fin (of_int s)" "0 < s" "s * 1000 + v + 1000 \<le> 2 ^ 63 - 1" "0 \<le> v"
    and v: "v \<le> vnow" "vnow < v + 1000"
    and start: "refill lm now (live_bucket vnow bs key) = (of_int m, u)"
  shows "if m = 0 then token_bucket_script lm now vnow key bs = (Some (0, 0), bs)
     else \<exists>x. token_bucket_script lm now vnow key bs =
       (Some (1, 1000 * (m - 1)), put_bucket key \<lparr>tokens = of_int (m - 1), last_update = u, expiry = Some x\<rparr> bs) \<and>
       v + 1000 \<le> x"
proof (cases "m = 0")
  case True
  have "lua_val 0 = 0" using lua_val_int [of 0] by simp
  with True start show ?thesis by (simp add: token_bucket_script_def)
next
  case False
  have e1: "lua_val (of_int m - 1) = of_int (m - 1)"
    using lua_val_int [of "m - 1"] False lm by simp
  have e2: "lua_val (of_int (m - 1) * 1000) = of_int ((m - 1) * 1000)"
    using lua_val_int [of "(m - 1) * 1000"] False lm by simp
  have "(1 :: rat) \<le> of_int m" using False lm(1) by simp
  moreover have "\<not> 2 ^ 63 - 1 - vnow < s * 1000" "\<not> s * 1000 < - (2 ^ 63)" using ttl v by auto
  ultimately show ?thesis using False start ttl(1,2) v
    by (auto simp: token_bucket_script_def expire_bucket_def Let_def e1 e2 simp del: of_int_diff of_int_mult)
qed

fun burst ::
  "limiter_backend \<Rightarrow> go_ctx \<Rightarrow> string \<Rightarrow> limits \<Rightarrow> int \<Rightarrow> nat \<Rightarrow> world \<Rightarrow> (go_error + bool \<times> int) list" where
  "burst backend ctx key lm now 0 w = []"
| "burst backend ctx key lm now (Suc n) w =
     fst (backend ctx key lm now w) # burst backend ctx key lm now n (snd (backend ctx key lm now w))"

lemma Eval_healthy:
  assumes "\<forall>k. valkey_fault e k = None"
    and "token_bucket_script lm now (valkey_clock e (w_valkey w)) key (w_buckets w) = (Some (a, q), bs)"
  shows "EvalTokenBucket e ctx key lm now w =
     (Inr (a = 1, q), w\<lparr>w_valkey := Suc (w_valkey w), w_buckets := bs\<rparr>)"
  using assms by (simp add: EvalTokenBucket_def valkey_do_def)

lemma burst_settled:
  assumes lm: "0 \<le> m" "m \<le> lim_capacity lm" "lim_capacity lm \<le> 10 ^ 12"
    and ttl: "bucket_ttl lm = Fin (of_int s)" "0 < s" "s * 1000 + v + 1000 \<le> 2 ^ 63 - 1" "0 \<le> v"
    and v: "\<forall>k. v \<le> valkey_clock e k \<and> valkey_clock e k < v + 1000"
    and ok: "\<forall>k. valkey_fault e k = None"
    and start: "\<forall>k. \<exists>u. refill lm now (live_bucket (valkey_clock e k) (w_buckets w) key) = (of_int m, u)"
  shows "burst (EvalTokenBucket e) ctx key lm now n w =
     map (\<lambda>i. if int i < m then Inr (True, 1000 * (m - 1 - int i)) else Inr (False, 0)) [0..<n]"
  using lm(1,2) start
proof (induction n arbitrary: m w)
  case (Suc n)
  let ?v = "valkey_clock e (w_valkey w)"
  obtain u where u: "refill lm now (live_bucket ?v (w_buckets w) key) = (of_int m, u)" using Suc.prems(3) by blast
  have vb: "v \<le> ?v" "?v < v + 1000" using v by blast+
  note sb = script_burst [OF Suc.prems(1,2) lm(3) ttl vb u]
  have step: "map f [0..<Suc n] = f 0 # map (\<lambda>i. f (Suc i)) [0..<n]" for f :: "nat \<Rightarrow> go_error + bool \<times> int"
    by (simp add: upt_conv_Cons map_Suc_upt [symmetric] del: upt_Suc)
  show ?case
  proof (cases "m = 0")
    case True
    with sb have "EvalTokenBucket e ctx key lm now w =
        (Inr (False, 0), w\<lparr>w_valkey := Suc (w_valkey w), w_buckets := w_buckets w\<rparr>)"
      using Eval_healthy [OF ok, of lm now w key 0 0 "w_buckets w" ctx] by simp
    with Suc.IH [of m "w\<lparr>w_valkey := Suc (w_valkey w), w_buckets := w_buckets w\<rparr>"] Suc.prems True show ?thesis
      unfolding step by simp
  next
    case False
    with sb obtain x where x: "v + 1000 \<le> x" and
      sc: "token_bucket_script lm now ?v key (w_buckets w) = (Some (1, 1000 * (m - 1)),
        put_bucket key \<lparr>tokens = of_int (m - 1), last_update = u, expiry = Some x\<rparr> (w_buckets w))" by auto
    let ?b = "\<lparr>tokens = of_int (m - 1), last_update = u, expiry = Some x\<rparr> :: bucket"
    let ?w = "w\<lparr>w_valkey := Suc (w_valkey w), w_buckets := put_bucket key ?b (w_buckets w)\<rparr>"
    have ev: "EvalTokenBucket e ctx key lm now w = (Inr (True, 1000 * (m - 1)), ?w)"
      using Eval_healthy [OF ok sc, of ctx] by simp
    have live: "live_bucket (valkey_clock e k) (w_buckets ?w) key = Some ?b" for k
    proof -
      have "valkey_clock e k < x" using v x by (metis less_le_trans)
      then show ?thesis by (simp add: live_bucket_def map_of_put)
    qed
    have "\<forall>k. \<exists>u. refill lm now (live_bucket (valkey_clock e k) (w_buckets ?w) key) = (of_int (m - 1), u)"
      unfolding live using refill_settled [OF u] by blast
    from Suc.IH [OF _ _ this] Suc.prems(1,2) False ev show ?thesis unfolding step by (simp add: algebra_simps)
  qed
qed simp

subsection \<open>Properties\<close>

lemma script_miss: "map_of bs key = None \<Longrightarrow> live_bucket v bs key = None"
  by (simp add: live_bucket_def)

text \<open>
  C24 (limiter_burst): of \<open>n\<close> requests of a client without a bucket that reach a healthy Valkey
  with the same reading of the gateway's clock and within one second, exactly the first
  \<open>capacity\<close> are let through, each told how many thousandths of a token are left, and the
  rest are refused.
\<close>

theorem limiter_burst:
  assumes "1 \<le> lim_capacity lm" "lim_capacity lm \<le> 10 ^ 12"
    and "bucket_ttl lm = Fin (of_int s)" "0 < s" "s * 1000 + v + 1000 \<le> 2 ^ 63 - 1" "0 \<le> v"
    and "\<forall>k. v \<le> valkey_clock e k \<and> valkey_clock e k < v + 1000"
    and "\<forall>k. valkey_fault e k = None" "map_of (w_buckets w) key = None"
  shows "burst (EvalTokenBucket e) ctx key lm now n w =
     map (\<lambda>i. if int i < lim_capacity lm then Inr (True, 1000 * (lim_capacity lm - 1 - int i)) else Inr (False, 0))
       [0..<n]"
proof (rule burst_settled [OF _ order_refl assms(2-8)])
  show "0 \<le> lim_capacity lm" using assms(1) by simp
  have "int_float (lim_capacity lm) = of_int (lim_capacity lm)" 
  proof (rule int_float_id)
    show "0 \<le> lim_capacity lm" using assms(1) by simp
    have "(10 :: int) ^ 12 \<le> 2 ^ 52" by simp
    with assms(2) show "lim_capacity lm \<le> 2 ^ 52" by (rule order_trans)
  qed
  then show "\<forall>k. \<exists>u. refill lm now (live_bucket (valkey_clock e k) (w_buckets w) key) = (of_int (lim_capacity lm), u)"
    using script_miss [OF assms(9)] by (simp add: refill_def)
qed

definition sample_limits :: limits where
  "sample_limits = \<lparr>lim_capacity = 2, lim_rate = 1, lim_period = 1000\<rparr>"

lemma sample_ttl: "bucket_ttl sample_limits = Fin (of_int 4)"
proof -
  have r: "round_float 2 = Fin 2" "round_float 1 = Fin 1" "round_float 4 = Fin 4"
    using round_float_int [of 2] round_float_int [of 1] round_float_int [of 4] by simp_all
  have "int_float 2 = 2" "int_float 1 = 1" "int_float 1000 = 1000"
    using int_float_id [of 2] int_float_id [of 1] int_float_id [of 1000] by simp_all
  then show ?thesis by (simp add: bucket_ttl_def sample_limits_def div_float_def lua_mul_def r)
qed

theorem limiter_burst_witness:
  "burst (EvalTokenBucket sample_env) background ''k'' sample_limits 1700000000000 3 world_init =
     [Inr (True, 1000), Inr (True, 0), Inr (False, 0)]"
proof -
  have "burst (EvalTokenBucket sample_env) background ''k'' sample_limits 1700000000000 3 world_init =
     map (\<lambda>i. if int i < lim_capacity sample_limits
       then Inr (True, 1000 * (lim_capacity sample_limits - 1 - int i)) else Inr (False, 0)) [0..<3]"
    by (rule limiter_burst [OF _ _ sample_ttl, where v = 1700000000000])
       (simp_all add: sample_limits_def sample_env_def world_init_def)
  then show ?thesis by (simp add: sample_limits_def numeral_3_eq_3)
qed

text \<open>
  C23 (bucket_bounds): whatever requests come at whatever times, in whatever order, and however
  Valkey fails, no bucket ever holds less than nothing or more than the capacity, rounding
  included.
\<close>

fun eval_all :: "limiter_backend \<Rightarrow> limits \<Rightarrow> (go_ctx \<times> string \<times> int) list \<Rightarrow> world \<Rightarrow> world" where
  "eval_all backend lm [] w = w"
| "eval_all backend lm ((ctx, key, now) # cs) w = eval_all backend lm cs (snd (backend ctx key lm now w))"

lemma eval_all_ok:
  "limits_ok lm \<Longrightarrow> table_ok lm (w_buckets w) \<Longrightarrow> table_ok lm (w_buckets (eval_all (EvalTokenBucket e) lm cs w))"
proof (induction cs arbitrary: w)
  case (Cons c cs)
  obtain ctx key now where c: "c = (ctx, key, now)" by (cases c)
  from limiter.eval_inv [where ev = e, OF Cons.prems] Cons.IH Cons.prems(1) show ?case by (simp add: c)
qed simp

theorem bucket_bounds:
  assumes "1 \<le> lim_capacity lm" "lim_capacity lm \<le> 2 ^ 52" "w_buckets w = []"
    and "(key, b) \<in> set (w_buckets (eval_all (EvalTokenBucket e) lm calls w))"
  shows "0 \<le> tokens b \<and> tokens b \<le> of_int (lim_capacity lm)"
proof -
  have "table_ok lm (w_buckets (eval_all (EvalTokenBucket e) lm calls w))"
    using assms(1-3) by (intro eval_all_ok) (simp_all add: limits_ok_def table_ok_def)
  with assms(4) show ?thesis by (auto simp: table_ok_def list_all_iff bucket_ok_def)
qed

theorem bucket_bounds_witness:
  "\<exists>b. (''k'', b) \<in> set (w_buckets (eval_all (EvalTokenBucket sample_env) sample_limits
       [(background, ''k'', 1700000000000)] world_init)) \<and> 0 \<le> tokens b \<and> tokens b \<le> 2"
proof -
  have "int_float 2 = of_int 2" by (rule int_float_id) simp_all
  then have "refill sample_limits 1700000000000 (live_bucket 1700000000000 [] ''k'') = (of_int 2, int_float 1700000000000)"
    by (simp add: refill_def live_bucket_def sample_limits_def)
  from script_burst [OF _ _ _ sample_ttl _ _ _ _ _ this, of 1700000000000]
  obtain x where "snd (token_bucket_script sample_limits 1700000000000 1700000000000 ''k'' []) =
      put_bucket ''k'' \<lparr>tokens = of_int (2 - 1), last_update = int_float 1700000000000, expiry = Some x\<rparr> []"
    by (auto simp: sample_limits_def)
  then have "map_of (w_buckets (eval_all (EvalTokenBucket sample_env) sample_limits
      [(background, ''k'', 1700000000000)] world_init)) ''k'' \<noteq> None"
    by (simp add: Eval_buckets sample_env_def world_init_def map_of_put)
  then obtain b where "(''k'', b) \<in> set (w_buckets (eval_all (EvalTokenBucket sample_env) sample_limits
      [(background, ''k'', 1700000000000)] world_init))"
    by (meson map_of_SomeD not_None_eq)
  note b = this
  from bucket_bounds [OF _ _ _ b] have "0 \<le> tokens b \<and> tokens b \<le> 2"
    by (simp add: sample_limits_def world_init_def)
  with b show ?thesis by blast
qed

end
