(* ===== verification/BankHandler.thy ===== *)
theory BankHandler
  imports BankService PolicyMiddleware
begin

text \<open>
  \<open>internal/banking/handler/banking_handler.go\<close>: the HTTP side of the banking service at the
  edge and in the intranet, and the chains of middlewares both are served through.
\<close>

subsection \<open>Handlers\<close>

type_synonym RegisterDeviceRequest = device_request

definition extractSubject :: "request \<Rightarrow> go_error + string" where
  "extractSubject r =
     (case ctx_claims (rq_ctx r) of
        Some (Some subj) \<Rightarrow> Inr subj
      | _ \<Rightarrow> Inl (ErrNew ''unauthorized: missing token claims in request context''))"

text \<open>The zero \<open>time.Time\<close>, in nanoseconds from 1970.\<close>

definition zero_instant :: instant where
  "zero_instant = Instant (- 62135596800000000000)"

definition bank_writeError :: "nat \<Rightarrow> string \<Rightarrow> writer \<Rightarrow> writer" where
  "bank_writeError code msg rw =
     write_json (json_map [(''error'', JStr msg)])
       (write_header code (set_header ''Content-Type'' ''application/json'' rw))"

text \<open>It does what the function of that name of the login handlers does.\<close>

lemma bank_writeError_eq [simp]: "bank_writeError = writeError"
  by (simp add: fun_eq_iff bank_writeError_def writeError_def)

definition RegisterDevice :: "env \<Rightarrow> key_repo \<Rightarrow> attestation_port \<Rightarrow> handler" where
  "RegisterDevice e repo verify rw r w =
     (case extractSubject r of
        Inl err \<Rightarrow> (bank_writeError 401 (error_string err) rw, w)
      | Inr uid \<Rightarrow>
     (case Option.bind (decode_body (rq_body r)) device_of_json of
        None \<Rightarrow> (bank_writeError 400 ''Invalid request body'' rw, w)
      | Some req \<Rightarrow>
     if dr_id req = [] \<or> dr_pem req = [] \<or> dr_algorithm req = [] \<or> dr_platform req = [] \<or> dr_token req = []
     then (bank_writeError 400 ''Missing required parameters'' rw, w)
     else
     (let key = \<lparr>key_id = dr_id req, key_user = [], public_key_pem = dr_pem req,
                 algorithm = dr_algorithm req, registered_at = zero_instant\<rparr>
      in case RegisterDeviceKey e repo verify (rq_ctx r) uid key (dr_platform req) (dr_token req) w of
           (Some err, w1) \<Rightarrow>
             (bank_writeError 403 (error_string err) rw,
              ErrorContext (rq_ctx r) ''device registration failed'' [(''error'', AErr err)] w1)
         | (None, w1) \<Rightarrow>
             (write_json (json_map [(''status'', JStr ''registered''), (''key_id'', JStr (dr_id req)),
                                    (''user_id'', JStr uid)])
                (set_header ''Content-Type'' ''application/json'' rw), w1))))"

definition InitiateTransfer_handler :: "env \<Rightarrow> bank_config \<Rightarrow> handler" where
  "InitiateTransfer_handler e cfg rw r w =
     (case extractSubject r of
        Inl err \<Rightarrow> (bank_writeError 401 (error_string err) rw, w)
      | Inr uid \<Rightarrow>
     (case Option.bind (decode_body (rq_body r)) payload_of_json of
        None \<Rightarrow> (bank_writeError 400 ''Invalid request body'' rw, w)
      | Some p \<Rightarrow>
     (case InitiateTransfer e cfg (rq_ctx r) uid p w of
        (Some err, w1) \<Rightarrow>
          (bank_writeError 500 (error_string err) rw,
           ErrorContext (rq_ctx r) ''transfer initiation rejected at Edge'' [(''error'', AErr err)] w1)
      | (None, w1) \<Rightarrow>
          (write_json (json_map [(''status'', JStr ''initiated''), (''tx_id'', JStr (tx_id p))])
             (set_header ''Content-Type'' ''application/json'' rw), w1))))"

definition ExecutePrivateTransfer :: "env \<Rightarrow> bank_config \<Rightarrow> 'k crypto_lib \<Rightarrow> key_repo \<Rightarrow> handler" where
  "ExecutePrivateTransfer e cfg lib repo rw r w =
     (let auth = header_get (rq_headers r) ''Authorization'' in
      if auth = [] \<or> \<not> has_prefix auth ''Bearer ''
      then (bank_writeError 401 ''Missing or invalid Authorization header'' rw, w)
      else
     (let token = trim_prefix auth ''Bearer '' in
      case Option.bind (decode_body (rq_body r)) payload_of_json of
        None \<Rightarrow> (bank_writeError 400 ''Invalid request body'' rw, w)
      | Some p \<Rightarrow>
     (case ExecuteIntranetTransfer e cfg lib repo (rq_ctx r) token p w of
        (Some err, w1) \<Rightarrow>
          (bank_writeError 401 (error_string err) rw,
           ErrorContext (rq_ctx r) ''intranet ledger execution rejected'' [(''error'', AErr err)] w1)
      | (None, w1) \<Rightarrow>
          (write_json (json_map [(''status'', JStr ''success''), (''tx_id'', JStr (tx_id p))])
             (set_header ''Content-Type'' ''application/json'' rw), w1))))"

subsection \<open>Routes\<close>

text \<open>
  The policy middleware is optional: \<open>None\<close> when none was registered. \<open>mux\<close> is the chi
  router, \<open>jwt\<close> the JWT middleware.
\<close>

definition WithOPAMiddleware :: "(handler \<Rightarrow> handler) option \<Rightarrow> handler \<Rightarrow> handler" where
  "WithOPAMiddleware policy h = (case policy of Some mw \<Rightarrow> mw h | None \<Rightarrow> h)"

definition EdgeRoutes ::
  "env \<Rightarrow> bank_config \<Rightarrow> key_repo \<Rightarrow> attestation_port \<Rightarrow> (route list \<Rightarrow> handler) \<Rightarrow>
   (handler \<Rightarrow> handler) option \<Rightarrow> (handler \<Rightarrow> handler) \<Rightarrow> handler" where
  "EdgeRoutes e cfg repo verify mux policy jwt =
     MetricsMiddleware e (SchemaValidationMiddleware e (WithOPAMiddleware policy
       (mux [(''POST'', ''/auth/register-device'', jwt (RegisterDevice e repo verify)),
             (''POST'', ''/transfer/initiate'', jwt (InitiateTransfer_handler e cfg))])))"

definition PrivateRoutes ::
  "env \<Rightarrow> bank_config \<Rightarrow> 'k crypto_lib \<Rightarrow> key_repo \<Rightarrow> (route list \<Rightarrow> handler) \<Rightarrow>
   (handler \<Rightarrow> handler) option \<Rightarrow> handler" where
  "PrivateRoutes e cfg lib repo mux policy =
     MetricsMiddleware e (SchemaValidationMiddleware e (WithOPAMiddleware policy
       (mux [(''POST'', ''/private/transfers'', ExecutePrivateTransfer e cfg lib repo)])))"

lemma bank_handlers_orderly:
  "orderly (RegisterDevice e repo verify)" "orderly (InitiateTransfer_handler e cfg)"
  "orderly (ExecutePrivateTransfer e cfg lib repo)"
proof -
  show "orderly (RegisterDevice e repo verify)"
    by (auto simp: orderly_def RegisterDevice_def Let_def split: sum.split option.split prod.split)
  show "orderly (InitiateTransfer_handler e cfg)"
    by (auto simp: orderly_def InitiateTransfer_handler_def split: sum.split option.split prod.split)
  show "orderly (ExecutePrivateTransfer e cfg lib repo)"
    by (auto simp: orderly_def ExecutePrivateTransfer_def Let_def split: option.split prod.split)
qed


subsection \<open>Chains\<close>

lemma route_edge:
  "route_for [(''POST'', ''/auth/register-device'', h1), (''POST'', ''/transfer/initiate'', h2)]
     (r\<lparr>rq_body := b\<rparr>) =
     (if rq_method r \<noteq> ''POST'' then None
      else if rq_path r = ''/auth/register-device'' then Some h1
      else if rq_path r = ''/transfer/initiate'' then Some h2 else None)"
  by (simp add: route_for_def)

lemma mux_route:
  assumes "mux_ok mux" "rq_raw_path r = []"
  shows "case route_for routes r of Some h \<Rightarrow> mux routes rw r w = h rw r w | None \<Rightarrow> snd (mux routes rw r w) = w"
    and "route_for routes r = None \<Longrightarrow> rw_sent rw = None \<Longrightarrow> sent_status (fst (mux routes rw r w)) \<noteq> 200"
proof -
  have "case route_for routes r of Some h \<Rightarrow> mux routes rw r w = h rw r w
      | None \<Rightarrow> snd (mux routes rw r w) = w \<and>
          (rw_sent rw = None \<longrightarrow> sent_status (fst (mux routes rw r w)) \<in> {404, 405})"
    using assms unfolding mux_ok_def by blast
  then show "case route_for routes r of Some h \<Rightarrow> mux routes rw r w = h rw r w | None \<Rightarrow> snd (mux routes rw r w) = w"
    and "route_for routes r = None \<Longrightarrow> rw_sent rw = None \<Longrightarrow> sent_status (fst (mux routes rw r w)) \<noteq> 200"
    by (auto split: option.splits)
qed

text \<open>What the metrics middleware leaves as the handler did.\<close>

lemma Metrics_world:
  "w_sent (snd (MetricsMiddleware e h rw r w)) = w_sent (snd (h (push_cell rw) r (snd (time_now e w))))"
  "w_keys (snd (MetricsMiddleware e h rw r w)) = w_keys (snd (h (push_cell rw) r (snd (time_now e w))))"
  by (simp_all add: MetricsMiddleware_snd Let_def split: prod.split)

lemma Metrics_status:
  "sent_status (fst (MetricsMiddleware e h rw r w)) = sent_status (fst (h (push_cell rw) r (snd (time_now e w))))"
  by (simp add: MetricsMiddleware_fst pop_cell_def sent_status_def)

lemma push_cell_sent [simp]: "rw_sent (push_cell rw) = rw_sent rw"
  by (simp add: push_cell_def)

text \<open>A handler that lets a request to the network out leaves one of the two behind.\<close>

lemma decode_body_json: "body_json r = Some j \<Longrightarrow> decode_body (rq_body r) = Some j"
  by (auto simp: body_json_def decode_body_def json_unmarshal_def json_decode_def
      split: body.splits option.splits if_splits)

lemma RegisterDevice_sent:
  assumes "\<And>ctx p t v. w_sent (snd (verify ctx p t v)) = w_sent v"
    and "\<And>ctx k v. w_sent (snd (keys_save repo ctx k v)) = w_sent v"
  shows "w_sent (snd (RegisterDevice e repo verify rw r w)) = w_sent w"
proof -
  have "w_sent (snd (RegisterDeviceKey e repo verify ctx uid key p t v)) = w_sent v" for ctx uid key p t v
  proof -
    obtain q v1 where v1: "verify ctx p t (InfoContext ctx ''registering device key with attestation''
        [(''user_id'', AStr uid), (''key_id'', AStr (key_id key))] v) = (q, v1)" by fastforce
    then have "w_sent v1 = w_sent v" using assms(1) by (metis snd_conv log_at_simps(4))
    moreover obtain now v2 where v2: "time_now e v1 = (now, v2)" by fastforce
    moreover from v2 have "w_sent v2 = w_sent v1" by (auto simp: time_now_def)
    moreover obtain q' v3 where v3: "keys_save repo ctx (key\<lparr>key_user := uid, registered_at := now\<rparr>) v2 = (q', v3)"
      by fastforce
    moreover from v3 have "w_sent v3 = w_sent v2" using assms(2) by (metis snd_conv)
    ultimately show ?thesis using v1
      by (simp add: RegisterDeviceKey_def Let_def split: option.split)
  qed
  then show ?thesis
    by (auto simp: RegisterDevice_def Let_def split: sum.split option.split prod.split) (metis snd_conv)+
qed

lemma InitiateTransfer_handler_sent:
  assumes "w_sent (snd (InitiateTransfer_handler e cfg rw r w)) \<noteq> w_sent w"
  obtains uid p where "extractSubject r = Inr uid" "Option.bind (decode_body (rq_body r)) payload_of_json = Some p"
    "w_sent (snd (InitiateTransfer_handler e cfg rw r w)) = w_sent (snd (InitiateTransfer e cfg (rq_ctx r) uid p w))"
  using assms
  by (auto simp: InitiateTransfer_handler_def split: sum.splits option.splits prod.splits)

end
