(* ===== verification/Tracer.thy ===== *)
theory Tracer
  imports World
begin

text \<open>
  \<open>internal/adapters/telemetry/otel_tracer.go\<close>: the start of distributed tracing. The exporter
  and the resource are OpenTelemetry's, parameters that may fail; the provider and the registries
  the program fills are records.
\<close>

datatype propagator = TraceContext | Baggage

datatype sampler = AlwaysSample

record ('x, 'r) otel_lib =
  new_exporter :: "string \<Rightarrow> bool \<Rightarrow> go_error + 'x"  \<comment> \<open>endpoint, without TLS\<close>
  new_resource :: "(string \<times> string) list \<Rightarrow> go_error + 'r"

record ('x, 'r) tracer_provider =
  tp_sampler :: sampler
  tp_resource :: 'r
  tp_exporter :: 'x

text \<open>The global registries of OpenTelemetry.\<close>

record ('x, 'r) otel_state =
  global_provider :: "('x, 'r) tracer_provider option"
  global_propagators :: "propagator list"

definition InitTracer ::
  "('x, 'r) otel_lib \<Rightarrow> go_ctx \<Rightarrow> string \<Rightarrow> string \<Rightarrow> world \<Rightarrow> ('x, 'r) otel_state \<Rightarrow>
   (go_error + ('x, 'r) tracer_provider) \<times> world \<times> ('x, 'r) otel_state" where
  "InitTracer lib ctx service url w g =
     (let w1 = InfoContext ctx ''initializing OpenTelemetry distributed tracer over HTTP''
                 [(''service_name'', AStr service), (''collector_url'', AStr url)] w;
          endpoint = (if url = [] then ''localhost:4318'' else url)
      in case new_exporter lib endpoint True of
           Inl err \<Rightarrow> (Inl (ErrWrap ''failed to create OTLP HTTP trace exporter: '' err []), w1, g)
         | Inr exporter \<Rightarrow>
     (case new_resource lib [(''service.name'', service), (''service.version'', ''1.0.0'')] of
        Inl err \<Rightarrow> (Inl (ErrWrap ''failed to create OTel resource attributes: '' err []), w1, g)
      | Inr res \<Rightarrow>
          (let tp = \<lparr>tp_sampler = AlwaysSample, tp_resource = res, tp_exporter = exporter\<rparr>
           in (Inr tp, InfoContext ctx ''OpenTelemetry distributed tracer initialized successfully'' [] w1,
               g\<lparr>global_provider := Some tp, global_propagators := [TraceContext, Baggage]\<rparr>))))"

text \<open>A start that fails leaves the registries alone; one that succeeds registers what it returns.\<close>

lemma InitTracer_registers:
  assumes "InitTracer lib ctx service url w g = (x, w', g')"
  shows "case x of Inl _ \<Rightarrow> g' = g | Inr tp \<Rightarrow> global_provider g' = Some tp \<and> tp_sampler tp = AlwaysSample"
  using assms by (auto simp: InitTracer_def Let_def split: sum.splits)

lemma InitTracer_default:
  "new_exporter lib ''localhost:4318'' True = Inl err \<Longrightarrow> fst (InitTracer lib ctx service [] w g) =
     Inl (ErrWrap ''failed to create OTLP HTTP trace exporter: '' err [])"
  by (simp add: InitTracer_def Let_def)

text \<open>Nothing but the log of the world changes.\<close>

lemma InitTracer_frame:
  assumes "InitTracer lib ctx service url w g = (x, w', g')"
  shows "w_sent w' = w_sent w" "w_keys w' = w_keys w" "w_sessions w' = w_sessions w"
  using assms by (auto simp: InitTracer_def Let_def split: sum.splits)

end
