(* ===== verification/SessionRefinement.thy ===== *)
theory SessionRefinement
  imports SessionRepo
begin

text \<open>
  The session repository against its abstract specification. A client of the repository may
  think of a partial map from identifiers to sessions, with a counter of statements and one
  of clock readings to name the faults and times of the environment; the rows of the SQL
  table, the order they are in and the log do not show. The calls of
  \<open>sql_session_repository.go\<close> refine the calls on that map, faults and refusals included.
\<close>

subsection \<open>The specification\<close>

datatype session_call =
    SaveCall auth_session
  | GetCall string
  | DeleteCall string
  | SweepCall

datatype outcome = Done | Found auth_session | Missing | Failed

text \<open>The sessions, the statements executed so far and the readings of the clock so far.\<close>

type_synonym spec_state = "(string \<rightharpoonup> auth_session) \<times> nat \<times> nat"

text \<open>
  A statement that changes the map and may be refused. A fault is a failure to the caller,
  whether the statement took effect or not.
\<close>

definition spec_exec ::
  "env \<Rightarrow> nat \<Rightarrow> (string \<rightharpoonup> auth_session) \<Rightarrow> (outcome \<times> (string \<rightharpoonup> auth_session)) option \<Rightarrow>
   outcome \<times> (string \<rightharpoonup> auth_session)" where
  "spec_exec e k m eff =
     (case (db_fault e k, eff) of
        (None, Some (r, m')) \<Rightarrow> (r, m')
      | (Some (True, _), Some (_, m')) \<Rightarrow> (Failed, m')
      | _ \<Rightarrow> (Failed, m))"

definition spec_save :: "env \<Rightarrow> nat \<Rightarrow> (string \<rightharpoonup> auth_session) \<Rightarrow> auth_session \<Rightarrow> outcome \<times> (string \<rightharpoonup> auth_session)" where
  "spec_save e k m s = spec_exec e k m
     (case session_row e k s of
        None \<Rightarrow> None
      | Some r \<Rightarrow>
          if session_id r \<in> dom m \<or> session_state r \<in> session_state ` ran m then None
          else Some (Done, m(session_id r \<mapsto> r)))"

definition spec_get :: "env \<Rightarrow> nat \<Rightarrow> (string \<rightharpoonup> auth_session) \<Rightarrow> string \<Rightarrow> outcome" where
  "spec_get e k m sid =
     (case (db_fault e k, pg_uuid e sid) of
        (None, Some u) \<Rightarrow> (case m u of Some s \<Rightarrow> Found s | None \<Rightarrow> Missing)
      | _ \<Rightarrow> Failed)"

definition spec_delete :: "env \<Rightarrow> nat \<Rightarrow> (string \<rightharpoonup> auth_session) \<Rightarrow> string \<Rightarrow> outcome \<times> (string \<rightharpoonup> auth_session)" where
  "spec_delete e k m sid = spec_exec e k m
     (map_option (\<lambda>u. (if m u = None \<and> \<not> db_rows_err e k then Missing else Done, m(u := None))) (pg_uuid e sid))"

definition spec_sweep :: "env \<Rightarrow> nat \<Rightarrow> instant \<Rightarrow> (string \<rightharpoonup> auth_session) \<Rightarrow> outcome \<times> (string \<rightharpoonup> auth_session)" where
  "spec_sweep e k now m = spec_exec e k m
     (Some (Done, \<lambda>u. case m u of Some s \<Rightarrow> if expires_at s < pg_time e now then None else Some s | None \<Rightarrow> None))"

definition spec_call :: "env \<Rightarrow> session_call \<Rightarrow> spec_state \<Rightarrow> outcome \<times> spec_state" where
  "spec_call e c st =
     (case st of (m, k, n) \<Rightarrow>
        (case c of
           SaveCall s \<Rightarrow> (case spec_save e k m s of (r, m') \<Rightarrow> (r, m', Suc k, n))
         | GetCall sid \<Rightarrow> (spec_get e k m sid, m, Suc k, n)
         | DeleteCall sid \<Rightarrow> (case spec_delete e k m sid of (r, m') \<Rightarrow> (r, m', Suc k, n))
         | SweepCall \<Rightarrow> (case spec_sweep e k (clock e n) m of (r, m') \<Rightarrow> (r, m', Suc k, Suc n))))"

fun spec_run :: "env \<Rightarrow> session_call list \<Rightarrow> spec_state \<Rightarrow> outcome list \<times> spec_state" where
  "spec_run e [] st = ([], st)"
| "spec_run e (c # cs) st =
     (case spec_call e c st of (r, st1) \<Rightarrow> (case spec_run e cs st1 of (rs, st2) \<Rightarrow> (r # rs, st2)))"

subsection \<open>The calls of the program\<close>

text \<open>What a caller can tell of a result: errors apart by \<open>errors.Is\<close> only.\<close>

definition seen :: "go_error option \<Rightarrow> outcome" where
  "seen r = (case r of None \<Rightarrow> Done | Some err \<Rightarrow> if errors_is err ErrSessionNotFound then Missing else Failed)"

definition sql_call :: "env \<Rightarrow> go_ctx \<Rightarrow> session_call \<Rightarrow> world \<Rightarrow> outcome \<times> world" where
  "sql_call e ctx c w =
     (case c of
        SaveCall s \<Rightarrow> (case Save e ctx s w of (r, w') \<Rightarrow> (seen r, w'))
      | GetCall sid \<Rightarrow>
          (case Get e ctx sid w of
             (Inl err, w') \<Rightarrow> (seen (Some err), w')
           | (Inr s, w') \<Rightarrow> (Found s, w'))
      | DeleteCall sid \<Rightarrow> (case Delete e ctx sid w of (r, w') \<Rightarrow> (seen r, w'))
      | SweepCall \<Rightarrow> (case DeleteExpired e ctx w of (r, w') \<Rightarrow> (seen r, w')))"

fun sql_run :: "env \<Rightarrow> (go_ctx \<times> session_call) list \<Rightarrow> world \<Rightarrow> outcome list \<times> world" where
  "sql_run e [] w = ([], w)"
| "sql_run e ((ctx, c) # cs) w =
     (case sql_call e ctx c w of (r, w1) \<Rightarrow> (case sql_run e cs w1 of (rs, w2) \<Rightarrow> (r # rs, w2)))"

text \<open>The abstraction.\<close>

definition sessions_abs :: "world \<Rightarrow> spec_state" where
  "sessions_abs w = (session_of w, w_db w, w_clock w)"

lemma dom_session_of: "dom (session_of w) = session_id ` set (w_sessions w)"
proof -
  have "(find (\<lambda>r. session_id r = u) rs \<noteq> None) = (u \<in> session_id ` set rs)" for u rs
    by (induction rs) auto
  then show ?thesis by (auto simp: session_of_def dom_def)
qed

lemma ran_session_of:
  assumes "distinct (map session_id (w_sessions w))"
  shows "ran (session_of w) = set (w_sessions w)"
proof -
  have "find (\<lambda>r. session_id r = session_id s) rs = Some s" if "s \<in> set rs" "distinct (map session_id rs)" for s rs
    using that by (induction rs) auto
  with assms have "session_of w (session_id s) = Some s" if "s \<in> set (w_sessions w)" for s
    using that by (simp add: session_of_def)
  moreover have "s \<in> set (w_sessions w)" if "session_of w u = Some s" for s u
    using that by (auto simp: session_of_def find_Some_iff)
  ultimately show ?thesis by (auto simp: ran_def)
qed

lemma session_of_filter:
  assumes "distinct (map session_id rs)"
  shows "find (\<lambda>r. session_id r = u) (filter P rs) =
     (case find (\<lambda>r. session_id r = u) rs of Some s \<Rightarrow> if P s then Some s else None | None \<Rightarrow> None)"
  using assms
proof (induction rs)
  case (Cons a rs)
  have "find (\<lambda>r. session_id r = session_id a) rs = None"
    using Cons.prems by (auto simp: find_None_iff image_iff)
  with Cons show ?case by (auto split: option.split)
qed simp

subsection \<open>Statements refine effects\<close>

lemma db_exec_spec:
  assumes "db_exec e st w = (q, w')"
    and "eff = map_option (\<lambda>(n, v). (R n, session_of v)) (st (w_db w) (w\<lparr>w_db := Suc (w_db w)\<rparr>))"
  shows "spec_exec e (w_db w) (session_of w) eff = (case q of Inl err \<Rightarrow> Failed | Inr n \<Rightarrow> R n, session_of w')"
    and "q = Inl err \<Longrightarrow> \<not> errors_is err ErrSessionNotFound"
proof -
  have same: "session_of (w\<lparr>w_db := n\<rparr>) = session_of w" for n by (rule session_of_cong) simp
  show "spec_exec e (w_db w) (session_of w) eff = (case q of Inl err \<Rightarrow> Failed | Inr n \<Rightarrow> R n, session_of w')"
    and "q = Inl err \<Longrightarrow> \<not> errors_is err ErrSessionNotFound"
    using assms
    by (auto simp: db_exec_def spec_exec_def Let_def same ErrSessionNotFound_def
        split: option.splits prod.splits bool.splits if_splits)
qed

lemma insert_session_spec:
  assumes "sessions_wf (w_sessions w)"
  shows "spec_save e k (session_of w) s =
     spec_exec e k (session_of w) (map_option (\<lambda>(n, v). (Done, session_of v)) (insert_session e s k w))"
proof -
  have clash: "(\<exists>x\<in>set (w_sessions w). session_id x = session_id r \<or> session_state x = session_state r) \<longleftrightarrow>
      session_id r \<in> dom (session_of w) \<or> session_state r \<in> session_state ` ran (session_of w)" for r
    using assms unfolding sessions_wf_def dom_session_of by (subst ran_session_of) (auto simp: image_iff, metis+)
  show ?thesis
  proof (cases "session_row e k s")
    case (Some r)
    show ?thesis
    proof (cases "session_id r \<in> dom (session_of w) \<or> session_state r \<in> session_state ` ran (session_of w)")
      case True
      with Some clash [of r] show ?thesis by (simp add: spec_save_def insert_session_def)
    next
      case False
      with Some clash [of r] have ins: "insert_session e s k w = Some (1, w\<lparr>w_sessions := w_sessions w @ [r]\<rparr>)"
        by (simp add: insert_session_def)
      then have "session_of (w\<lparr>w_sessions := w_sessions w @ [r]\<rparr>) = (session_of w)(session_id r \<mapsto> r)"
        by (rule insert_session_rows) (use Some in simp)
      with Some False ins show ?thesis by (simp add: spec_save_def)
    qed
  qed (simp add: spec_save_def insert_session_def)
qed

lemma delete_session_spec:
  "spec_delete e k (session_of w) sid =
     spec_exec e k (session_of w) (map_option (\<lambda>(n, v). (if rows_affected e k n = Some 0 then Missing else Done, session_of v))
       (delete_session e sid k w))"
proof -
  have "session_of w u = None \<longleftrightarrow> filter (\<lambda>r. session_id r = u) (w_sessions w) = []" for u
    by (simp add: session_of_def find_None_iff filter_empty_conv) blast
  then show ?thesis
    using session_of_delete [of e sid k w]
    by (auto simp: spec_delete_def delete_session_def rows_affected_def split: option.split)
qed

lemma sweep_sessions_spec:
  assumes "sessions_wf (w_sessions w)"
  shows "spec_sweep e k now (session_of w) =
     spec_exec e k (session_of w) (map_option (\<lambda>(n, v). (Done, session_of v)) (delete_expired_sessions e now k w))"
proof -
  have "(\<lambda>u. case session_of w u of Some s \<Rightarrow> if expires_at s < pg_time e now then None else Some s | None \<Rightarrow> None) =
      session_of (w\<lparr>w_sessions := filter (\<lambda>r. \<not> expires_at r < pg_time e now) (w_sessions w)\<rparr>)"
    using assms by (auto simp: session_of_def session_of_filter sessions_wf_def fun_eq_iff split: option.split)
  then show ?thesis by (simp add: spec_sweep_def delete_expired_sessions_def)
qed

subsection \<open>Calls refine calls\<close>

lemma db_exec_counts:
  assumes "db_exec e st w = (q, w')" "\<And>k v n v'. st k v = Some (n, v') \<Longrightarrow> w_db v' = w_db v \<and> w_clock v' = w_clock v"
  shows "w_db w' = Suc (w_db w) \<and> w_clock w' = w_clock w"
  using assms(1) by (cases rule: db_exec_cases) (auto dest!: assms(2))

lemma statement_counts:
  "insert_session e s k v = Some (n, v') \<Longrightarrow> w_db v' = w_db v \<and> w_clock v' = w_clock v"
  "delete_session e sid k v = Some (n, v') \<Longrightarrow> w_db v' = w_db v \<and> w_clock v' = w_clock v"
  "delete_expired_sessions e now k v = Some (n, v') \<Longrightarrow> w_db v' = w_db v \<and> w_clock v' = w_clock v"
  by (auto simp: insert_session_def delete_session_def delete_expired_sessions_def split: option.splits if_splits)

lemma seen_simps [simp]:
  "seen None = Done"
  "seen (Some (ErrWrap p ErrSessionNotFound q)) = Missing"
  "\<not> errors_is err ErrSessionNotFound \<Longrightarrow> seen (Some (ErrWrap p err q)) = Failed"
  by (simp_all add: seen_def auth_errors)

lemma save_refines:
  assumes "sessions_wf (w_sessions w)" "Save e ctx s w = (r, w')"
  shows "spec_save e (w_db w) (session_of w) s = (seen r, session_of w')"
    and "w_db w' = Suc (w_db w) \<and> w_clock w' = w_clock w"
proof -
  let ?w1 = "InfoContext ctx ''inserting transient auth session''
    [(''session_id'', AStr (session_id s)), (''state'', AStr (session_state s))] w"
  obtain q w2 where ex: "db_exec e (insert_session e s) ?w1 = (q, w2)" by fastforce
  with assms(2) have r: "w' = w2" "seen r = (case q of Inl err \<Rightarrow> seen (Some (ErrWrap ''failed to save auth session: '' err [])) | Inr n \<Rightarrow> Done)"
    by (auto simp: Save_def split: sum.splits)
  have wf: "sessions_wf (w_sessions (?w1\<lparr>w_db := Suc (w_db ?w1)\<rparr>))" using assms(1) by simp
  have same: "session_of ?w1 = session_of w" "session_of (?w1\<lparr>w_db := n\<rparr>) = session_of w" for n
    by (rule session_of_cong, simp)+
  from db_exec_spec(1) [OF ex refl, where R = "\<lambda>_. Done"] db_exec_spec(2) [OF ex refl] insert_session_spec [OF wf, of e "w_db ?w1" s]
  show "spec_save e (w_db w) (session_of w) s = (seen r, session_of w')"
    by (auto simp: r same split: sum.splits)
  from db_exec_counts [OF ex statement_counts(1)] show "w_db w' = Suc (w_db w) \<and> w_clock w' = w_clock w"
    by (simp add: r)
qed

lemma get_refines:
  assumes "Get e ctx sid w = (r, w')"
  shows "spec_get e (w_db w) (session_of w) sid = (case r of Inl err \<Rightarrow> seen (Some err) | Inr s \<Rightarrow> Found s)"
    and "session_of w' = session_of w" "w_db w' = Suc (w_db w) \<and> w_clock w' = w_clock w"
  using assms
  by (auto simp: Get_def db_get_def select_session_def spec_get_def session_of_def find_filter_hd Let_def
      ErrNoRows_def seen_def auth_errors split: sum.splits option.splits list.splits if_splits)

lemma delete_refines:
  assumes "Delete e ctx sid w = (r, w')"
  shows "spec_delete e (w_db w) (session_of w) sid = (seen r, session_of w')"
    and "w_db w' = Suc (w_db w) \<and> w_clock w' = w_clock w"
proof -
  let ?w1 = "InfoContext ctx ''deleting transient auth session'' [(''session_id'', AStr sid)] w"
  let ?R = "\<lambda>n. if rows_affected e (w_db w) n = Some 0 then Missing else Done"
  obtain q w2 where ex: "db_exec e (delete_session e sid) ?w1 = (q, w2)" by fastforce
  with assms have r: "w' = w2" "seen r = (case q of
      Inl err \<Rightarrow> seen (Some (ErrWrap ''failed to delete auth session: '' err [])) | Inr n \<Rightarrow> ?R n)"
    by (auto simp: Delete_def Let_def split: sum.splits if_splits)
  have same: "session_of ?w1 = session_of w" "session_of (?w1\<lparr>w_db := n\<rparr>) = session_of w" for n
    by (rule session_of_cong, simp)+
  from db_exec_spec(1) [OF ex refl, where R = ?R] db_exec_spec(2) [OF ex refl] delete_session_spec [of e "w_db w" "?w1\<lparr>w_db := Suc (w_db ?w1)\<rparr>" sid]
  show "spec_delete e (w_db w) (session_of w) sid = (seen r, session_of w')"
    by (auto simp: r same split: sum.splits)
  from db_exec_counts [OF ex statement_counts(2)] show "w_db w' = Suc (w_db w) \<and> w_clock w' = w_clock w"
    by (simp add: r)
qed

lemma sweep_refines:
  assumes "sessions_wf (w_sessions w)" "DeleteExpired e ctx w = (r, w')"
  shows "spec_sweep e (w_db w) (clock e (w_clock w)) (session_of w) = (seen r, session_of w')"
    and "w_db w' = Suc (w_db w) \<and> w_clock w' = Suc (w_clock w)"
proof -
  let ?now = "clock e (w_clock w)"
  let ?w1 = "InfoContext ctx ''sweeping expired transient auth sessions'' [(''now'', ATime ?now)] (snd (time_now e w))"
  obtain q w2 where ex: "db_exec e (delete_expired_sessions e ?now) ?w1 = (q, w2)" by fastforce
  have now: "time_now e w = (?now, snd (time_now e w))" by (simp add: time_now_def)
  have r: "session_of w' = session_of w2" "w_db w' = w_db w2" "w_clock w' = w_clock w2" "seen r = (case q of
      Inl err \<Rightarrow> seen (Some (ErrWrap ''failed to delete expired auth sessions: '' err [])) | Inr n \<Rightarrow> Done)"
    using assms(2) ex now
    by (auto simp: DeleteExpired_def Let_def intro: session_of_cong split: sum.splits prod.splits if_splits)
  have wf: "sessions_wf (w_sessions (?w1\<lparr>w_db := Suc (w_db ?w1)\<rparr>))" using assms(1) by simp
  have same: "session_of ?w1 = session_of w" "session_of (?w1\<lparr>w_db := n\<rparr>) = session_of w" for n
    by (rule session_of_cong, simp)+
  from db_exec_spec(1) [OF ex refl, where R = "\<lambda>_. Done"] db_exec_spec(2) [OF ex refl] sweep_sessions_spec [OF wf, of e "w_db ?w1" ?now]
  show "spec_sweep e (w_db w) ?now (session_of w) = (seen r, session_of w')"
    by (auto simp: r same split: sum.splits)
  from db_exec_counts [OF ex statement_counts(3)] show "w_db w' = Suc (w_db w) \<and> w_clock w' = Suc (w_clock w)"
    by (simp add: r)
qed

lemma sql_call_refines:
  assumes "sessions_wf (w_sessions w)" "sql_call e ctx c w = (r, w')"
  shows "spec_call e c (sessions_abs w) = (r, sessions_abs w')" and "sessions_wf (w_sessions w')"
proof -
  show "spec_call e c (sessions_abs w) = (r, sessions_abs w')"
    using assms save_refines [OF assms(1)] get_refines delete_refines sweep_refines [OF assms(1)]
    by (cases c) (auto simp: sql_call_def spec_call_def sessions_abs_def split: prod.splits sum.splits)
  have "session_step e w w'"
    using assms(2) by (auto simp: sql_call_def intro: session_step.intros split: session_call.splits prod.splits sum.splits)
  then show "sessions_wf (w_sessions w')" using assms(1) by (rule session_step_wf)
qed

subsection \<open>Properties\<close>

text \<open>
  C11 (repository_refines): any sequence of calls to the SQL repository, from a table within
  the constraints of its schema, has the outcomes of the same calls on a plain map from
  identifiers to sessions, and the table still stands for the map they leave: an identifier
  or a state that is taken refuses a save, a deleted or swept session is missing, a fault is a
  failure whether or not the statement took effect.
\<close>

theorem repository_refines:
  assumes "sessions_wf (w_sessions w)" "sql_run e cs w = (rs, w')"
  shows "spec_run e (map snd cs) (sessions_abs w) = (rs, sessions_abs w')"
  using assms
proof (induction cs arbitrary: w rs w')
  case (Cons c cs)
  obtain ctx op where c: "c = (ctx, op)" by (cases c)
  obtain r w1 where call: "sql_call e ctx op w = (r, w1)" by fastforce
  obtain rs1 w2 where rest: "sql_run e cs w1 = (rs1, w2)" by fastforce
  from sql_call_refines [OF Cons.prems(1) call] Cons.IH [OF _ rest] Cons.prems(2) show ?case
    by (auto simp: c call rest)
qed simp

text \<open>Saving a session twice, taking it out, and looking again.\<close>

theorem repository_refines_witness:
  "fst (spec_run sample_env [SaveCall sample_session, SaveCall sample_session, DeleteCall (session_id sample_session),
       GetCall (session_id sample_session)] (sessions_abs world_init)) = [Done, Failed, Done, Missing]"
proof -
  let ?cs = "map (Pair background) [SaveCall sample_session, SaveCall sample_session,
     DeleteCall (session_id sample_session), GetCall (session_id sample_session)]"
  have "fst (sql_run sample_env ?cs world_init) = [Done, Failed, Done, Missing]" by code_simp
  then obtain w' where run: "sql_run sample_env ?cs world_init = ([Done, Failed, Done, Missing], w')"
    by (metis prod.collapse)
  have "sessions_wf (w_sessions world_init)" by (simp add: sessions_wf_def world_init_def)
  from repository_refines [OF this run] show ?thesis by simp
qed

end
