(* ===== verification/LimiterFlow.thy ===== *)
theory LimiterFlow
  imports RateLimiter
begin

text \<open>
  The rate limiter of \<open>rate_limiter.go\<close> over time: what the script's refill adds, with the
  rounding of its floats accounted for, so that no client gets more than the configured rate
  and a client that waits gets in again.
\<close>

subsection \<open>Rounding errors\<close>

lemma round_float_near:
  assumes "1 / 2 ^ 100 \<le> x" "x \<le> 2 ^ 200"
  obtains y where "round_float x = Fin y" "\<bar>y - x\<bar> \<le> x / 2 ^ 53"
  using float64_near [OF assms] by (auto simp: round_float_def)

lemma near_bounds:
  fixes x y :: rat
  assumes "\<bar>y - x\<bar> \<le> x / 2 ^ 53"
  shows "x * (1 - 1 / 2 ^ 53) \<le> y" "y \<le> x * (1 + 1 / 2 ^ 53)"
  using assms unfolding abs_le_iff right_diff_distrib distrib_left by simp_all

lemma round_float_within:
  assumes "lo \<le> x" "x \<le> hi" "1 / 2 ^ 100 \<le> lo" "hi \<le> 2 ^ 200"
  obtains y where "round_float x = Fin y" "lo / 2 \<le> y" "y \<le> 2 * hi" "x * (1 - 1 / 2 ^ 53) \<le> y"
proof -
  have x: "1 / 2 ^ 100 \<le> x" "x \<le> 2 ^ 200" using assms by linarith+
  then have "0 < x" using less_le_trans [OF _ x(1)] by simp
  obtain y where y: "round_float x = Fin y" "\<bar>y - x\<bar> \<le> x / 2 ^ 53" using round_float_near [OF x] .
  from \<open>0 < x\<close> have "x / 2 ^ 53 \<le> x / 2" by (simp add: divide_simps)
  with y(2) have "x / 2 \<le> y" "y \<le> 2 * x" unfolding abs_le_iff using \<open>0 < x\<close> by linarith+
  with that [OF y(1)] assms(1,2) near_bounds(1) [OF y(2)] show ?thesis by simp
qed

text \<open>Configurations that the bounds below speak of, all the numbers within them exact.\<close>

definition sensible :: "limits \<Rightarrow> bool" where
  "sensible lm \<longleftrightarrow>
     1 \<le> lim_capacity lm \<and> lim_capacity lm \<le> 2 ^ 20 \<and> 1 \<le> lim_rate lm \<and> lim_rate lm \<le> 2 ^ 20 \<and>
     1 \<le> lim_period lm \<and> lim_period lm \<le> 2 ^ 32"

text \<open>Tokens per millisecond.\<close>

definition flow_rate :: "limits \<Rightarrow> rat" where
  "flow_rate lm = of_int (lim_rate lm) / of_int (lim_period lm)"

lemma sensible_bounds:
  assumes "sensible lm"
  shows "limits_ok lm" "int_float (lim_capacity lm) = of_int (lim_capacity lm)"
    "int_float (lim_rate lm) = of_int (lim_rate lm)" "int_float (lim_period lm) = of_int (lim_period lm)"
    "1 / 2 ^ 32 \<le> flow_rate lm" "flow_rate lm \<le> 2 ^ 20"
    "(1 :: rat) \<le> of_int (lim_capacity lm)" "(of_int (lim_capacity lm) :: rat) \<le> 2 ^ 20"
proof -
  note s = assms [unfolded sensible_def]
  have big: "(2 :: int) ^ 20 \<le> 2 ^ 52" "(2 :: int) ^ 32 \<le> 2 ^ 52" by simp_all
  from s big show "limits_ok lm" "int_float (lim_capacity lm) = of_int (lim_capacity lm)"
    "int_float (lim_rate lm) = of_int (lim_rate lm)" "int_float (lim_period lm) = of_int (lim_period lm)"
    by (auto simp: limits_ok_def intro!: int_float_id)
  have r: "(1 :: rat) \<le> of_int (lim_rate lm)" "(of_int (lim_rate lm) :: rat) \<le> of_int (2 ^ 20)"
    "(1 :: rat) \<le> of_int (lim_period lm)" "(of_int (lim_period lm) :: rat) \<le> of_int (2 ^ 32)"
    using s by (simp_all only: of_int_le_iff of_int_1_le_iff)
  then show "1 / 2 ^ 32 \<le> flow_rate lm" "flow_rate lm \<le> 2 ^ 20"
    unfolding flow_rate_def by (auto intro!: frac_le simp: divide_le_eq intro: order_trans)
  show "(1 :: rat) \<le> of_int (lim_capacity lm)" using s by simp
  have "(of_int (lim_capacity lm) :: rat) \<le> of_int (2 ^ 20)" using s by (simp only: of_int_le_iff)
  then show "(of_int (lim_capacity lm) :: rat) \<le> 2 ^ 20" by simp
qed

text \<open>What a refill over \<open>E\<close> milliseconds multiplies out to.\<close>

lemma refilled_near:
  assumes "sensible lm" "1 \<le> E" "E \<le> 2 ^ 52"
  obtains p z where "div_float (int_float (lim_rate lm)) (int_float (lim_period lm)) = Fin p"
    "lua_mul (Fin (of_int E)) (Fin p) = Fin z"
    "of_int E * flow_rate lm * (1 - 1 / 2 ^ 51) \<le> z" "z \<le> of_int E * flow_rate lm * (1 + 1 / 2 ^ 51)"
proof -
  let ?q = "flow_rate lm" and ?E = "of_int E :: rat"
  note b = sensible_bounds [OF assms(1)]
  have E: "1 \<le> ?E" "?E \<le> 2 ^ 52"
  proof -
    show "1 \<le> ?E" using assms(2) by simp
    have "?E \<le> of_int (2 ^ 52)" using assms(3) by (simp only: of_int_le_iff)
    then show "?E \<le> 2 ^ 52" by simp
  qed
  have q: "1 / 2 ^ 100 \<le> ?q" "?q \<le> 2 ^ 200" "0 < ?q" using b(5,6) by (auto simp: divide_simps)
  obtain p where p: "round_float ?q = Fin p" "\<bar>p - ?q\<bar> \<le> ?q / 2 ^ 53" using round_float_near [OF q(1,2)] .
  have per: "(of_int (lim_period lm) :: rat) \<noteq> 0" using assms(1) by (simp add: sensible_def)
  have div: "div_float (int_float (lim_rate lm)) (int_float (lim_period lm)) = Fin p"
    using p(1) per by (simp add: div_float_def b(3,4) flow_rate_def)
  have plo: "?q * (1 - 1 / 2 ^ 53) \<le> p" and phi: "p \<le> ?q * (1 + 1 / 2 ^ 53)"
    using near_bounds [OF p(2)] by simp_all
  have Ep: "?E * ?q * (1 - 1 / 2 ^ 53) \<le> ?E * p" "?E * p \<le> ?E * ?q * (1 + 1 / 2 ^ 53)"
    using mult_left_mono [OF plo, of ?E] mult_left_mono [OF phi, of ?E] E by (simp_all add: mult.assoc)
  have Eq: "?q \<le> ?E * ?q" "?E * ?q \<le> 2 ^ 52 * 2 ^ 20"
    using mult_right_mono [of 1 ?E ?q] mult_mono [OF E(2) b(6)] E q(3) by simp_all
  define X where "X = ?E * ?q"
  have X: "1 / 2 ^ 32 \<le> X" "X \<le> 2 ^ 52 * 2 ^ 20" "X * (1 - 1 / 2 ^ 53) \<le> ?E * p" "?E * p \<le> X * (1 + 1 / 2 ^ 53)"
    using order_trans [OF b(5) Eq(1)] Ep Eq(2) by (simp_all only: X_def)
  have lo: "1 / 2 ^ 100 \<le> ?E * p" using X(1,3) by simp
  have hi: "?E * p \<le> 2 ^ 200" using X(2,4) by simp
  obtain z where z: "round_float (?E * p) = Fin z" "\<bar>z - ?E * p\<bar> \<le> ?E * p / 2 ^ 53" using round_float_near [OF lo hi] .
  have "lua_mul (Fin ?E) (Fin p) = Fin z" using z(1) by (simp add: lua_mul_def)
  moreover have "?E * ?q * (1 - 1 / 2 ^ 51) \<le> z"
  proof -
    have "?E * ?q * (1 - 1 / 2 ^ 51) \<le> ?E * ?q * ((1 - 1 / 2 ^ 53) * (1 - 1 / 2 ^ 53))"
      using Eq q by (intro mult_left_mono) (auto simp: divide_simps)
    also have "\<dots> = (?E * ?q * (1 - 1 / 2 ^ 53)) * (1 - 1 / 2 ^ 53)" by (simp add: algebra_simps)
    also have "\<dots> \<le> (?E * p) * (1 - 1 / 2 ^ 53)" by (rule mult_right_mono [OF Ep(1)]) simp
    also have "\<dots> \<le> z" by (rule near_bounds [OF z(2)])
    finally show ?thesis .
  qed
  moreover have "z \<le> ?E * ?q * (1 + 1 / 2 ^ 51)"
  proof -
    have "z \<le> (?E * p) * (1 + 1 / 2 ^ 53)" by (rule near_bounds [OF z(2)])
    also have "\<dots> \<le> (?E * ?q * (1 + 1 / 2 ^ 53)) * (1 + 1 / 2 ^ 53)" by (rule mult_right_mono [OF Ep(2)]) simp
    also have "\<dots> = ?E * ?q * ((1 + 1 / 2 ^ 53) * (1 + 1 / 2 ^ 53))" by (simp add: algebra_simps)
    also have "\<dots> \<le> ?E * ?q * (1 + 1 / 2 ^ 51)"
      using Eq q by (intro mult_left_mono) (auto simp: divide_simps)
    finally show ?thesis .
  qed
  ultimately show ?thesis using that div by blast
qed

text \<open>Any client is back within a period per token, and one millisecond for the rounding.\<close>

lemma refill_admits:
  assumes "sensible lm" "bucket_ok lm b" "last_update b = of_int i" "0 \<le> i" "now \<le> 2 ^ 52"
    and "lim_period lm \<le> (now - i - 1) * lim_rate lm"
  shows "1 \<le> fst (refill lm now (Some b))"
proof -
  note sb = sensible_bounds [OF assms(1)] and s = assms(1) [unfolded sensible_def]
  have "0 < (now - i - 1) * lim_rate lm" using s assms(6) by linarith
  then have gap: "1 \<le> now - i - 1" using s by (simp add: zero_less_mult_iff)
  then have now: "0 \<le> now" "i \<le> 2 ^ 52" using assms(4,5) by linarith+
  define E where "E = now - i"
  have E: "1 \<le> E" "E \<le> 2 ^ 52" using gap assms(4,5) by (simp_all add: E_def)
  have el: "round_float (int_float now - last_update b) = Fin (of_int E)"
    using round_float_int [of E] E now assms(5) by (simp add: assms(3) int_float_id E_def flip: of_int_diff)
  obtain p z where div: "div_float (int_float (lim_rate lm)) (int_float (lim_period lm)) = Fin p"
    and z: "lua_mul (Fin (of_int E)) (Fin p) = Fin z" "of_int E * flow_rate lm * (1 - 1 / 2 ^ 51) \<le> z"
    using refilled_near [OF assms(1) E] .
  have "(of_int (lim_period lm) :: rat) \<le> of_int ((E - 1) * lim_rate lm)"
    using assms(6) by (simp only: of_int_le_iff E_def)
  then have "1 \<le> (of_int E - 1) * flow_rate lm" using s by (simp add: flow_rate_def divide_simps)
  then have "1 + flow_rate lm \<le> of_int E * flow_rate lm" by (simp add: algebra_simps)
  then have "(1 + flow_rate lm) * (1 - 1 / 2 ^ 51) \<le> of_int E * flow_rate lm * (1 - 1 / 2 ^ 51)"
    by (rule mult_right_mono) simp
  moreover have "1 \<le> (1 + flow_rate lm) * (1 - 1 / 2 ^ 51)" using sb(5) by simp
  ultimately have "1 \<le> z" using z(2) by linarith
  moreover have "0 \<le> tokens b" using assms(2) by (simp add: bucket_ok_def)
  moreover have "1 \<le> min_add (of_int (lim_capacity lm)) t z'" if "z' = Fin z" "1 \<le> z" "0 \<le> t" for z' t
    using that sb(7) float64_ge [of 1 "t + z"]
    by (auto simp: min_add_def round_float_def split: option.split)
  ultimately show ?thesis
    using el div z(1) E(1) sb(2) by (simp add: refill_def lua_positive_def Let_def)
qed

text \<open>
  The time to live of a bucket is a positive number of seconds, in which a bucket fills up twice,
  but for the rounding.
\<close>

lemma ttl_sensible:
  assumes "sensible lm"
  obtains s where "bucket_ttl lm = Fin (of_int s)" "1 \<le> s" "s \<le> 2 ^ 48"
    "2 * of_int (lim_capacity lm) - 1 / 2 ^ 30 \<le> flow_rate lm * of_int (s * 1000)"
proof -
  note sb = sensible_bounds [OF assms] and cfg = assms [unfolded sensible_def]
  let ?c = "of_int (lim_capacity lm) :: rat" and ?r = "of_int (lim_rate lm) :: rat" and ?p = "of_int (lim_period lm) :: rat"
  have r: "1 \<le> ?r" "?r \<le> 2 ^ 20" "1 \<le> ?p" "?p \<le> 2 ^ 32"
  proof -
    show "1 \<le> ?r" "1 \<le> ?p" using cfg by simp_all
    have "?r \<le> of_int (2 ^ 20)" "?p \<le> of_int (2 ^ 32)" using cfg by (simp_all only: of_int_le_iff)
    then show "?r \<le> 2 ^ 20" "?p \<le> 2 ^ 32" by simp_all
  qed
  have cr: "1 / 2 ^ 20 \<le> ?c / ?r" "?c / ?r \<le> 2 ^ 20"
    using sb(7,8) r by (auto intro!: frac_le simp: divide_le_eq intro: order_trans)
  let ?E = "1 - 1 / 2 ^ 53 :: rat"
  obtain a where a: "round_float (?c / ?r) = Fin a" "1 / 2 ^ 20 / 2 \<le> a" "a \<le> 2 * 2 ^ 20" "?c / ?r * ?E \<le> a"
    by (rule round_float_within [OF cr]) simp_all
  have "1 / 1000 \<le> ?p / 1000" "?p / 1000 \<le> 2 ^ 23" using r by simp_all
  then obtain d where d: "round_float (?p / 1000) = Fin d" "1 / 1000 / 2 \<le> d" "d \<le> 2 * 2 ^ 23" "?p / 1000 * ?E \<le> d"
    by (rule round_float_within) simp_all
  have "1 / 2 ^ 20 / 2 * (1 / 1000 / 2) \<le> a * d"
    by (rule mult_mono) (use a(2) d(2) in \<open>simp_all add: divide_simps\<close>)
  moreover have "a * d \<le> 2 * 2 ^ 20 * (2 * 2 ^ 23)"
    by (rule mult_mono) (use a(3) d(2,3) in \<open>simp_all add: divide_simps\<close>)
  ultimately have "1 / 2 ^ 21 * (1 / 2000) \<le> a * d" "a * d \<le> 2 ^ 45" by simp_all
  then obtain f where f: "round_float (a * d) = Fin f" "1 / 2 ^ 21 * (1 / 2000) / 2 \<le> f" "f \<le> 2 * 2 ^ 45" "a * d * ?E \<le> f"
    by (rule round_float_within) simp_all
  have "1 / 2 ^ 21 * (1 / 2000) \<le> f * 2" "f * 2 \<le> 2 ^ 47" using f by simp_all
  then obtain g where g: "round_float (f * 2) = Fin g" "1 / 2 ^ 21 * (1 / 2000) / 2 \<le> g" "g \<le> 2 * 2 ^ 47" "f * 2 * ?E \<le> g"
    by (rule round_float_within) simp_all
  have rat: "?r \<noteq> 0" "round_float 2 = Fin 2" using r round_float_int [of 2] by simp_all
  have "bucket_ttl lm = Fin (of_int \<lceil>g\<rceil>)"
    using a(1) d(1) f(1) g(1) rat by (simp add: bucket_ttl_def sb div_float_def lua_mul_def)
  moreover have "0 < g" using g(2) by (rule less_le_trans [rotated]) simp
  then have "1 \<le> \<lceil>g\<rceil>" by simp
  moreover have "g \<le> of_int (2 ^ 48)" using g(3) by simp
  then have "\<lceil>g\<rceil> \<le> 2 ^ 48" by (rule ceiling_le)
  moreover have "2 * ?c - 1 / 2 ^ 30 \<le> flow_rate lm * of_int (\<lceil>g\<rceil> * 1000)"
  proof -
    have pos: "0 \<le> ?c / ?r * ?E" "0 \<le> ?p / 1000 * ?E" "0 \<le> flow_rate lm * 1000"
      using cr(1) r(3) sb(5) by (simp_all add: order_trans [rotated])
    have "(?c / ?r * ?E) * (?p / 1000 * ?E) \<le> a * d" by (rule mult_mono [OF a(4) d(4)]) (use a(2) pos in auto)
    then have "(?c / ?r * ?E) * (?p / 1000 * ?E) * ?E * 2 * ?E \<le> a * d * ?E * 2 * ?E" by simp
    also have "\<dots> \<le> f * 2 * ?E" using f(4) by simp
    also have "\<dots> \<le> g" by (rule g(4))
    also have "\<dots> \<le> of_int \<lceil>g\<rceil>" by simp
    finally have fill: "flow_rate lm * 1000 * ((?c / ?r * ?E) * (?p / 1000 * ?E) * ?E * 2 * ?E) \<le>
        flow_rate lm * 1000 * of_int \<lceil>g\<rceil>"
      using pos(3) by (rule mult_left_mono)
    have "2 * ?c - 1 / 2 ^ 30 \<le> 2 * ?c * (1 - 1 / 2 ^ 51)" using sb(8) by (simp add: right_diff_distrib)
    also have "\<dots> \<le> 2 * ?c * (?E * ?E * ?E * ?E)" using sb(7) by (intro mult_left_mono) (simp_all add: divide_simps)
    also have "\<dots> = flow_rate lm * 1000 * ((?c / ?r * ?E) * (?p / 1000 * ?E) * ?E * 2 * ?E)"
      using r(1,3) unfolding flow_rate_def by (simp only: times_divide_eq_left times_divide_eq_right) (simp add: divide_simps)
    also note fill
    also have "flow_rate lm * 1000 * of_int \<lceil>g\<rceil> = flow_rate lm * of_int (\<lceil>g\<rceil> * 1000)" by simp
    finally show ?thesis .
  qed
  ultimately show ?thesis using that by blast
qed

subsection \<open>The buckets over time\<close>

text \<open>A bucket last updated at a whole millisecond up to \<open>t\<close>.\<close>

definition bucket_by :: "limits \<Rightarrow> int \<Rightarrow> bucket \<Rightarrow> bool" where
  "bucket_by lm t b \<longleftrightarrow> bucket_ok lm b \<and> (\<exists>i. 0 \<le> i \<and> i \<le> t \<and> last_update b = of_int i)"

definition table_by :: "limits \<Rightarrow> int \<Rightarrow> (string \<times> bucket) list \<Rightarrow> bool" where
  "table_by lm t bs \<longleftrightarrow> list_all (\<lambda>(k, b). bucket_by lm t b) bs"

lemma table_by_ok: "table_by lm t bs \<Longrightarrow> table_ok lm bs"
  by (auto simp: table_by_def table_ok_def bucket_by_def list_all_iff)

lemma live_by: "table_by lm t bs \<Longrightarrow> live_bucket v bs key = Some b \<Longrightarrow> bucket_by lm t b"
  by (auto simp: live_bucket_def table_by_def list_all_iff dest!: map_of_SomeD split: option.splits if_splits)

lemma refill_time: "snd (refill lm now b) = int_float now \<or> (\<exists>b'. b = Some b' \<and> snd (refill lm now b) = last_update b')"
  by (auto simp: refill_def Let_def split: option.split float_val.split)

lemma script_table:
  "(k, b) \<in> set (snd (token_bucket_script lm now v key bs)) \<Longrightarrow>
     (k, b) \<in> set bs \<or> last_update b = snd (refill lm now (live_bucket v bs key))"
  by (auto simp: token_bucket_script_def expire_bucket_def put_bucket_def Let_def
      split: prod.splits if_splits option.splits float_val.splits)

lemma script_by:
  assumes "sensible lm" "table_by lm t bs" "0 \<le> now" "now \<le> t" "t \<le> 2 ^ 52"
  shows "table_by lm t (snd (token_bucket_script lm now v key bs))"
proof -
  have "table_ok lm (snd (token_bucket_script lm now v key bs))"
    using script_ok [OF sensible_bounds(1) [OF assms(1)] table_by_ok [OF assms(2)]] .
  moreover have "\<exists>i. 0 \<le> i \<and> i \<le> t \<and> last_update b = of_int i"
    if "(k, b) \<in> set (snd (token_bucket_script lm now v key bs))" for k b
  proof -
    have "int_float now = of_int now" using assms by (intro int_float_id) auto
    with script_table [OF that] refill_time [of lm now "live_bucket v bs key"] live_by [OF assms(2)] assms(2-4)
    show ?thesis by (fastforce simp: table_by_def bucket_by_def list_all_iff)
  qed
  ultimately show ?thesis by (auto simp: table_by_def table_ok_def bucket_by_def list_all_iff)
qed

lemma eval_all_by:
  assumes "sensible lm" "t \<le> 2 ^ 52" "list_all (\<lambda>(ctx, key, now). 0 \<le> now \<and> now \<le> t) cs"
    and "table_by lm t (w_buckets w)"
  shows "table_by lm t (w_buckets (eval_all (EvalTokenBucket e) lm cs w))"
  using assms(3,4)
proof (induction cs arbitrary: w)
  case (Cons c cs)
  obtain ctx key now where c: "c = (ctx, key, now)" by (cases c)
  have "table_by lm t (w_buckets (snd (EvalTokenBucket e ctx key lm now w)))"
    using script_by [OF assms(1) _ _ _ assms(2)] Cons.prems
    by (auto simp: c Eval_buckets split: option.split bool.split)
  with Cons show ?case by (simp add: c)
qed simp

lemma script_exact:
  assumes "bucket_ttl lm = Fin (of_int s)" "1 \<le> s" "s \<le> 2 ^ 48" "0 \<le> v" "v \<le> 2 ^ 62"
    and "refill lm now (live_bucket v bs key) = (t, u)"
  shows "token_bucket_script lm now v key bs =
     (if 1 \<le> t
      then (Some (1, \<lfloor>lua_val (lua_val (t - 1) * 1000)\<rfloor>),
            put_bucket key \<lparr>tokens = lua_val (t - 1), last_update = u, expiry = Some (v + s * 1000)\<rparr> bs)
      else (Some (0, \<lfloor>lua_val (t * 1000)\<rfloor>), bs))"
proof -
  have "\<not> 2 ^ 63 - 1 - v < s * 1000" "\<not> s * 1000 < - (2 ^ 63)" "\<not> s \<le> 0" using assms(2-5) by simp_all
  with assms(1,6) show ?thesis by (simp add: token_bucket_script_def expire_bucket_def Let_def)
qed

lemma script_result:
  assumes "bucket_ttl lm = Fin (of_int s)" "1 \<le> s" "s \<le> 2 ^ 48" "0 \<le> v" "v \<le> 2 ^ 62"
    and "refill lm now (live_bucket v bs key) = (t, u)"
  shows "if 1 \<le> t
     then \<exists>q. token_bucket_script lm now v key bs =
       (Some (1, q), put_bucket key \<lparr>tokens = lua_val (t - 1), last_update = u, expiry = Some (v + s * 1000)\<rparr> bs)
     else \<exists>q. token_bucket_script lm now v key bs = (Some (0, q), bs)"
  using script_exact [OF assms] by simp

text \<open>
  C22 (limiter_recovers): nobody is locked out. Whatever calls came before, from whatever
  clients, and however Valkey failed on them, a client that calls when more than the time of
  one token (and a millisecond, for the rounding) has passed since is let through by a
  healthy Valkey.
\<close>

theorem limiter_recovers:
  assumes "1 \<le> lim_capacity lm" "lim_capacity lm \<le> 2 ^ 20" "1 \<le> lim_rate lm" "lim_rate lm \<le> 2 ^ 20"
    and "1 \<le> lim_period lm" "lim_period lm \<le> 2 ^ 32" "w_buckets w = []"
    and "list_all (\<lambda>(ctx, key, now). 0 \<le> now \<and> now \<le> t) calls"
    and "lim_period lm \<le> (now - t - 1) * lim_rate lm" "0 \<le> t" "now \<le> 2 ^ 52"
    and "w' = eval_all (EvalTokenBucket e) lm calls w" "valkey_fault e (w_valkey w') = None"
    and "0 \<le> valkey_clock e (w_valkey w')" "valkey_clock e (w_valkey w') \<le> 2 ^ 62"
  shows "\<exists>q. fst (EvalTokenBucket e ctx key lm now w') = Inr (True, q)"
proof -
  let ?v = "valkey_clock e (w_valkey w')"
  have lm: "sensible lm" using assms(1-6) by (simp add: sensible_def)
  have "0 < (now - t - 1) * lim_rate lm" using assms(5,9) by linarith
  then have t: "t \<le> 2 ^ 52" using assms(3,11) by (simp add: zero_less_mult_iff)
  have tab: "table_by lm t (w_buckets w')"
    unfolding assms(12) by (rule eval_all_by [OF lm t assms(8)]) (simp add: assms(7) table_by_def)
  have "1 \<le> fst (refill lm now (live_bucket ?v (w_buckets w') key))"
  proof (cases "live_bucket ?v (w_buckets w') key")
    case None
    then show ?thesis using sensible_bounds(2,7) [OF lm] by (simp add: refill_def)
  next
    case (Some b)
    with live_by [OF tab] obtain i where b: "bucket_ok lm b" "last_update b = of_int i" "0 \<le> i" "i \<le> t"
      unfolding bucket_by_def by blast
    have "(now - t - 1) * lim_rate lm \<le> (now - i - 1) * lim_rate lm"
      using b(4) assms(3) by (intro mult_right_mono) auto
    with assms(9) have "lim_period lm \<le> (now - i - 1) * lim_rate lm" by linarith
    from refill_admits [OF lm b(1-3) assms(11) this] show ?thesis by (simp add: Some)
  qed
  moreover obtain s where s: "bucket_ttl lm = Fin (of_int s)" "1 \<le> s" "s \<le> 2 ^ 48" using ttl_sensible [OF lm] .
  moreover obtain t1 u where "refill lm now (live_bucket ?v (w_buckets w') key) = (t1, u)" by fastforce
  ultimately obtain q bs where "token_bucket_script lm now ?v key (w_buckets w') = (Some (1, q), bs)"
    using script_result [OF s assms(14,15)] by fastforce
  with assms(13) show ?thesis by (simp add: EvalTokenBucket_def valkey_do_def)
qed

theorem limiter_recovers_witness:
  "\<exists>q. fst (EvalTokenBucket sample_env background ''k'' sample_limits 1700000001001
     (eval_all (EvalTokenBucket sample_env) sample_limits
        (replicate 5 (background, ''k'', 1700000000000)) world_init)) = Inr (True, q)"
  by (rule limiter_recovers [OF _ _ _ _ _ _ _ _ _ _ _ refl, where t = 1700000000000])
     (simp_all add: sample_limits_def world_init_def sample_env_def list_all_iff)

subsection \<open>No more than the rate\<close>

lemma lua_val_close:
  assumes "0 \<le> x" "x \<le> 2 ^ 200"
  shows "lua_val x \<le> x + x / 2 ^ 53 + 1 / 2 ^ 100"
proof (cases "1 / 2 ^ 100 \<le> x")
  case True
  obtain y where "round_float x = Fin y" "\<bar>y - x\<bar> \<le> x / 2 ^ 53" using round_float_near [OF True assms(2)] .
  then have "lua_val x \<le> x * (1 + 1 / 2 ^ 53)" using near_bounds(2) by (simp add: lua_val_def)
  then show ?thesis unfolding distrib_left by simp
next
  case False
  show ?thesis
  proof (cases "x = 0")
    case True
    then show ?thesis by (simp add: lua_val_def round_float_def float64_def)
  next
    case False
    with assms(1) have x: "0 < x" by simp
    have "ilog2 x \<le> - 100"
    proof (rule ccontr)
      assume "\<not> ilog2 x \<le> - 100"
      then have "(2 :: rat) powi (- 99) \<le> 2 powi ilog2 x" by (intro power_int_increasing) auto
      also have "\<dots> \<le> x" by (rule ilog2_bounds(1) [OF x])
      finally show False using \<open>\<not> 1 / 2 ^ 100 \<le> x\<close> by (simp add: power_int_def divide_simps)
    qed
    define u where "u = (2 :: rat) powi (max (ilog2 x) (- 1022) - 52)"
    have "u \<le> 2 powi (- 152)" unfolding u_def using \<open>ilog2 x \<le> - 100\<close> by (intro power_int_increasing) auto
    then have u: "0 < u" "u \<le> 1 / 2 ^ 100" by (simp_all add: u_def power_int_def divide_simps)
    have "\<bar>of_int (round_even (x / u)) - x / u\<bar> \<le> 1 / 2" by (rule round_even_near)
    then have "of_int (round_even (x / u)) \<le> x / u + 1" unfolding abs_le_iff by simp
    then have "of_int (round_even (x / u)) * u \<le> (x / u + 1) * u" using u(1) by (intro mult_right_mono) auto
    also have "\<dots> = x + u" using u(1) by (simp add: algebra_simps)
    finally have "of_int (round_even (x / u)) * u \<le> x + 1 / 2 ^ 100" using u(2) by simp
    moreover have "float64 x = Some y \<Longrightarrow> y = of_int (round_even (x / u)) * u" for y
      using x by (auto simp: float64_def u_def Let_def split: if_splits)
    ultimately have "lua_val x \<le> x + 1 / 2 ^ 100" using x by (auto simp: lua_val_float64 split: option.split)
    moreover have "0 \<le> x / 2 ^ 53" using x by simp
    ultimately show ?thesis by linarith
  qed
qed

lemma float64_nonpos:
  assumes "x \<le> 0" "float64 x = Some y"
  shows "y \<le> 0"
proof (cases "x = 0")
  case False
  define u where "u = (2 :: rat) powi (max (ilog2 \<bar>x\<bar>) (- 1022) - 52)"
  have u: "0 < u" by (simp add: u_def)
  have y: "y = of_int (round_even (x / u)) * u"
    using assms(2) False by (auto simp: float64_def u_def Let_def split: if_splits)
  have "x \<le> of_int 0 * u" using assms(1) by simp
  from round_scaled_le [OF this u] show ?thesis by (simp add: y)
qed (use assms(2) in \<open>simp add: float64_def\<close>)

lemma refill_flow:
  assumes "sensible lm" "bucket_ok lm b" "last_update b = of_int i" "0 \<le> i" "i \<le> 2 ^ 52" "0 \<le> now" "now \<le> 2 ^ 52"
    and "refill lm now (Some b) = (t, u)"
  shows "t \<le> tokens b + flow_rate lm * (u - last_update b) + 1 / 2 ^ 29" "u = of_int (max i now)"
    "0 \<le> t" "t \<le> of_int (lim_capacity lm)"
proof -
  note sb = sensible_bounds [OF assms(1)]
  let ?cap = "of_int (lim_capacity lm) :: rat"
  show "0 \<le> t" "t \<le> ?cap"
    using refill_bounds [OF sb(1), of "Some b" now] assms(2,8) by simp_all
  have b: "0 \<le> tokens b" "tokens b \<le> ?cap" using assms(2) by (simp_all add: bucket_ok_def)
  have now: "int_float now = of_int now" using assms(6,7) by (rule int_float_id)
  show "u = of_int (max i now)" and "t \<le> tokens b + flow_rate lm * (u - last_update b) + 1 / 2 ^ 29"
  proof (atomize (full), cases "i < now")
    case False
    have "float64 (of_int (now - i)) \<noteq> None" using float64_int64 [of "now - i"] assms(4-7) by (fastforce simp: in_int64_def)
    then obtain y where y: "float64 (of_int now - of_int i) = Some y" by auto
    have "y \<le> 0" by (rule float64_nonpos [OF _ y]) (use False in simp)
    then show "u = of_int (max i now) \<and> t \<le> tokens b + flow_rate lm * (u - last_update b) + 1 / 2 ^ 29"
      using assms(8) False y now by (simp add: refill_def assms(3) round_float_def)
  next
    case True
    define E where "E = now - i"
    have E: "1 \<le> E" "E \<le> 2 ^ 52" using True assms(4,7) by (simp_all add: E_def)
    have el: "round_float (int_float now - last_update b) = Fin (of_int E)"
      using round_float_int [of E] E by (simp add: assms(3) now E_def flip: of_int_diff)
    define X where "X = of_int E * flow_rate lm"
    obtain p z where div: "div_float (int_float (lim_rate lm)) (int_float (lim_period lm)) = Fin p"
      and z: "lua_mul (Fin (of_int E)) (Fin p) = Fin z" "X * (1 - 1 / 2 ^ 51) \<le> z" "z \<le> X * (1 + 1 / 2 ^ 51)"
      unfolding X_def using refilled_near [OF assms(1) E] .
    have "flow_rate lm * 1 \<le> flow_rate lm * of_int E" using E(1) sb(5) by (intro mult_left_mono) auto
    then have "flow_rate lm \<le> X" by (simp only: X_def mult.commute mult_1_right)
    with sb(5) have X: "1 / 2 ^ 32 \<le> X" by (rule order_trans)
    with z(2) have "1 / 2 ^ 33 \<le> z" by simp
    then have pos: "lua_positive (Fin z)" by (simp add: lua_positive_def)
    have res: "t = min_add ?cap (tokens b) (Fin z)" "u = of_int now"
      using assms(8) el div z(1) pos E(1) sb(2) now by (simp_all add: refill_def Let_def)
    have t: "t \<le> tokens b + X + 1 / 2 ^ 29"
    proof (cases "2 ^ 20 \<le> X")
      case True
      then show ?thesis using \<open>t \<le> ?cap\<close> sb(8) b by simp
    next
      case False
      then have "tokens b + z \<le> 2 ^ 22" "1 / 2 ^ 100 \<le> tokens b + z"
        using z(3) b sb(8) \<open>1 / 2 ^ 33 \<le> z\<close> by simp_all
      define T where "T = tokens b + z"
      from \<open>tokens b + z \<le> 2 ^ 22\<close> have T: "T \<le> 2 ^ 22" "1 / 2 ^ 100 \<le> T"
        using \<open>1 / 2 ^ 100 \<le> tokens b + z\<close> by (simp_all only: T_def)
      then have "T \<le> 2 ^ 200" by simp
      then obtain y where y: "round_float T = Fin y" "\<bar>y - T\<bar> \<le> T / 2 ^ 53" by (rule round_float_near [OF T(2)])
      have "y \<le> T + 1 / 2 ^ 31" using near_bounds(2) [OF y(2)] T(1) unfolding distrib_left by simp
      moreover have "t \<le> y" using res(1) y(1) by (simp add: min_add_def T_def)
      moreover have "z \<le> X + 1 / 2 ^ 31" using z(3) False unfolding distrib_left by simp
      ultimately show ?thesis by (simp add: T_def)
    qed
    have "of_int E = of_int now - last_update b" by (simp add: E_def assms(3))
    then have "X = flow_rate lm * (u - last_update b)" by (simp add: X_def res(2) mult.commute)
    with t res(2) True show "u = of_int (max i now) \<and> t \<le> tokens b + flow_rate lm * (u - last_update b) + 1 / 2 ^ 29"
      by simp
  qed
qed

text \<open>The calls of one client that a run lets through.\<close>

fun admitted :: "limiter_backend \<Rightarrow> limits \<Rightarrow> string \<Rightarrow> (go_ctx \<times> string \<times> int) list \<Rightarrow> world \<Rightarrow> nat" where
  "admitted backend lm key [] w = 0"
| "admitted backend lm key ((ctx, k, now) # cs) w =
     (case backend ctx k lm now w of (r, w') \<Rightarrow>
        (case r of Inr (True, _) \<Rightarrow> if k = key then 1 else 0 | _ \<Rightarrow> 0) + admitted backend lm key cs w')"

lemma map_of_others: "k \<noteq> key \<Longrightarrow> map_of (filter (\<lambda>(k', _). k' \<noteq> k) bs) key = map_of bs key"
  by (induction bs) auto

lemma script_other:
  assumes "k \<noteq> key"
  shows "map_of (snd (token_bucket_script lm now v k bs)) key = map_of bs key"
  using assms
  by (auto simp: token_bucket_script_def expire_bucket_def put_bucket_def Let_def map_of_others
      split: prod.split option.split float_val.split)

text \<open>
  Valkey's clock does not run backwards, a Valkey that fails answers with an error, and each
  call reads a gateway's clock that is within \<open>d\<close> milliseconds of Valkey's.
\<close>

definition orderly_valkey :: "env \<Rightarrow> bool" where
  "orderly_valkey e \<longleftrightarrow>
     (\<forall>k. 0 \<le> valkey_clock e k \<and> valkey_clock e k \<le> valkey_clock e (Suc k) \<and> valkey_clock e k \<le> 2 ^ 62) \<and>
     (\<forall>k took vals. valkey_fault e k \<noteq> Some (took, VVals vals))"

fun in_sync :: "env \<Rightarrow> int \<Rightarrow> nat \<Rightarrow> (go_ctx \<times> string \<times> int) list \<Rightarrow> bool" where
  "in_sync e d k [] \<longleftrightarrow> True"
| "in_sync e d k ((ctx, key, now) # cs) \<longleftrightarrow> \<bar>valkey_clock e k - now\<bar> \<le> d \<and> in_sync e d (Suc k) cs"

lemma Eval_tick [simp]: "w_valkey (snd (EvalTokenBucket e ctx key lm now w)) = Suc (w_valkey w)"
  by (simp add: EvalTokenBucket_def valkey_do_def Let_def split: prod.split option.split)

text \<open>A Valkey that answers with an error.\<close>

lemma Eval_failed:
  assumes "valkey_fault e (w_valkey w) = Some (took, reply)" "\<And>vals. reply \<noteq> VVals vals"
  obtains err w2 where "EvalTokenBucket e ctx key lm now w = (Inl err, w2)"
proof -
  obtain res bs where "token_bucket_script lm now (valkey_clock e (w_valkey w)) key (w_buckets w) = (res, bs)" by fastforce
  moreover from assms(2) obtain m where "reply = VErr m \<or> reply = VNotArray m" by (cases reply) auto
  ultimately have "fst (EvalTokenBucket e ctx key lm now w) = Inl (ErrNew m)"
    using assms(1) by (auto simp: EvalTokenBucket_def valkey_do_def Let_def)
  with that show ?thesis by (metis prod.collapse)
qed

lemma call_other:
  "k \<noteq> key \<Longrightarrow> map_of (w_buckets (snd (EvalTokenBucket e ctx k lm now w))) key = map_of (w_buckets w) key"
  using script_other by (simp add: Eval_buckets split: option.split bool.split)

text \<open>A call either takes a token or changes nothing and is not let through.\<close>

lemma call_own:
  assumes "orderly_valkey e" "bucket_ttl lm = Fin (of_int s)" "1 \<le> s" "s \<le> 2 ^ 48"
    and "refill lm now (live_bucket (valkey_clock e (w_valkey w)) (w_buckets w) key) = (t, u)"
  shows "(1 \<le> t \<and> map_of (w_buckets (snd (EvalTokenBucket e ctx key lm now w))) key =
        Some \<lparr>tokens = lua_val (t - 1), last_update = u, expiry = Some (valkey_clock e (w_valkey w) + s * 1000)\<rparr>) \<or>
     (w_buckets (snd (EvalTokenBucket e ctx key lm now w)) = w_buckets w \<and>
        (\<forall>q. fst (EvalTokenBucket e ctx key lm now w) \<noteq> Inr (True, q)))"
proof -
  let ?v = "valkey_clock e (w_valkey w)"
  have v: "0 \<le> ?v" "?v \<le> 2 ^ 62" and err: "valkey_fault e (w_valkey w) \<noteq> Some (took, VVals vals)" for took vals
    using assms(1) by (auto simp: orderly_valkey_def)
  have failed: "fst (EvalTokenBucket e ctx key lm now w) \<noteq> Inr (True, q)"
    if "valkey_fault e (w_valkey w) = Some (took, reply)" for took reply q
    using Eval_failed [OF that, of ctx key lm now] that err by (metis Inl_Inr_False fst_conv)
  show ?thesis
  proof (cases "1 \<le> t")
    case True
    with script_result [OF assms(2-4) v assms(5)] obtain q where
      sc: "token_bucket_script lm now ?v key (w_buckets w) = (Some (1, q), put_bucket key
         \<lparr>tokens = lua_val (t - 1), last_update = u, expiry = Some (?v + s * 1000)\<rparr> (w_buckets w))" by auto
    show ?thesis
    proof (cases "valkey_fault e (w_valkey w)")
      case None
      with True sc show ?thesis by (simp add: Eval_buckets map_of_put)
    next
      case (Some f)
      with True sc failed show ?thesis by (cases f) (auto simp: Eval_buckets map_of_put split: bool.split)
    qed
  next
    case False
    with script_result [OF assms(2-4) v assms(5)] obtain q where
      sc: "token_bucket_script lm now ?v key (w_buckets w) = (Some (0, q), w_buckets w)" by auto
    show ?thesis
    proof (cases "valkey_fault e (w_valkey w)")
      case None
      with sc show ?thesis by (simp add: Eval_buckets EvalTokenBucket_def valkey_do_def)
    next
      case (Some f)
      with sc failed show ?thesis by (cases f) (auto simp: Eval_buckets split: bool.split)
    qed
  qed
qed

lemma taken_bound:
  assumes "sensible lm" "1 \<le> t" "t \<le> of_int (lim_capacity lm)"
  shows "lua_val (t - 1) \<le> t - 1 + 1 / 2 ^ 29"
    "bucket_ok lm \<lparr>tokens = lua_val (t - 1), last_update = u, expiry = x\<rparr>"
proof -
  note sb = sensible_bounds [OF assms(1)]
  define x where "x = t - 1"
  have x: "0 \<le> x" "x \<le> 2 ^ 20" using assms sb(8) by (simp_all add: x_def)
  then have "lua_val x \<le> x + x / 2 ^ 53 + 1 / 2 ^ 100" by (intro lua_val_close) auto
  then show "lua_val (t - 1) \<le> t - 1 + 1 / 2 ^ 29" using x unfolding x_def [symmetric] by simp
  have "0 \<le> lua_val x \<and> lua_val x \<le> of_int (lim_capacity lm)"
    by (rule lua_val_bounds) (use assms sb(1) x in \<open>auto simp: x_def limits_ok_def\<close>)
  then show "bucket_ok lm \<lparr>tokens = lua_val (t - 1), last_update = u, expiry = x'\<rparr>" for u x'
    by (simp add: bucket_ok_def x_def)
qed

lemma admitted_other:
  "k \<noteq> key \<Longrightarrow> admitted backend lm key ((ctx, k, now) # cs) w =
     admitted backend lm key cs (snd (backend ctx k lm now w))"
  by (simp split: prod.split sum.split bool.split)

lemma admitted_own:
  "admitted backend lm key ((ctx, key, now) # cs) w =
     (if \<exists>q. fst (backend ctx key lm now w) = Inr (True, q) then 1 else 0) +
     admitted backend lm key cs (snd (backend ctx key lm now w))"
  by (auto split: prod.split sum.split bool.split)

text \<open>
  A bucket that expired would have filled up: with both clocks within half the time of a fill,
  a new bucket holds no more than a refill of the old one.
\<close>

lemma expired_full:
  assumes "sensible lm" "2 * of_int (lim_capacity lm) - 1 / 2 ^ 30 \<le> flow_rate lm * of_int (s * 1000)"
    and "2 * d * lim_rate lm \<le> lim_capacity lm * lim_period lm" "i + s * 1000 - 2 * d \<le> now"
  shows "of_int (lim_capacity lm) \<le> flow_rate lm * of_int (now - i) + 1 / 2 ^ 30" "i \<le> now"
proof -
  note sb = sensible_bounds [OF assms(1)]
  have q: "0 < flow_rate lm" using less_le_trans [OF _ sb(5)] by simp
  have p: "(0 :: rat) < of_int (lim_period lm)" using assms(1) by (simp add: sensible_def)
  have "of_int (2 * d * lim_rate lm) \<le> (of_int (lim_capacity lm * lim_period lm) :: rat)"
    using assms(3) by (simp only: of_int_le_iff)
  then have "flow_rate lm * of_int (2 * d) \<le> of_int (lim_capacity lm)"
    using p by (simp add: flow_rate_def pos_divide_le_eq mult.commute)
  then have "of_int (lim_capacity lm) - 1 / 2 ^ 30 \<le> flow_rate lm * of_int (s * 1000 - 2 * d)"
    using assms(2) unfolding of_int_diff right_diff_distrib by linarith
  also have "\<dots> \<le> flow_rate lm * of_int (now - i)"
  proof (rule mult_left_mono)
    show "(of_int (s * 1000 - 2 * d) :: rat) \<le> of_int (now - i)" using assms(4) by (simp only: of_int_le_iff)
  qed (use q in simp)
  finally have fl: "of_int (lim_capacity lm) - 1 / 2 ^ 30 \<le> flow_rate lm * of_int (now - i)" .
  then show "of_int (lim_capacity lm) \<le> flow_rate lm * of_int (now - i) + 1 / 2 ^ 30" by linarith
  have "(0 :: rat) < of_int (lim_capacity lm) - 1 / 2 ^ 30" using sb(7) by simp
  with fl have "0 < flow_rate lm * of_int (now - i)" by linarith
  with q have "(0 :: rat) < of_int (now - i)" by (simp add: zero_less_mult_iff)
  then show "i \<le> now" by simp
qed

text \<open>A bucket whose last update is no later than its last write, give or take the clocks' distance.\<close>

definition bucket_sync :: "limits \<Rightarrow> int \<Rightarrow> int \<Rightarrow> int \<Rightarrow> int \<Rightarrow> bucket \<Rightarrow> int \<Rightarrow> bool" where
  "bucket_sync lm s d v t b i \<longleftrightarrow> bucket_ok lm b \<and> last_update b = of_int i \<and> 0 \<le> i \<and> i \<le> t \<and>
     (\<exists>x. expiry b = Some x \<and> i \<le> x - s * 1000 + d \<and> x - s * 1000 \<le> v)"

lemma bucket_sync_later: "bucket_sync lm s d v t b i \<Longrightarrow> v \<le> v' \<Longrightarrow> bucket_sync lm s d v' t b i"
  by (auto simp: bucket_sync_def)

lemma refill_sync:
  assumes "sensible lm" "2 * of_int (lim_capacity lm) - 1 / 2 ^ 30 \<le> flow_rate lm * of_int (s * 1000)"
    and "2 * d * lim_rate lm \<le> lim_capacity lm * lim_period lm"
    and "bucket_sync lm s d v t1 b i" "map_of bs key = Some b" "\<bar>v - now\<bar> \<le> d" "0 \<le> now" "now \<le> t1" "t1 \<le> 2 ^ 52"
    and "refill lm now (live_bucket v bs key) = (t, u)"
  shows "t \<le> tokens b + flow_rate lm * (of_int (max i now) - of_int i) + 1 / 2 ^ 29" "u = of_int (max i now)"
    "t \<le> of_int (lim_capacity lm)" "max i now \<le> v + d"
proof -
  obtain x where b: "bucket_ok lm b" "last_update b = of_int i" "0 \<le> i" "i \<le> t1"
    "expiry b = Some x" "i \<le> x - s * 1000 + d" "x - s * 1000 \<le> v"
    using assms(4) by (auto simp: bucket_sync_def)
  show "max i now \<le> v + d" using b(6,7) assms(6) by linarith
  show "t \<le> tokens b + flow_rate lm * (of_int (max i now) - of_int i) + 1 / 2 ^ 29" and "u = of_int (max i now)"
    and "t \<le> of_int (lim_capacity lm)"
  proof (atomize (full), cases "x \<le> v")
    case True
    have "live_bucket v bs key = None" using True assms(5) b(5) by (simp add: live_bucket_def)
    then have tu: "t = of_int (lim_capacity lm)" "u = of_int now"
      using assms(7-10) sensible_bounds(2) [OF assms(1)] by (simp_all add: refill_def int_float_id)
    have "i + s * 1000 - 2 * d \<le> now" using True b(6) assms(6) by linarith
    note full = expired_full [OF assms(1-3) this]
    have "0 \<le> tokens b" using b(1) by (simp add: bucket_ok_def)
    with tu full show "t \<le> tokens b + flow_rate lm * (of_int (max i now) - of_int i) + 1 / 2 ^ 29 \<and>
        u = of_int (max i now) \<and> t \<le> of_int (lim_capacity lm)" by (simp add: max_def)
  next
    case False
    then have "live_bucket v bs key = Some b" using assms(5) b(5) by (simp add: live_bucket_def)
    with assms(10) have "refill lm now (Some b) = (t, u)" by simp
    with refill_flow [OF assms(1) b(1,2,3) _ assms(7)] b(2,4) assms(8,9)
    show "t \<le> tokens b + flow_rate lm * (of_int (max i now) - of_int i) + 1 / 2 ^ 29 \<and>
        u = of_int (max i now) \<and> t \<le> of_int (lim_capacity lm)" by simp
  qed
qed

text \<open>What a bucket still lets through: its tokens and what flows in until \<open>t1\<close>.\<close>

lemma admitted_bucket:
  assumes "sensible lm" "orderly_valkey e" "bucket_ttl lm = Fin (of_int s)" "1 \<le> s" "s \<le> 2 ^ 48"
    and full: "2 * of_int (lim_capacity lm) - 1 / 2 ^ 30 \<le> flow_rate lm * of_int (s * 1000)"
      "2 * d * lim_rate lm \<le> lim_capacity lm * lim_period lm"
    and "t1 \<le> 2 ^ 52" "list_all (\<lambda>(ctx, k, now). 0 \<le> now \<and> now \<le> t1) cs" "in_sync e d (w_valkey w) cs"
    and "map_of (w_buckets w) key = Some b" "bucket_sync lm s d (valkey_clock e (w_valkey w)) t1 b i"
  shows "of_nat (admitted (EvalTokenBucket e) lm key cs w) \<le>
     tokens b + flow_rate lm * (of_int t1 - of_int i) + of_nat (length cs) / 2 ^ 28"
  using assms(9-12)
proof (induction cs arbitrary: w b i)
  case Nil
  have "0 \<le> flow_rate lm" using sensible_bounds(5) [OF assms(1)] by (rule order_trans [rotated]) simp
  with Nil show ?case by (simp add: bucket_ok_def bucket_sync_def)
next
  case (Cons c cs)
  obtain ctx k now where c: "c = (ctx, k, now)" by (cases c)
  let ?w = "snd (EvalTokenBucket e ctx k lm now w)" and ?n = "of_nat (length cs) / 2 ^ 28 :: rat"
  let ?v = "valkey_clock e (w_valkey w)"
  have now: "0 \<le> now" "now \<le> t1" "\<bar>?v - now\<bar> \<le> d"
    and cs: "list_all (\<lambda>(ctx, k, now). 0 \<le> now \<and> now \<le> t1) cs" "in_sync e d (w_valkey ?w) cs"
    using Cons.prems(1,2) by (simp_all add: c)
  have later: "?v \<le> valkey_clock e (w_valkey ?w)" using assms(2) by (simp add: orderly_valkey_def)
  have n: "of_nat (length (c # cs)) / 2 ^ 28 = ?n + 1 / 2 ^ 28" by (simp add: add_divide_distrib)
  note IH = Cons.IH [OF cs]
  note same = IH [OF _ bucket_sync_later [OF Cons.prems(4) later]]
  show ?case
  proof (cases "k = key")
    case False
    with same Cons.prems(3) show ?thesis unfolding c admitted_other [OF False] n [unfolded c] by (simp add: call_other)
  next
    case True
    obtain t u where tu: "refill lm now (live_bucket ?v (w_buckets w) key) = (t, u)" by fastforce
    note rf = refill_sync [OF assms(1) full Cons.prems(4,3) now(3,1,2) assms(8) tu]
    from call_own [OF assms(2-5) tu, of ctx] show ?thesis
    proof (elim disjE conjE)
      assume "w_buckets (snd (EvalTokenBucket e ctx key lm now w)) = w_buckets w"
        "\<forall>q. fst (EvalTokenBucket e ctx key lm now w) \<noteq> Inr (True, q)"
      with same Cons.prems(3) show ?thesis unfolding c True admitted_own n [unfolded c True] by (simp add: True)
    next
      let ?b = "\<lparr>tokens = lua_val (t - 1), last_update = u, expiry = Some (?v + s * 1000)\<rparr> :: bucket"
      assume t: "1 \<le> t" and b: "map_of (w_buckets (snd (EvalTokenBucket e ctx key lm now w))) key = Some ?b"
      note tb = taken_bound [OF assms(1) t rf(3)]
      have "0 \<le> max i now" "max i now \<le> t1" using Cons.prems(4) now by (auto simp: bucket_sync_def)
      then have "bucket_sync lm s d (valkey_clock e (w_valkey ?w)) t1 ?b (max i now)"
        using tb(2) rf(2,4) later by (simp add: bucket_sync_def)
      then have "of_nat (admitted (EvalTokenBucket e) lm key cs (snd (EvalTokenBucket e ctx key lm now w))) \<le>
          lua_val (t - 1) + flow_rate lm * (of_int t1 - of_int (max i now)) + ?n"
        using IH [of ?b "max i now"] b True by simp
      moreover have "flow_rate lm * (of_int (max i now) - of_int i) + flow_rate lm * (of_int t1 - of_int (max i now)) =
          flow_rate lm * (of_int t1 - of_int i)" by (simp add: algebra_simps)
      ultimately show ?thesis using tb(1) rf(1)
        unfolding c True admitted_own n [unfolded c True] by simp
    qed
  qed
qed

text \<open>A client whose bucket was last updated by \<open>t0\<close>, if it has one.\<close>

lemma admitted_from:
  assumes "sensible lm" "orderly_valkey e" "bucket_ttl lm = Fin (of_int s)" "1 \<le> s" "s \<le> 2 ^ 48"
    and full: "2 * of_int (lim_capacity lm) - 1 / 2 ^ 30 \<le> flow_rate lm * of_int (s * 1000)"
      "2 * d * lim_rate lm \<le> lim_capacity lm * lim_period lm"
    and "0 \<le> t0" "t0 \<le> t1" "t1 \<le> 2 ^ 52"
    and "list_all (\<lambda>(ctx, k, now). t0 \<le> now \<and> now \<le> t1) cs" "in_sync e d (w_valkey w) cs"
    and "case map_of (w_buckets w) key of None \<Rightarrow> True | Some b \<Rightarrow> bucket_by lm t0 b"
  shows "of_nat (admitted (EvalTokenBucket e) lm key cs w) \<le>
     of_int (lim_capacity lm) + flow_rate lm * of_int (t1 - t0) + of_nat (length cs) / 2 ^ 28"
  using assms(11-13)
proof (induction cs arbitrary: w)
  case Nil
  have "0 \<le> flow_rate lm" using sensible_bounds(5) [OF assms(1)] by (rule order_trans [rotated]) simp
  with sensible_bounds(7) [OF assms(1)] assms(9) show ?case by simp
next
  case (Cons c cs)
  obtain ctx k now where c: "c = (ctx, k, now)" by (cases c)
  let ?w = "snd (EvalTokenBucket e ctx k lm now w)" and ?n = "of_nat (length cs) / 2 ^ 28 :: rat"
  let ?v = "valkey_clock e (w_valkey w)"
  have now: "t0 \<le> now" "0 \<le> now" "now \<le> t1" "now \<le> 2 ^ 52" "\<bar>?v - now\<bar> \<le> d"
    and cs: "list_all (\<lambda>(ctx, k, now). t0 \<le> now \<and> now \<le> t1) cs" "in_sync e d (w_valkey ?w) cs"
    using Cons.prems(1,2) assms(8,10) by (auto simp: c)
  have cs0: "list_all (\<lambda>(ctx, k, now). 0 \<le> now \<and> now \<le> t1) cs"
    using cs(1) assms(8) by (auto simp: list_all_iff intro: order_trans)
  have n: "of_nat (length (c # cs)) / 2 ^ 28 = ?n + 1 / 2 ^ 28" by (simp add: add_divide_distrib)
  note same = Cons.IH [OF cs]
  show ?case
  proof (cases "k = key")
    case False
    with same Cons.prems(3) show ?thesis unfolding c admitted_other [OF False] n [unfolded c] by (simp add: call_other)
  next
    case True
    obtain t u where tu: "refill lm now (live_bucket ?v (w_buckets w) key) = (t, u)" by fastforce
    have rf: "t \<le> of_int (lim_capacity lm) \<and> u = of_int now"
    proof (cases "live_bucket ?v (w_buckets w) key")
      case None
      with tu now sensible_bounds(2) [OF assms(1)] show ?thesis by (simp add: refill_def int_float_id)
    next
      case (Some b)
      then have "map_of (w_buckets w) key = Some b" by (auto simp: live_bucket_def split: option.splits if_splits)
      with Cons.prems(3) obtain i where i: "bucket_ok lm b" "last_update b = of_int i" "0 \<le> i" "i \<le> t0"
        by (auto simp: bucket_by_def)
      have "i \<le> 2 ^ 52" using i(4) now(1,4) by linarith
      from refill_flow(2,4) [OF assms(1) i(1-3) this now(2,4)] tu Some i(4) now(1) show ?thesis by (simp add: max_def)
    qed
    from call_own [OF assms(2-5) tu, of ctx] show ?thesis
    proof (elim disjE conjE)
      assume "w_buckets (snd (EvalTokenBucket e ctx key lm now w)) = w_buckets w"
        "\<forall>q. fst (EvalTokenBucket e ctx key lm now w) \<noteq> Inr (True, q)"
      with same Cons.prems(3) show ?thesis unfolding c True admitted_own n [unfolded c True] by (simp add: True)
    next
      let ?b = "\<lparr>tokens = lua_val (t - 1), last_update = u, expiry = Some (?v + s * 1000)\<rparr> :: bucket"
      assume t: "1 \<le> t" and b: "map_of (w_buckets (snd (EvalTokenBucket e ctx key lm now w))) key = Some ?b"
      note tb = taken_bound [OF assms(1) t rf [THEN conjunct1]]
      have "?v \<le> valkey_clock e (w_valkey ?w)" using assms(2) by (simp add: orderly_valkey_def)
      then have "bucket_sync lm s d (valkey_clock e (w_valkey ?w)) t1 ?b now"
        using tb(2) rf now by (auto simp: bucket_sync_def)
      then have "of_nat (admitted (EvalTokenBucket e) lm key cs (snd (EvalTokenBucket e ctx key lm now w))) \<le>
          lua_val (t - 1) + flow_rate lm * (of_int t1 - of_int now) + ?n"
        using admitted_bucket [OF assms(1-5) full assms(10) cs0 cs(2), of key ?b now] b True by simp
      moreover have "flow_rate lm * (of_int t1 - of_int now) \<le> flow_rate lm * of_int (t1 - t0)"
        using now(1) less_le_trans [OF _ sensible_bounds(5) [OF assms(1)], of 0] by (intro mult_left_mono) simp_all
      ultimately show ?thesis using tb(1) rf
        unfolding c True admitted_own n [unfolded c True] by simp
    qed
  qed
qed

text \<open>
  C10 (limiter_throughput): between any two times, however far apart, a client gets no more out
  of the limiter than the capacity, and the configured rate times the time between, up to one
  call in 268 million for the rounding of the floats. This holds whatever was called before, by
  whom and with whatever failures, however the client spreads its calls, whatever other clients
  do, though buckets expire and though Valkey fails in between: calls it answers with an error
  are not let through by the limiter (the middleware's answer to them is another matter).
  Valkey's clock does not run backwards, and a gateway's clock is never further from it than
  half the time a bucket takes to fill, the slack the factor two of the time to live leaves.
\<close>

theorem limiter_throughput:
  assumes "1 \<le> lim_capacity lm" "lim_capacity lm \<le> 2 ^ 20" "1 \<le> lim_rate lm" "lim_rate lm \<le> 2 ^ 20"
    and "1 \<le> lim_period lm" "lim_period lm \<le> 2 ^ 32"
    and "w_buckets w0 = []" "list_all (\<lambda>(ctx, k, now). 0 \<le> now \<and> now \<le> t0) before"
    and "w = eval_all (EvalTokenBucket e) lm before w0"
    and "list_all (\<lambda>(ctx, k, now). t0 \<le> now \<and> now \<le> t1) calls" "0 \<le> t0" "t0 \<le> t1" "t1 \<le> 2 ^ 52"
    and "\<forall>k. 0 \<le> valkey_clock e k \<and> valkey_clock e k \<le> valkey_clock e (Suc k) \<and> valkey_clock e k \<le> 2 ^ 62"
    and "\<forall>k took vals. valkey_fault e k \<noteq> Some (took, VVals vals)"
    and "in_sync e d (w_valkey w) calls" "2 * d * lim_rate lm \<le> lim_capacity lm * lim_period lm"
  shows "of_nat (admitted (EvalTokenBucket e) lm key calls w) \<le>
     (of_int (lim_capacity lm) :: rat) + of_int (lim_rate lm) / of_int (lim_period lm) * of_int (t1 - t0) +
       of_nat (length calls) / 2 ^ 28"
proof -
  have lm: "sensible lm" using assms(1-6) by (simp add: sensible_def)
  have e: "orderly_valkey e" using assms(14,15) by (simp add: orderly_valkey_def)
  obtain s where s: "bucket_ttl lm = Fin (of_int s)" "1 \<le> s" "s \<le> 2 ^ 48"
    "2 * of_int (lim_capacity lm) - 1 / 2 ^ 30 \<le> flow_rate lm * of_int (s * 1000)" using ttl_sensible [OF lm] .
  have "t0 \<le> 2 ^ 52" using assms(12,13) by linarith
  then have "table_by lm t0 (w_buckets w)"
    unfolding assms(9) by (rule eval_all_by [OF lm _ assms(8)]) (simp add: assms(7) table_by_def)
  then have "case map_of (w_buckets w) key of None \<Rightarrow> True | Some b \<Rightarrow> bucket_by lm t0 b"
    by (auto simp: table_by_def list_all_iff dest!: map_of_SomeD split: option.split)
  from admitted_from [OF lm e s assms(17) assms(11-13,10,16) this] show ?thesis by (simp only: flow_rate_def)
qed

theorem limiter_throughput_witness:
  "admitted (EvalTokenBucket sample_env) sample_limits ''k'' (replicate 100 (background, ''k'', 1700000000500))
     (eval_all (EvalTokenBucket sample_env) sample_limits [(background, ''k'', 1600000000000)] world_init) \<le> 3"
proof -
  let ?w = "eval_all (EvalTokenBucket sample_env) sample_limits [(background, ''k'', 1600000000000)] world_init"
  let ?n = "admitted (EvalTokenBucket sample_env) sample_limits ''k'' (replicate 100 (background, ''k'', 1700000000500)) ?w"
  have sync: "in_sync sample_env 1000 k (replicate n (background, ''k'', 1700000000500))" for k n
    by (induction n arbitrary: k) (simp_all add: sample_env_def)
  have "of_nat ?n \<le> (of_int (lim_capacity sample_limits) :: rat) +
      of_int (lim_rate sample_limits) / of_int (lim_period sample_limits) * of_int (1700000001000 - 1700000000000) +
      of_nat (length (replicate 100 (background, ''k'', 1700000000500 :: int))) / 2 ^ 28"
    by (rule limiter_throughput [OF _ _ _ _ _ _ _ _ refl _ _ _ _ _ _ sync])
       (simp_all add: sample_limits_def sample_env_def world_init_def list_all_iff)
  then have "(of_nat ?n :: rat) < of_nat 4" by (simp add: sample_limits_def)
  then have "?n < 4" by (simp only: of_nat_less_iff)
  then show ?thesis by simp
qed

subsection \<open>The answer of the middleware\<close>

lemma whole_seconds:
  assumes "1 \<le> n" "n \<le> 2 ^ 20"
  shows "seconds_truncated (n * second) = n" "duration_millis (n * second) = n * 1000"
proof -
  have "toward_zero (n * second) second = n" using assms(1) by (simp add: toward_zero_def second_def)
  moreover have "lua_val 0 = 0" using lua_val_int [of 0] by simp
  moreover have "lua_val (of_int n) = of_int n" using assms by (intro lua_val_int) auto
  ultimately show "seconds_truncated (n * second) = n" using assms(1) by (simp add: seconds_truncated_def Let_def)
  show "duration_millis (n * second) = n * 1000"
    using assms(1) by (simp add: duration_millis_def toward_zero_def second_def)
qed

text \<open>
  C25 (limiter_response): what the middleware makes of a request, with Valkey as its backend and
  a period of whole seconds. The client is the subject of a validated token, else the address.
  If Valkey fails, the request goes on with its writer as it was: no limit and no headers. If
  Valkey's bucket of the client holds a token after the refill, one is taken and the request goes
  on with the capacity and the thousandths of a token left in two headers. Otherwise it is
  answered 429 with these headers and the period as \<open>Retry-After\<close>, nothing is taken from any
  bucket and the next handler does not run.
\<close>

theorem limiter_response:
  assumes "rw_sent rw = None"
    and "1 \<le> cfg_capacity cfg" "cfg_capacity cfg \<le> 2 ^ 20" "1 \<le> cfg_rate cfg" "cfg_rate cfg \<le> 2 ^ 20"
    and "cfg_period cfg = n * second" "1 \<le> n" "n \<le> 2 ^ 20"
    and "0 \<le> valkey_clock e (w_valkey w)" "valkey_clock e (w_valkey w) \<le> 2 ^ 62"
    and "\<forall>took vals. valkey_fault e (w_valkey w) \<noteq> Some (took, VVals vals)"
  shows "let ident = (case ctx_claims (rq_ctx r) of Some (Some (c # cs)) \<Rightarrow> ''user:'' @ c # cs | _ \<Rightarrow> getClientIdentifier r);
       key = ''ratelimit:'' @ hashIdentifier ident;
       lm = \<lparr>lim_capacity = cfg_capacity cfg, lim_rate = cfg_rate cfg, lim_period = n * 1000\<rparr>;
       now = nanos (clock e (w_clock w)) div 1000000;
       t = fst (refill lm now (live_bucket (valkey_clock e (w_valkey w)) (w_buckets w) key));
       out = RateLimiter_Handler e (EvalTokenBucket e) cfg next rw r w
     in
     case valkey_fault e (w_valkey w) of
       Some _ \<Rightarrow> \<exists>w2. out = next rw r w2 \<and> w_sent w2 = w_sent w \<and> w_keys w2 = w_keys w
     | None \<Rightarrow>
         if 1 \<le> t
         then \<exists>w2 b. out = next (set_header ''X-RateLimit-Remaining'' (int_dec \<lfloor>lua_val (lua_val (t - 1) * 1000)\<rfloor>)
                  (set_header ''X-RateLimit-Limit'' (int_dec (cfg_capacity cfg)) rw)) r w2 \<and>
                map_of (w_buckets w2) key = Some b \<and> tokens b = lua_val (t - 1) \<and>
                (\<forall>k. k \<noteq> key \<longrightarrow> map_of (w_buckets w2) k = map_of (w_buckets w) k)
         else sent_status (fst out) = 429 \<and> sent_header (fst out) ''Retry-After'' = int_dec n \<and>
                sent_header (fst out) ''X-RateLimit-Limit'' = int_dec (cfg_capacity cfg) \<and>
                sent_header (fst out) ''X-RateLimit-Remaining'' = int_dec \<lfloor>lua_val (t * 1000)\<rfloor> \<and>
                w_buckets (snd out) = w_buckets w \<and> w_sent (snd out) = w_sent w \<and> w_keys (snd out) = w_keys w"
proof -
  let ?key = "''ratelimit:'' @ hashIdentifier (getClientIdentifier r)" and ?v = "valkey_clock e (w_valkey w)"
  let ?lm = "\<lparr>lim_capacity = cfg_capacity cfg, lim_rate = cfg_rate cfg, lim_period = n * 1000\<rparr>"
  let ?now = "nanos (clock e (w_clock w)) div 1000000" and ?w1 = "snd (time_now e w)"
  have ident: "(case ctx_claims (rq_ctx r) of Some (Some (c # cs)) \<Rightarrow> ''user:'' @ c # cs | _ \<Rightarrow> getClientIdentifier r) =
      getClientIdentifier r"
    by (simp add: getClientIdentifier_def split: option.split list.split)
  have "sensible ?lm" using assms(2-5,7,8) by (simp add: sensible_def)
  then obtain s where s: "bucket_ttl ?lm = Fin (of_int s)" "1 \<le> s" "s \<le> 2 ^ 48" by (rule ttl_sensible)
  obtain t u where tu: "refill ?lm ?now (live_bucket ?v (w_buckets w) ?key) = (t, u)" by fastforce
  note sc = script_exact [OF s assms(9,10) tu]
  have out: "RateLimiter_Handler e (EvalTokenBucket e) cfg next rw r w =
      (case EvalTokenBucket e (rq_ctx r) ?key ?lm ?now ?w1 of
         (Inl err, w2) \<Rightarrow> next rw r (WarnContext (rq_ctx r) ''rate limiter backend error, failing open'' [(''error'', AErr err)] w2)
       | (Inr (allowed, remaining), w2) \<Rightarrow>
           (let rw1 = set_header ''X-RateLimit-Remaining'' (int_dec remaining)
                        (set_header ''X-RateLimit-Limit'' (int_dec (cfg_capacity cfg)) rw)
            in if \<not> allowed
               then (write_json (json_map [(''error'', JStr ''too many requests''),
                                           (''message'', JStr ''rate limit exceeded, please retry later'')])
                       (write_header 429
                          (set_header ''Content-Type'' ''application/json'' (set_header ''Retry-After'' (int_dec n) rw1))),
                     WarnContext (rq_ctx r) ''rate limit exceeded for client''
                       [(''client_hash'', AStr (hashIdentifier (getClientIdentifier r)))] w2)
               else next rw1 r w2))"
    unfolding RateLimiter_Handler_def assms(6) whole_seconds [OF assms(7,8)] by (simp add: Let_def time_now_def)
  show ?thesis
  proof (cases "valkey_fault e (w_valkey w)")
    case (Some f)
    obtain took reply where f: "f = (took, reply)" by (cases f)
    then have fault: "valkey_fault e (w_valkey ?w1) = Some (took, reply)" "\<And>vals. reply \<noteq> VVals vals"
      using Some assms(11) by auto
    obtain err w2 where ev: "EvalTokenBucket e (rq_ctx r) ?key ?lm ?now ?w1 = (Inl err, w2)"
      using Eval_failed [OF fault] .
    then have "w_sent w2 = w_sent w" "w_keys w2 = w_keys w"
      using Eval_frame(1,2) [of e "rq_ctx r" ?key ?lm ?now ?w1] by simp_all
    with ev out Some show ?thesis unfolding ident Let_def by auto
  next
    case None
    show ?thesis
    proof (cases "1 \<le> t")
      case True
      let ?b = "\<lparr>tokens = lua_val (t - 1), last_update = u, expiry = Some (?v + s * 1000)\<rparr> :: bucket"
      have "EvalTokenBucket e (rq_ctx r) ?key ?lm ?now ?w1 = (Inr (True, \<lfloor>lua_val (lua_val (t - 1) * 1000)\<rfloor>),
          ?w1\<lparr>w_valkey := Suc (w_valkey w), w_buckets := put_bucket ?key ?b (w_buckets w)\<rparr>)"
        using sc True None by (simp add: EvalTokenBucket_def valkey_do_def Let_def)
      moreover have "map_of (put_bucket ?key ?b (w_buckets w)) k = map_of (w_buckets w) k" if "k \<noteq> ?key" for k
        using that by (simp add: put_bucket_def map_of_others)
      ultimately show ?thesis using None True tu out
        unfolding ident Let_def by (auto simp: map_of_put intro!: exI [of _ ?b])
    next
      case False
      have "EvalTokenBucket e (rq_ctx r) ?key ?lm ?now ?w1 =
          (Inr (False, \<lfloor>lua_val (t * 1000)\<rfloor>), ?w1\<lparr>w_valkey := Suc (w_valkey w), w_buckets := w_buckets w\<rparr>)"
        using sc False None by (simp add: EvalTokenBucket_def valkey_do_def Let_def)
      then show ?thesis using None False tu out assms(1)
        unfolding ident Let_def by (simp add: sent_status_def sent_header_def)
    qed
  qed
qed

theorem limiter_response_witness:
  "sent_status (fst (RateLimiter_Handler sample_env (EvalTokenBucket sample_env)
     \<lparr>cfg_capacity = 2, cfg_rate = 1, cfg_period = 1 * second\<rparr> created_handler writer_init sample_request world_init)) = 201"
proof -
  let ?cfg = "\<lparr>cfg_capacity = 2, cfg_rate = 1, cfg_period = 1 * second\<rparr>"
  have "live_bucket v [] key = None" for v key by (simp add: live_bucket_def)
  moreover have "int_float 2 = 2" using int_float_id [of 2] by simp
  ultimately have t: "fst (refill \<lparr>lim_capacity = 2, lim_rate = 1, lim_period = 1 * 1000\<rparr> now (live_bucket v [] key)) = 2" for now v key
    by (simp add: refill_def)
  have no_bucket: "w_buckets world_init = []" "rw_sent writer_init = None" "valkey_fault sample_env k = None"
    "0 \<le> valkey_clock sample_env k" "valkey_clock sample_env k \<le> 2 ^ 62" for k
    by (simp_all add: world_init_def writer_init_def sample_env_def)
  have cfg: "1 \<le> cfg_capacity ?cfg" "cfg_capacity ?cfg \<le> 2 ^ 20" "1 \<le> cfg_rate ?cfg" "cfg_rate ?cfg \<le> 2 ^ 20"
    "cfg_period ?cfg = 1 * second" by simp_all
  note resp = limiter_response [of writer_init ?cfg 1 sample_env world_init sample_request created_handler, OF no_bucket(2) cfg _ _ no_bucket(4,5)]
  obtain w2 k r1 where "RateLimiter_Handler sample_env (EvalTokenBucket sample_env) ?cfg created_handler writer_init sample_request world_init =
      created_handler (set_header ''X-RateLimit-Remaining'' r1 (set_header ''X-RateLimit-Limit'' k writer_init)) sample_request w2"
    using resp unfolding no_bucket option.case Let_def limiter_config.simps t by auto
  then show ?thesis using no_bucket(2) by (simp add: created_handler_def sent_status_def)
qed

end
