(* ===== verification/LoginFlow.thy ===== *)
theory LoginFlow
  imports AuthHandler SessionRefinement
begin

text \<open>
  The login flow from the browser's side, across \<open>auth_handler.go\<close>, \<open>auth_service.go\<close>, the
  session repository and the provider's client: what \<open>Login\<close> hands out is what \<open>Callback\<close>
  needs, and the code is redeemed with the verifier whose challenge the provider was shown.
\<close>

subsection \<open>The provider\<close>

text \<open>The two requests of a callback.\<close>

definition code_request :: "auth0_gateway \<Rightarrow> string \<Rightarrow> string \<Rightarrow> out_request" where
  "code_request g code verifier =
     \<lparr>oq_method = ''POST'', oq_url = endpoint g ''/oauth/token'',
      oq_headers = [(''Content-Type'', ''application/json'')],
      oq_body = json_print (token_request_json (exchange_request g code verifier))\<rparr>"

definition profile_request :: "auth0_gateway \<Rightarrow> string \<Rightarrow> out_request" where
  "profile_request g token =
     \<lparr>oq_method = ''GET'', oq_url = endpoint g ''/userinfo'',
      oq_headers = [(''Authorization'', ''Bearer '' @ token)], oq_body = []\<rparr>"

text \<open>
  A provider that keeps RFC 7636: it redeems the code for whoever shows the verifier of the
  challenge that came with the authorization request, and serves the profile for the access
  token it issued.
\<close>

definition redeems :: "env \<Rightarrow> auth0_gateway \<Rightarrow> string \<Rightarrow> string \<Rightarrow> token_pair \<Rightarrow> user_identity \<Rightarrow> bool" where
  "redeems e g code challenge toks user \<longleftrightarrow>
     (\<forall>n v. DeriveChallenge v = challenge \<longrightarrow>
        (\<exists>resp. transport e n (code_request g code v) = Inr resp \<and> token_answer e resp = Inr toks)) \<and>
     (\<forall>n. \<exists>resp. transport e n (profile_request g (access_token toks)) = Inr resp \<and>
        userinfo_answer e resp = Inr user)"

text \<open>A network and a circuit breaker that let requests to the provider out.\<close>

definition reachable_idp :: "env \<Rightarrow> auth0_gateway \<Rightarrow> bool" where
  "reachable_idp e g \<longleftrightarrow>
     (\<forall>n. breaker e n = None) \<and> request_err e (endpoint g ''/oauth/token'') = None \<and>
     request_err e (endpoint g ''/userinfo'') = None"

lemma exchange_redeems:
  assumes "reachable_idp e g" "redeems e g code challenge toks user" "DeriveChallenge v = challenge"
  shows "fst (ExchangeCode e g ctx code v w) = Inr toks"
    "w_sent (snd (ExchangeCode e g ctx code v w)) = w_sent w @ [code_request g code v]"
proof -
  let ?w = "w\<lparr>w_breaker := Suc (w_breaker w)\<rparr>"
  obtain resp where r: "transport e (w_http w) (code_request g code v) = Inr resp" "token_answer e resp = Inr toks"
    using assms(2,3) unfolding redeems_def by blast
  have b: "breaker e (w_breaker w) = None" "request_err e (endpoint g ''/oauth/token'') = None"
    using assms(1) by (simp_all add: reachable_idp_def)
  have "sendTokenRequest e g (exchange_request g code v) ?w =
      (Inr toks, snd (http_do e (code_request g code v) ?w))"
    using r b(2) by (simp add: sendTokenRequest_def new_request_def http_do_def code_request_def Let_def)
  then show "fst (ExchangeCode e g ctx code v w) = Inr toks"
    "w_sent (snd (ExchangeCode e g ctx code v w)) = w_sent w @ [code_request g code v]"
    using b(1) by (simp_all add: ExchangeCode_def breaker_execute_def)
qed

lemma profile_redeems:
  assumes "reachable_idp e g" "redeems e g code challenge toks user"
  shows "fst (GetUserInfo e g ctx (access_token toks) w) = Inr user"
    "w_sent (snd (GetUserInfo e g ctx (access_token toks) w)) = w_sent w @ [profile_request g (access_token toks)]"
proof -
  let ?w = "w\<lparr>w_breaker := Suc (w_breaker w)\<rparr>"
  obtain resp where r: "transport e (w_http w) (profile_request g (access_token toks)) = Inr resp"
    "userinfo_answer e resp = Inr user"
    using assms(2) unfolding redeems_def by blast
  have b: "breaker e (w_breaker w) = None" "request_err e (endpoint g ''/userinfo'') = None"
    using assms(1) by (simp_all add: reachable_idp_def)
  have "send_userinfo e g (access_token toks) ?w =
      (Inr user, snd (http_do e (profile_request g (access_token toks)) ?w))"
    using r b(2) by (simp add: send_userinfo_def new_request_def http_do_def profile_request_def Let_def)
  then show "fst (GetUserInfo e g ctx (access_token toks) w) = Inr user"
    "w_sent (snd (GetUserInfo e g ctx (access_token toks) w)) = w_sent w @ [profile_request g (access_token toks)]"
    using b(1) by (simp_all add: GetUserInfo_def breaker_execute_def)
qed

subsection \<open>A callback that has everything\<close>

lemma Get_stored:
  assumes "pg_uuid e sid = Some u" "session_of w u = Some s" "db_fault e (w_db w) = None"
  shows "fst (Get e ctx sid w) = Inr s"
proof -
  obtain r w' where g: "Get e ctx sid w = (r, w')" by fastforce
  from get_refines(1) [OF g] assms show ?thesis by (auto simp: g spec_get_def seen_def split: sum.splits if_splits)
qed

lemma callback_redeems:
  assumes "pg_uuid e sid = Some u" "session_of w u = Some s" "db_fault e (w_db w) = None"
    and "\<not> expires_at s < clock e (w_clock w)" "reachable_idp e g"
    and "redeems e g code (DeriveChallenge (code_verifier s)) toks user"
  shows "fst (HandleCallback e (SQLSessionRepository e) (Auth0Gateway_provider e g) ctx sid code (session_state s) w) =
      Inr (user, toks)"
    and "w_sent (snd (HandleCallback e (SQLSessionRepository e) (Auth0Gateway_provider e g) ctx sid code (session_state s) w)) =
      w_sent w @ [code_request g code (code_verifier s), profile_request g (access_token toks)]"
proof -
  obtain w1 where g: "Get e ctx sid w = (Inr s, w1)"
    using Get_stored [OF assms(1-3), of ctx] by (metis prod.collapse)
  obtain d w2 where d: "Delete e ctx sid w1 = (d, w2)" by fastforce
  have keep: "w_clock w2 = w_clock w" "w_sent w2 = w_sent w"
    using Get_keeps [of e ctx sid w] Delete_keeps [of e ctx sid w1] g d by simp_all
  obtain w3 where now: "time_now e w2 = (clock e (w_clock w), w3)" "w_sent w3 = w_sent w"
    using keep by (simp add: time_now_def)
  obtain w4 where x: "ExchangeCode e g ctx code (code_verifier s) w3 = (Inr toks, w4)"
    "w_sent w4 = w_sent w @ [code_request g code (code_verifier s)]"
    using exchange_redeems [OF assms(5,6) refl, of ctx w3] now(2) by (metis prod.collapse)
  obtain w5 where y: "GetUserInfo e g ctx (access_token toks) w4 = (Inr user, w5)"
    "w_sent w5 = w_sent w4 @ [profile_request g (access_token toks)]"
    using profile_redeems [OF assms(5,6), of ctx w4] by (metis prod.collapse)
  have h: "HandleCallback e (SQLSessionRepository e) (Auth0Gateway_provider e g) ctx sid code (session_state s) w =
      (Inr (user, toks), InfoContext ctx ''completed authentication callback''
             [(''user_id'', AStr (user_sub user)), (''user_email'', MaskedEmail_LogValue (user_email user))] w5)"
    using g d now(1) x(1) y(1) assms(4)
    by (simp add: HandleCallback_def SQLSessionRepository_def Auth0Gateway_provider_def IsExpired_def time_after_def)
  then show "fst (HandleCallback e (SQLSessionRepository e) (Auth0Gateway_provider e g) ctx sid code (session_state s) w) =
      Inr (user, toks)"
    and "w_sent (snd (HandleCallback e (SQLSessionRepository e) (Auth0Gateway_provider e g) ctx sid code (session_state s) w)) =
      w_sent w @ [code_request g code (code_verifier s), profile_request g (access_token toks)]"
    using x(2) y(2) by simp_all
qed

text \<open>What a login that sent the browser away has done.\<close>

lemma login_redirects:
  assumes "rw_sent rw = None" "Login e repo prov rw r w = (rw1, w1)" "sent_status rw1 = 302"
  obtains url sid w2 where "InitiateAuth e repo prov (rq_ctx r) (query_get (rq_query r) ''redirect_uri'') w = (Inr (url, sid), w2)"
    "sent_header rw1 ''Location'' = url" "w_sessions w1 = w_sessions w2"
    "sent_cookies rw1 = rw_cookies rw @ [live_cookie SessionCookieName sid (time_add (clock e (w_clock w2)) (10 * minute))]"
  using assms
  by (auto simp: Login_def Let_def time_now_def sent_status_def sent_header_def sent_cookies_def writeError_sent
      split: sum.splits prod.splits if_splits)

lemma callback_done:
  assumes "rw_sent rw = None" "request_cookie r SessionCookieName = Some sid"
    and "query_get (rq_query r) ''code'' = code" "code \<noteq> []"
    and "query_get (rq_query r) ''state'' = state" "state \<noteq> []"
    and "HandleCallback e repo prov (rq_ctx r) sid code state w = (Inr (user, toks), w')"
  shows "sent_status (fst (Callback e repo prov rw r w)) = 200"
    and "rw_body (fst (Callback e repo prov rw r w)) = rw_body rw @
      json_print (JObj [(''access_token'', JStr (access_token toks)),
        (''expires_in'', JNum (int_dec (expires_in toks))), (''user'', user_json user)]) @ [chr 10]"
    and "sent_cookies (fst (Callback e repo prov rw r w)) = rw_cookies rw @ clear_cookie SessionCookieName #
      (if refresh_token toks = [] then []
       else [live_cookie RefreshTokenCookieName (refresh_token toks) (time_add (clock e (w_clock w')) (30 * 24 * hour))])"
    and "w_sent (snd (Callback e repo prov rw r w)) = w_sent w'"
proof -
  obtain rw2 w2 where rc: "set_refresh_cookie e toks (set_cookie (clear_cookie SessionCookieName) rw) w' = (rw2, w2)"
    by fastforce
  note k = set_refresh_cookie_pair [OF rc]
  have ck: "rw_cookies rw2 = rw_cookies rw @ clear_cookie SessionCookieName #
      (if refresh_token toks = [] then []
       else [live_cookie RefreshTokenCookieName (refresh_token toks) (time_add (clock e (w_clock w')) (30 * 24 * hour))])"
    using set_refresh_cookie_cookies [of e toks "set_cookie (clear_cookie SessionCookieName) rw" w'] by (simp add: rc)
  show "sent_status (fst (Callback e repo prov rw r w)) = 200"
    and "w_sent (snd (Callback e repo prov rw r w)) = w_sent w'"
    and "sent_cookies (fst (Callback e repo prov rw r w)) = rw_cookies rw @ clear_cookie SessionCookieName #
      (if refresh_token toks = [] then []
       else [live_cookie RefreshTokenCookieName (refresh_token toks) (time_add (clock e (w_clock w')) (30 * 24 * hour))])"
    using assms rc k ck by (simp_all add: Callback_def sent_status_def sent_cookies_def)
  show "rw_body (fst (Callback e repo prov rw r w)) = rw_body rw @
      json_print (JObj [(''access_token'', JStr (access_token toks)),
        (''expires_in'', JNum (int_dec (expires_in toks))), (''user'', user_json user)]) @ [chr 10]"
    using assms rc k by (simp add: Callback_def json_map_def)
qed

subsection \<open>A browser\<close>

text \<open>What a browser sends after the redirect: the cookie it was given, the state and a code.\<close>

definition cookie_plain :: "char \<Rightarrow> bool" where
  "cookie_plain c \<longleftrightarrow> cookie_byte c \<and> \<not> http_space c"

lemma trim_http_plain: "list_all (\<lambda>c. \<not> http_space c) s \<Longrightarrow> trim_http s = s"
proof -
  assume "list_all (\<lambda>c. \<not> http_space c) s"
  then have "dropWhile http_space s = s" "dropWhile http_space (rev s) = rev s"
    using hd_in_set [of "rev s"] by (auto simp: dropWhile_eq_self_iff list_all_iff)
  then show ?thesis by (simp add: trim_http_def)
qed

lemma request_cookie_single:
  assumes "rq_headers r = [(''Cookie'', name @ CHR ''='' # v)]" "list_all cookie_plain v"
    and "list_all cookie_plain name" "CHR ''='' \<notin> set name"
  shows "request_cookie r name = Some v"
proof -
  let ?p = "name @ CHR ''='' # v"
  have eq: "cookie_plain CHR ''=''" by (simp add: cookie_plain_def cookie_byte_def http_space_def)
  then have sp: "list_all (\<lambda>c. \<not> http_space c) ?p" "list_all (\<lambda>c. \<not> http_space c) name" "list_all cookie_byte v"
    using assms(2,3) by (auto simp: list_all_iff cookie_plain_def)
  have "CHR '';'' \<notin> set ?p" using assms(2,3) by (auto simp: list_all_iff cookie_plain_def cookie_byte_def)
  then have "go_split (CHR '';'') ?p = [?p]" by (rule go_split_no_sep)
  moreover have "cut (CHR ''='') ?p = (name, v)"
    using assms(4) by (auto simp: cut_def takeWhile_append dropWhile_append)
  moreover have "strip_quotes v = v"
    using sp(3) by (cases v) (auto simp: strip_quotes_def cookie_byte_def)
  ultimately show ?thesis
    using sp trim_http_plain [OF sp(1)] trim_http_plain [OF sp(2)]
    by (simp add: request_cookie_def cookie_pair_def assms(1) List.map_filter_simps Let_def)
qed

lemma hex_plain: "list_all cookie_plain (hex_encode s)"
proof -
  have "cookie_plain (hex_digit n)" if "n < 16" for n
    using that by (auto simp: cookie_plain_def cookie_byte_def http_space_def hex_digit_def chr_eq_iff)
  moreover have "ord c div 16 < 16" for c :: char
    using less_mult_imp_div_less [of "ord c" 16 16] ord_lt_256 [of c] by simp
  ultimately show ?thesis by (simp add: hex_encode_def list_all_iff)
qed

lemma uuid_plain: "list_all cookie_plain (fst (generateUUIDv4 e w))"
proof -
  have "cookie_plain CHR ''-''" by (simp add: cookie_plain_def cookie_byte_def http_space_def)
  then show ?thesis using hex_plain
    by (simp add: generateUUIDv4_def rand_read_def uuid_format_def hex_slice_def)
qed

lemma initiate_identifier:
  assumes "InitiateAuth e repo prov ctx redirect w = (Inr (url, sid), w')"
  shows "list_all cookie_plain sid"
proof -
  from assms obtain v v' where "generateUUIDv4 e v = (sid, v')"
    by (auto simp: InitiateAuth_def Let_def split: sum.splits prod.splits option.splits)
  with uuid_plain [of e v] show ?thesis by simp
qed

subsection \<open>Properties\<close>

text \<open>
  C8 (login_completes): a browser that was sent to the provider gets through. If it comes back
  within the window with its cookie, the state of the authorization URL and a code, the
  session being as the login left it, and the provider redeems the code for the verifier of
  the challenge in that URL and serves the profile, the answer is a 200 with the access token
  and the profile; the refresh token travels in its cookie alone, the session cookie is
  cleared, and the only requests sent are the code with that verifier and the profile's.
\<close>

theorem login_completes:
  assumes "Login e (SQLSessionRepository e) (Auth0Gateway_provider e g) writer_init r w = (rw1, w1)"
    and "sent_status rw1 = 302" "sent_cookies rw1 = [c]"
    and "sent_header rw1 ''Location'' = ''https://'' @ host_escape (gw_domain g) @ ''/authorize?'' @ q"
    and "request_cookie r2 SessionCookieName = Some (ck_value c)"
    and "query_get (rq_query r2) ''state'' = query_get q ''state''"
    and "query_get (rq_query r2) ''code'' = code" "code \<noteq> []"
    and "\<forall>u. pg_uuid e (ck_value c) = Some u \<longrightarrow> session_of w2 u = session_of w1 u"
    and "clock e (w_clock w2) \<le> pg_time e (time_add (clock e (Suc (w_clock w))) (5 * minute))"
    and "db_fault e (w_db w2) = None" "reachable_idp e g"
    and "redeems e g code (query_get q ''code_challenge'') toks user"
  shows "case Callback e (SQLSessionRepository e) (Auth0Gateway_provider e g) writer_init r2 w2 of (rw2, w3) \<Rightarrow>
     sent_status rw2 = 200 \<and>
     rw_body rw2 = json_print (JObj [(''access_token'', JStr (access_token toks)),
       (''expires_in'', JNum (int_dec (expires_in toks))), (''user'', user_json user)]) @ [chr 10] \<and>
     (\<exists>v. DeriveChallenge v = query_get q ''code_challenge'' \<and>
        w_sent w3 = w_sent w2 @ [code_request g code v, profile_request g (access_token toks)]) \<and>
     (\<exists>t. sent_cookies rw2 = clear_cookie SessionCookieName #
        (if refresh_token toks = [] then [] else [live_cookie RefreshTokenCookieName (refresh_token toks) t]))"
proof -
  let ?repo = "SQLSessionRepository e" and ?prov = "Auth0Gateway_provider e g"
  have fresh: "rw_sent writer_init = None" "rw_cookies writer_init = []" "rw_body writer_init = []"
    by (simp_all add: writer_init_def)
  obtain url sid w4 where i: "InitiateAuth e ?repo ?prov (rq_ctx r) (query_get (rq_query r) ''redirect_uri'') w = (Inr (url, sid), w4)"
    and l: "sent_header rw1 ''Location'' = url" "w_sessions w1 = w_sessions w4"
    "sent_cookies rw1 = rw_cookies writer_init @ [live_cookie SessionCookieName sid (time_add (clock e (w_clock w4)) (10 * minute))]"
    by (rule login_redirects [OF fresh(1) assms(1,2)])
  have sid: "ck_value c = sid" using assms(3) l(3) fresh(2) by (auto simp: live_cookie_def)
  obtain s q' where s: "pg_uuid e sid = Some (session_id s)" "session_of w4 (session_id s) = Some s"
    "length (session_state s) = 43" "expires_at s = pg_time e (time_add (clock e (Suc (w_clock w))) (5 * minute))"
    "url = ''https://'' @ host_escape (gw_domain g) @ ''/authorize?'' @ q'" "query_get q' ''state'' = session_state s"
    "query_get q' ''code_challenge'' = DeriveChallenge (code_verifier s)"
    using initiate_session [OF i] by blast
  have q: "q' = q" using assms(4) l(1) s(5) by simp
  have "session_of w1 = session_of w4" by (rule session_of_cong) (rule l(2))
  then have st: "session_of w2 (session_id s) = Some s" using assms(9) s(1,2) by (simp add: sid)
  have ex: "\<not> expires_at s < clock e (w_clock w2)" using assms(10) by (simp add: s(4))
  have ne: "session_state s \<noteq> []" using s(3) by auto
  have rd: "redeems e g code (DeriveChallenge (code_verifier s)) toks user" using assms(13) s(7) by (simp add: q)
  note cb = callback_redeems [OF s(1) st assms(11) ex assms(12) rd, of "rq_ctx r2"]
  obtain w5 where h: "HandleCallback e ?repo ?prov (rq_ctx r2) sid code (session_state s) w2 = (Inr (user, toks), w5)"
    using cb(1) by (metis prod.collapse)
  have ck: "request_cookie r2 SessionCookieName = Some sid" "query_get (rq_query r2) ''state'' = session_state s"
    using assms(5,6) s(6) by (simp_all add: sid q)
  note dn = callback_done [OF fresh(1) ck(1) assms(7,8) ck(2) ne h]
  obtain rw2 w3 where p: "Callback e ?repo ?prov writer_init r2 w2 = (rw2, w3)" by fastforce
  have "w_sent w3 = w_sent w2 @ [code_request g code (code_verifier s), profile_request g (access_token toks)]"
    using dn(4) cb(2) by (simp add: p h)
  moreover have "DeriveChallenge (code_verifier s) = query_get q ''code_challenge''" using s(7) by (simp add: q)
  ultimately show ?thesis using dn(1-3) unfolding p fresh by auto
qed

lemma Save_clock: "w_clock (snd (Save e ctx s w)) = w_clock w"
proof -
  have "w_clock (snd (db_exec e (insert_session e s) v)) = w_clock v" for v
    by (rule db_exec_sent) (simp_all add: statement_keeps)
  then show ?thesis by (simp add: Save_def Let_def split: sum.split prod.split) (metis log_at_simps(7) snd_conv)
qed

lemma initiate_clock:
  assumes "InitiateAuth e (SQLSessionRepository e) (Auth0Gateway_provider e g) ctx redirect w = (Inr (url, sid), w')"
  shows "w_clock w' = Suc (Suc (w_clock w))"
proof -
  have "w_clock v' = w_clock v" if "Save e ctx s v = (x, v')" for s v x v'
    using Save_clock [of e ctx s v] that by simp
  with assms show ?thesis
    by (auto simp: InitiateAuth_def SQLSessionRepository_def Auth0Gateway_provider_def GetAuthorizationURL_def Let_def
        GenerateState_def GenerateVerifier_def generateUUIDv4_def rand_read_def time_now_def
        split: sum.splits prod.splits option.splits)
qed

definition browser_back :: "cookie \<Rightarrow> string \<Rightarrow> string \<Rightarrow> request" where
  "browser_back c code q =
     \<lparr>rq_method = ''GET'', rq_path = ''/callback'', rq_raw_path = [],
      rq_query = values_encode [(''code'', code), (''state'', query_get q ''state'')],
      rq_headers = [(''Cookie'', ck_name c @ CHR ''='' # ck_value c)], rq_remote = ''10.0.0.1:5000'',
      rq_body = BodyData [], rq_ctx = background\<rparr>"

text \<open>A login and its callback against a provider that answers everything with an empty object.\<close>

theorem login_completes_witness:
  "\<exists>rw1 w1 c q.
     Login sample_env (SQLSessionRepository sample_env) (Auth0Gateway_provider sample_env sample_gateway) writer_init
       (login_request\<lparr>rq_query := ''redirect_uri=https://app''\<rparr>) world_init = (rw1, w1) \<and>
     sent_cookies rw1 = [c] \<and>
     sent_status (fst (Callback sample_env (SQLSessionRepository sample_env)
       (Auth0Gateway_provider sample_env sample_gateway) writer_init (browser_back c ''code'' q) w1)) = 200"
proof -
  let ?e = sample_env
  let ?repo = "SQLSessionRepository ?e" and ?prov = "Auth0Gateway_provider ?e sample_gateway"
  let ?r = "login_request\<lparr>rq_query := ''redirect_uri=https://app''\<rparr>"
  have q: "query_get (rq_query ?r) ''redirect_uri'' = ''https://app''" "rq_ctx ?r = background" by code_simp+
  obtain url sid w4 where i: "InitiateAuth ?e ?repo ?prov background ''https://app'' world_init = (Inr (url, sid), w4)"
    using sample_initiate by blast
  let ?c = "live_cookie SessionCookieName sid (time_add (clock ?e (w_clock w4)) (10 * minute))"
  obtain rw1 w1 where l: "Login ?e ?repo ?prov writer_init ?r world_init = (rw1, w1)" by fastforce
  with i q have lg: "sent_status rw1 = 302" "sent_cookies rw1 = [?c]" "sent_header rw1 ''Location'' = url"
    and w1: "w_clock w1 = Suc (w_clock w4)"
    by (auto simp: Login_def time_now_def sent_status_def sent_cookies_def sent_header_def writer_init_def header_get_def)
  obtain q where url: "url = ''https://'' @ host_escape (gw_domain sample_gateway) @ ''/authorize?'' @ q"
    using initiate_session [OF i] by blast
  let ?r2 = "browser_back ?c ''code'' q"
  have ck: "request_cookie ?r2 SessionCookieName = Some (ck_value ?c)"
    by (rule request_cookie_single)
       (use initiate_identifier [OF i] in \<open>simp_all add: browser_back_def live_cookie_def SessionCookieName_def
          cookie_plain_def cookie_byte_def http_space_def\<close>)
  have qs: "query_get (rq_query ?r2) ''state'' = query_get q ''state''" "query_get (rq_query ?r2) ''code'' = ''code''"
    by (simp_all add: browser_back_def query_get_encode)
  have clk: "clock ?e (w_clock w1) \<le> pg_time ?e (time_add (clock ?e (Suc (w_clock world_init))) (5 * minute))"
    using initiate_clock [OF i] w1
    by (simp add: sample_env_def world_init_def time_add_def minute_def second_def less_eq_instant_def)
  have u: "decode_body (BodyData ''{}'') = Some (JObj [])" by code_simp
  have "redeems ?e sample_gateway ''code'' ch token_pair_zero user_zero" for ch
    using u by (simp add: redeems_def sample_env_def token_answer_def userinfo_answer_def decode_struct_def)
  moreover have "reachable_idp ?e sample_gateway" by (simp add: reachable_idp_def sample_env_def)
  ultimately have "sent_status (fst (Callback ?e ?repo ?prov writer_init ?r2 w1)) = 200"
    using login_completes [OF l lg(1,2) _ ck qs, where ?w2.0 = w1] url clk lg(3) by (force simp: sample_env_def)
  with l lg(2) show ?thesis by blast
qed

end
