(* ===== verification/DeviceFlow.thy ===== *)
theory DeviceFlow
  imports BankService
begin

text \<open>
  The life of a device key across \<open>banking_service.go\<close> and the key repository: a device that
  was registered signs for its owner's transfers, whatever else happens to the table, until
  its key is deleted, and signs for none afterwards.
\<close>

subsection \<open>The table under other calls\<close>

lemma registered_row:
  assumes "RegisterDeviceKey e (SQLEnclaveKeyRepository e) (VerifyAttestation e) ctx uid key platform token w = (None, w')"
    and "CHR '' '' \<notin> set uid" "CHR '' '' \<notin> set (key_id key)"
  obtains row where "row \<in> set (w_keys w')" "key_user row = uid" "key_id row = key_id key"
    "public_key_pem row = public_key_pem key"
proof -
  obtain now row where row: "key_row e (key\<lparr>key_user := uid, registered_at := now\<rparr>) = Some row"
    "set (w_keys w') = insert row (set (w_keys w))"
    using bank.register_done [OF assms(1)] by blast
  have "key_user row = uid" "key_id row = key_id key"
    using row(1) assms(2,3) by (auto simp: key_row_def dest: pg_varchar_no_space split: option.splits if_splits)
  moreover have "public_key_pem row = public_key_pem key" using key_row_pem [OF row(1)] by simp
  ultimately show ?thesis using that row(2) by blast
qed

text \<open>Calls that store no key for a user leave a user without keys without keys.\<close>

lemma run_call_without:
  assumes "\<forall>k\<in>set (w_keys w). key_user k \<noteq> uid"
    and "\<And>ctx k. c = CallSave ctx k \<Longrightarrow> pg_varchar 255 (key_user k) \<noteq> Some uid"
  shows "\<forall>k\<in>set (w_keys (run_call e c w)). key_user k \<noteq> uid"
proof (cases c)
  case (CallSave ctx k)
  obtain r w' where s: "SaveKey e ctx k w = (r, w')" by fastforce
  have "key_row e k = Some row \<Longrightarrow> key_user row \<noteq> uid" for row
    using assms(2) [OF CallSave] by (auto simp: key_row_def split: option.splits if_splits)
  with SaveKey_keys(1) [OF s] assms(1) show ?thesis unfolding CallSave by (auto simp: s)
next
  case (CallDelete ctx kid)
  obtain r w' where d: "DeleteKey e ctx kid w = (r, w')" by fastforce
  from DeleteKey_keys(1) [OF d] assms(1) show ?thesis unfolding CallDelete by (auto simp: d)
qed (use assms(1) in simp_all)

lemma run_calls_without:
  "\<forall>k\<in>set (w_keys w). key_user k \<noteq> uid \<Longrightarrow>
   (\<And>ctx k. CallSave ctx k \<in> set cs \<Longrightarrow> pg_varchar 255 (key_user k) \<noteq> Some uid) \<Longrightarrow>
   \<forall>k\<in>set (w_keys (run_calls e cs w)). key_user k \<noteq> uid"
proof (induction cs arbitrary: w)
  case (Cons c cs)
  have "\<forall>k\<in>set (w_keys (run_call e c w)). key_user k \<noteq> uid"
    by (rule run_call_without [OF Cons.prems(1)]) (use Cons.prems(2) in auto)
  from Cons.IH [OF this] Cons.prems(2) show ?case unfolding run_calls_def fold_simps by (meson list.set_intros(2))
qed (simp add: run_calls_def)

subsection \<open>A sample\<close>

text \<open>A clock that stands still, a token, and a device that registers.\<close>

definition still_env :: env where
  "still_env = sample_env\<lparr>clock := (\<lambda>_. Instant 1700000000000000000)\<rparr>"

lemma still_times:
  "time_unix (time_add (clock still_env n) minute) = 1700000060" "time_unix (clock still_env n) = 1700000000"
  by (simp_all add: still_env_def time_unix_def time_add_def minute_def second_def)

definition sample_claims_of :: "string \<Rightarrow> jwt_claims" where
  "sample_claims_of uid =
     \<lparr>claims_sub = uid, claims_exp = 1700000060, claims_iat = 1700000000, claims_scopes = [''transfer:execute'']\<rparr>"

lemma still_token:
  assumes "valid_utf8 uid"
  obtains tok where "fst (GenerateInternalJWT still_env uid (Some [''transfer:execute'']) (shared_secret sample_config) minute world_init) = Inr tok"
    "\<And>w. fst (VerifyInternalJWT still_env tok (shared_secret sample_config) w) = Inr (sample_claims_of uid)"
proof -
  obtain tok w1 where g: "GenerateInternalJWT still_env uid (Some [''transfer:execute'']) (shared_secret sample_config) minute world_init =
      (Inr tok, w1)"
    by (simp add: GenerateInternalJWT_def time_now_def sample_config_def Let_def)
  have u: "list_all valid_utf8 [''transfer:execute'']" by (simp add: ascii_valid_utf8)
  have "fst (VerifyInternalJWT still_env tok (shared_secret sample_config) w) = Inr (sample_claims_of uid)" for w
    using verify_generated [OF g assms u, of still_env w] by (simp add: still_times sample_claims_of_def in_int64_def)
  with that g show ?thesis by simp
qed

lemma open_verifies:
  assumes "pem \<noteq> []"
  shows "VerifyEnclaveSignature e open_lib pem (Some (sample_payload\<lparr>tx_id := t\<rparr>)) = None"
proof -
  have "hex_decode ''00'' = Some [chr 0]" by code_simp
  then show ?thesis using assms
    by (simp add: VerifyEnclaveSignature_def open_lib_def sample_payload_def decode_signature_def signature_matches_def)
qed

lemma open_verifies_sample: "VerifyEnclaveSignature e open_lib (public_key_pem sample_key) (Some sample_payload) = None"
  using open_verifies [of "public_key_pem sample_key" e "tx_id sample_payload"] by (simp add: sample_key_def)

lemma still_registered:
  "\<exists>w1. RegisterDeviceKey still_env (SQLEnclaveKeyRepository still_env) (VerifyAttestation still_env) background
     ''alice'' sample_key ''android'' ''valid-mock-token'' world_init = (None, w1)"
proof -
  have "fst (RegisterDeviceKey still_env (SQLEnclaveKeyRepository still_env) (VerifyAttestation still_env) background
     ''alice'' sample_key ''android'' ''valid-mock-token'' world_init) = None" by code_simp
  then show ?thesis by (metis prod.collapse)
qed

subsection \<open>Properties\<close>

text \<open>
  C14 (enrolled_device): once a device is registered, and whatever calls the key repository gets
  after that short of a deletion of its identifier, a transfer that the device signed is
  executed for its owner under any internal token of theirs that carries the scope.
\<close>

theorem enrolled_device:
  assumes "RegisterDeviceKey e (SQLEnclaveKeyRepository e) (VerifyAttestation e) ctx uid key platform token w = (None, w1)"
    and "CHR '' '' \<notin> set uid" "CHR '' '' \<notin> set (key_id key)"
    and "\<forall>ctx. CallDelete ctx (key_id key) \<notin> set cs" "w2 = run_calls e cs w1"
    and "fst (VerifyInternalJWT e jwt (shared_secret cfg) w2) = Inr c" "claims_sub c = uid"
    and "''transfer:execute'' \<in> set (claims_scopes c)"
    and "VerifyEnclaveSignature e lib (public_key_pem key) (Some p) = None"
    and "db_fault e (w_db w2) = None" "pg_text uid"
  shows "fst (ExecuteIntranetTransfer e cfg lib (SQLEnclaveKeyRepository e) ctx' jwt p w2) = None"
proof -
  obtain row where row: "row \<in> set (w_keys w1)" "key_user row = uid" "key_id row = key_id key"
    "public_key_pem row = public_key_pem key"
    by (rule registered_row [OF assms(1-3)])
  then have "row \<in> set (w_keys w2)" using run_calls_keeps [OF row(1)] assms(4,5) by simp
  with row assms(6-11) show ?thesis unfolding execute_iff by auto
qed

theorem enrolled_device_witness:
  "\<exists>w1 tok.
     RegisterDeviceKey still_env (SQLEnclaveKeyRepository still_env) (VerifyAttestation still_env) background
       ''alice'' sample_key ''android'' ''valid-mock-token'' world_init = (None, w1) \<and>
     fst (ExecuteIntranetTransfer still_env sample_config open_lib (SQLEnclaveKeyRepository still_env) background tok
       sample_payload (run_calls still_env [CallDelete background ''dev2''] w1)) = None"
proof -
  obtain w1 where r: "RegisterDeviceKey still_env (SQLEnclaveKeyRepository still_env) (VerifyAttestation still_env) background
       ''alice'' sample_key ''android'' ''valid-mock-token'' world_init = (None, w1)"
    using still_registered by blast
  have u: "valid_utf8 ''alice''" "pg_text ''alice''" by (simp_all add: pg_text_def ascii_valid_utf8)
  obtain tok where t: "\<And>w. fst (VerifyInternalJWT still_env tok (shared_secret sample_config) w) = Inr (sample_claims_of ''alice'')"
    using still_token [OF u(1)] by blast
  have "fst (ExecuteIntranetTransfer still_env sample_config open_lib (SQLEnclaveKeyRepository still_env) background tok
       sample_payload (run_calls still_env [CallDelete background ''dev2''] w1)) = None"
    by (rule enrolled_device [OF r _ _ _ refl t _ _ open_verifies_sample _ u(2)])
       (simp_all add: sample_claims_of_def sample_key_def still_env_def sample_env_def)
  with r show ?thesis by blast
qed

text \<open>
  C15 (revoked_device): once the only device of a user is deleted, no transfer is executed for
  the user, whatever token and signature come with it, until a key is stored for the user
  again.
\<close>

theorem revoked_device:
  assumes "DeleteKey e ctx kid w = (None, w1)"
    and "\<forall>k\<in>set (w_keys w). key_user k = uid \<longrightarrow> key_id k = kid"
    and "\<forall>ctx k. CallSave ctx k \<in> set cs \<longrightarrow> pg_varchar 255 (key_user k) \<noteq> Some uid"
    and "w2 = run_calls e cs w1"
    and "fst (VerifyInternalJWT e jwt (shared_secret cfg) w2) = Inr c" "claims_sub c = uid"
  shows "\<exists>err. fst (ExecuteIntranetTransfer e cfg lib (SQLEnclaveKeyRepository e) ctx' jwt p w2) = Some err"
proof -
  have "\<forall>k\<in>set (w_keys w1). key_user k \<noteq> uid"
    using DeleteKey_keys(2) [OF assms(1) refl] assms(2) by auto
  then have "\<forall>k\<in>set (w_keys w2). key_user k \<noteq> uid"
    using run_calls_without assms(3) unfolding assms(4) by blast
  then have "fst (ExecuteIntranetTransfer e cfg lib (SQLEnclaveKeyRepository e) ctx' jwt p w2) \<noteq> None"
    using assms(5,6) unfolding execute_iff by auto
  then show ?thesis by blast
qed

theorem revoked_device_witness:
  "\<exists>tok err. fst (ExecuteIntranetTransfer still_env sample_config open_lib (SQLEnclaveKeyRepository still_env) background tok
     sample_payload (snd (DeleteKey still_env background ''dev1'' (world_init\<lparr>w_keys := [sample_key]\<rparr>)))) = Some err"
proof -
  have u: "valid_utf8 ''alice''" by (simp add: ascii_valid_utf8)
  obtain tok where t: "\<And>w. fst (VerifyInternalJWT still_env tok (shared_secret sample_config) w) = Inr (sample_claims_of ''alice'')"
    using still_token [OF u] by blast
  let ?w1 = "snd (DeleteKey still_env background ''dev1'' (world_init\<lparr>w_keys := [sample_key]\<rparr>))"
  have "fst (DeleteKey still_env background ''dev1'' (world_init\<lparr>w_keys := [sample_key]\<rparr>)) = None" by code_simp
  then have d: "DeleteKey still_env background ''dev1'' (world_init\<lparr>w_keys := [sample_key]\<rparr>) = (None, ?w1)"
    by (metis prod.collapse)
  have "\<exists>err. fst (ExecuteIntranetTransfer still_env sample_config open_lib (SQLEnclaveKeyRepository still_env) background tok
     sample_payload ?w1) = Some err"
    by (rule revoked_device [OF d, where cs = "[]" and uid = "''alice''", OF _ _ _ t])
       (simp_all add: sample_claims_of_def sample_key_def run_calls_def)
  then show ?thesis by blast
qed

lemma execute_keys:
  "w_keys (snd (ExecuteIntranetTransfer e cfg lib (SQLEnclaveKeyRepository e) ctx token p w)) = w_keys w"
proof -
  let ?w1 = "InfoContext ctx ''executing private VPC intranet ledger transfer'' [(''tx_id'', AStr (tx_id p))] w"
  obtain q w2 where v: "VerifyInternalJWT e token (shared_secret cfg) ?w1 = (q, w2)" by fastforce
  then have w2: "w_keys w2 = w_keys w" using Verify_keeps(1) [of e token "shared_secret cfg" ?w1] by simp
  have "w_keys v' = w_keys w" if "GetKeysByUserID e ctx uid w2 = (r, v')" for uid r v'
    using GetKeys_keeps(1) [of e ctx uid w2] that w2 by simp
  with v w2 show ?thesis
    by (cases q) (auto simp: ExecuteIntranetTransfer_def SQLEnclaveKeyRepository_def Let_def
        split: sum.split prod.split option.split)
qed

text \<open>
  C38 (transfer_replayed): nothing keeps an executed transfer from being executed again. As long
  as its token is accepted, the same signed transfer goes through once more, under any
  transfer identifier.
\<close>

theorem transfer_replayed:
  assumes "ExecuteIntranetTransfer e cfg lib (SQLEnclaveKeyRepository e) ctx jwt p w = (None, w1)"
    and "fst (VerifyInternalJWT e jwt (shared_secret cfg) w1) = fst (VerifyInternalJWT e jwt (shared_secret cfg) w)"
    and "db_fault e (w_db w1) = None"
  shows "fst (ExecuteIntranetTransfer e cfg lib (SQLEnclaveKeyRepository e) ctx' jwt (p\<lparr>tx_id := t\<rparr>) w1) = None"
proof -
  have "w_keys w1 = w_keys w" using execute_keys [of e cfg lib ctx jwt p w] assms(1) by simp
  moreover have same: "CanonicalTransferBytes (p\<lparr>tx_id := t\<rparr>) = CanonicalTransferBytes p"
    "signature (p\<lparr>tx_id := t\<rparr>) = signature p"
    by (simp_all add: CanonicalTransferBytes_def)
  have "VerifyEnclaveSignature e lib pem (Some (p\<lparr>tx_id := t\<rparr>)) = VerifyEnclaveSignature e lib pem (Some p)" for pem
    unfolding VerifyEnclaveSignature_def option.case same ..
  moreover have "fst (ExecuteIntranetTransfer e cfg lib (SQLEnclaveKeyRepository e) ctx jwt p w) = None" using assms(1) by simp
  ultimately show ?thesis using assms(2,3) unfolding execute_iff by auto
qed

theorem transfer_replayed_witness:
  "\<exists>tok w1. ExecuteIntranetTransfer still_env sample_config open_lib (SQLEnclaveKeyRepository still_env) background tok
       sample_payload (world_init\<lparr>w_keys := [sample_key]\<rparr>) = (None, w1) \<and>
     fst (ExecuteIntranetTransfer still_env sample_config open_lib (SQLEnclaveKeyRepository still_env) background tok
       (sample_payload\<lparr>tx_id := ''again''\<rparr>) w1) = None"
proof -
  have u: "valid_utf8 ''alice''" "pg_text ''alice''" by (simp_all add: pg_text_def ascii_valid_utf8)
  obtain tok where t: "\<And>w. fst (VerifyInternalJWT still_env tok (shared_secret sample_config) w) = Inr (sample_claims_of ''alice'')"
    using still_token [OF u(1)] by blast
  let ?w = "world_init\<lparr>w_keys := [sample_key]\<rparr>"
  have ok: "db_fault still_env n = None" for n by (simp add: still_env_def sample_env_def)
  have "fst (ExecuteIntranetTransfer still_env sample_config open_lib (SQLEnclaveKeyRepository still_env) background tok
      sample_payload ?w) = None"
    unfolding execute_iff t using u open_verifies_sample ok by (simp add: sample_claims_of_def) (simp add: sample_key_def)
  then obtain w1 where x: "ExecuteIntranetTransfer still_env sample_config open_lib (SQLEnclaveKeyRepository still_env)
      background tok sample_payload ?w = (None, w1)" by (metis prod.collapse)
  from transfer_replayed [OF x _ ok] t x show ?thesis by metis
qed

end
