(* ===== verification/PayloadTyping.thy ===== *)
theory PayloadTyping
  imports BankDomain World
begin

text \<open>
  The types of what is decoded: whatever bytes a body holds, the strings the JSON scanner reads
  out of them are valid UTF-8, so a transfer payload decoded from a body has the field types of
  \<open>domain/banking.go\<close>, and only a time zone of a day or more keeps it from being encoded again.
\<close>

subsection \<open>Strings\<close>

lemma valid_utf8_Nil [simp]: "valid_utf8 []"
  by (simp add: valid_utf8.simps)

lemma valid_utf8_append: "valid_utf8 s \<Longrightarrow> valid_utf8 t \<Longrightarrow> valid_utf8 (s @ t)"
proof (induction s rule: valid_utf8.induct)
  case (2 c s)
  let ?w = "utf8_width (c # s)"
  have w: "0 < ?w" and v: "valid_utf8 (drop (?w - 1) s)" using 2(2) by (simp_all add: valid_utf8.simps(2))
  have "?w \<le> Suc (length s)" using utf8_width_le [of "c # s"] by simp
  then have "drop (?w - 1) (s @ t) = drop (?w - 1) s @ t" by simp
  with 2(1) [OF v 2(3)] w utf8_width_append [OF w, of t] show ?case by (simp add: valid_utf8.simps(2))
qed simp

lemma valid_utf8_head: "0 < utf8_width s \<Longrightarrow> valid_utf8 (take (utf8_width s) s)"
proof -
  assume w: "0 < utf8_width s"
  then obtain c t where s: "s = c # t" by (cases s) (simp_all add: utf8_width.simps)
  then have tk: "take (utf8_width s) s = c # take (utf8_width s - 1) t" using w by (simp add: take_Cons')
  have "utf8_width (c # take (utf8_width s - 1) t) = utf8_width s" using utf8_width_take [OF w] unfolding tk .
  with w show ?thesis unfolding tk by (simp add: valid_utf8.simps)
qed

lemma valid_utf8_single: "ord c < (0x80 :: nat) \<Longrightarrow> valid_utf8 [c]"
  by (simp add: valid_utf8.simps utf8_width_ascii)

lemma valid_rune_error: "valid_utf8 rune_error"
  by (simp add: rune_error_def valid_utf8.simps utf8_width.simps utf8_multi_def cont_at_def utf8_cont_def second_ok_def)

lemma cont_byte: "utf8_cont (chr (0x80 + n mod 64))"
proof -
  have "n mod 64 < 64" by simp
  then have "0x80 + n mod 64 < 256" "0x80 + n mod 64 \<le> 191" by linarith+
  then show ?thesis by (simp add: utf8_cont_def)
qed

lemma ord_cont: "ord (chr (0x80 + n mod 64)) = 0x80 + n mod 64"
proof -
  have "n mod 64 < 64" by simp
  then have "0x80 + n mod 64 < 256" by linarith
  then show ?thesis by simp
qed

lemma utf8_widths:
  "0xC2 \<le> (ord c :: nat) \<Longrightarrow> ord c \<le> (0xDF :: nat) \<Longrightarrow> utf8_cont d \<Longrightarrow> utf8_width [c, d] = 2"
  "0xE0 \<le> (ord c :: nat) \<Longrightarrow> ord c \<le> (0xEF :: nat) \<Longrightarrow> utf8_cont d \<Longrightarrow> utf8_cont e \<Longrightarrow>
     second_ok (ord c) [d, e] \<Longrightarrow> utf8_width [c, d, e] = 3"
  "0xF0 \<le> (ord c :: nat) \<Longrightarrow> ord c \<le> (0xF4 :: nat) \<Longrightarrow> utf8_cont d \<Longrightarrow> utf8_cont e \<Longrightarrow> utf8_cont f \<Longrightarrow>
     second_ok (ord c) [d, e, f] \<Longrightarrow> utf8_width [c, d, e, f] = 4"
  by (simp_all add: utf8_width.simps utf8_multi_def cont_at_def)

lemma div_mod_split: "(n :: nat) div 64 = 64 * (n div 4096) + n div 64 mod 64"
proof -
  have "n div 4096 = n div 64 div 64" by (simp add: div_mult2_eq [symmetric])
  then show ?thesis by simp
qed

lemma div_mod_split': "(n :: nat) div 4096 = 64 * (n div 262144) + n div 4096 mod 64"
proof -
  have "n div 262144 = n div 4096 div 64" by (simp add: div_mult2_eq [symmetric])
  then show ?thesis by simp
qed

lemma utf8_encode_width:
  assumes "n < 0xD800 \<or> 0xDFFF < n" "n \<le> 0x10FFFF"
  shows "utf8_width (utf8_encode n) = length (utf8_encode n)"
proof -
  consider "n < 0x80" | "0x80 \<le> n" "n < 0x800" | "0x800 \<le> n" "n < 0x10000" | "0x10000 \<le> n" by linarith
  then show "utf8_width (utf8_encode n) = length (utf8_encode n)"
  proof cases
    case 1
    then show ?thesis by (simp add: utf8_encode_def utf8_width_ascii)
  next
    case 2
    define a where "a = n div 64"
    have a: "2 \<le> a" "a \<le> 31" using 2 div_le_mono [of 128 n 64] div_le_mono [of n 2047 64] by (simp_all add: a_def)
    have "utf8_width [chr (0xC0 + a), chr (0x80 + n mod 64)] = 2"
      by (rule utf8_widths(1) [OF _ _ cont_byte]) (use a in simp_all)
    with 2 show ?thesis by (simp add: utf8_encode_def a_def)
  next
    case 3
    define a b where "a = n div 4096" and "b = n div 64 mod 64"
    have m: "n div 64 = 64 * a + b" "b < 64" unfolding a_def b_def by (rule div_mod_split, simp)
    have h: "32 \<le> n div 64" "n div 64 \<le> 1023" using 3 div_le_mono [of 2048 n 64] div_le_mono [of n 65535 64] by simp_all
    have s: "n div 64 \<le> 863 \<or> 896 \<le> n div 64"
      using assms(1) div_le_mono [of n 55295 64] div_le_mono [of 57344 n 64] by auto
    have a: "a < 16" "a = 0 \<longrightarrow> 32 \<le> b" "a = 13 \<longrightarrow> b \<le> 31" using m h s by linarith+
    have ob: "ord (chr (0x80 + b)) = 0x80 + b" unfolding b_def by (rule ord_cont)
    have cb: "utf8_cont (chr (0x80 + b))" unfolding b_def by (rule cont_byte)
    have "utf8_width [chr (0xE0 + a), chr (0x80 + b), chr (0x80 + n mod 64)] = 3"
      by (rule utf8_widths(2) [OF _ _ cb cont_byte]) (use a ob in \<open>simp_all add: second_ok_def\<close>)
    with 3 show ?thesis by (simp add: utf8_encode_def a_def b_def)
  next
    case 4
    define a b where "a = n div 262144" and "b = n div 4096 mod 64"
    have m: "n div 4096 = 64 * a + b" "b < 64" unfolding a_def b_def by (rule div_mod_split', simp)
    have h: "16 \<le> n div 4096" "n div 4096 \<le> 271"
      using 4 assms(2) div_le_mono [of 65536 n 4096] div_le_mono [of n "0x10FFFF" 4096] by simp_all
    have a: "a \<le> 4" "a = 0 \<longrightarrow> 16 \<le> b" "a = 4 \<longrightarrow> b \<le> 15" using m h by linarith+
    have ob: "ord (chr (0x80 + b)) = 0x80 + b" unfolding b_def by (rule ord_cont)
    have cb: "utf8_cont (chr (0x80 + b))" unfolding b_def by (rule cont_byte)
    have "utf8_width [chr (0xF0 + a), chr (0x80 + b), chr (0x80 + n div 64 mod 64), chr (0x80 + n mod 64)] = 4"
      by (rule utf8_widths(3) [OF _ _ cb cont_byte cont_byte]) (use a ob in \<open>simp_all add: second_ok_def\<close>)
    with 4 show ?thesis by (simp add: utf8_encode_def a_def b_def)
  qed
qed

lemma valid_utf8_encode: "n < 0xD800 \<or> 0xDFFF < n \<Longrightarrow> n \<le> 0x10FFFF \<Longrightarrow> valid_utf8 (utf8_encode n)"
  using valid_utf8_head [of "utf8_encode n"] utf8_encode_width [of n] by (simp add: utf8_encode_def split: if_splits)

lemma hex_val_less: "hex_val c = Some v \<Longrightarrow> v < 16"
  by (auto simp: hex_val_def Let_def split: if_splits)

lemma hex4_less: "hex4 s = Some (n, t) \<Longrightarrow> n < 65536"
  by (auto simp: hex4_def split: list.splits option.splits dest!: hex_val_less)

lemma unicode_escape_valid:
  assumes "unicode_escape s = Some (v, t)"
  shows "valid_utf8 v"
proof -
  obtain r u where h: "hex4 s = Some (r, u)" using assms by (auto simp: unicode_escape_def split: option.splits)
  consider "v = rune_error" | "v = utf8_encode r" "r < 0xD800 \<or> 0xDFFF < r"
    | n where "v = utf8_encode n" "0xDFFF < n" "n \<le> 0x10FFFF"
  proof -
    have low: "(r - 0xD800) * 0x400 + (r2 - 0xDC00) + 0x10000 \<le> 0x10FFFF" if "r < 0xDC00" "r2 \<le> 0xDFFF" for r2
    proof -
      have "(r - 0xD800) * 0x400 + (r2 - 0xDC00) + 0x10000 \<le> 1023 * 0x400 + 1023 + 0x10000"
        by (intro add_mono mult_mono) (use that in auto)
      then show ?thesis by simp
    qed
    from assms h that low show ?thesis
      by (simp add: unicode_escape_def split: if_split_asm option.split_asm prod.split_asm) fastforce+
  qed
  then show ?thesis
  proof cases
    case 2
    with hex4_less [OF h] show ?thesis by (simp add: valid_utf8_encode)
  next
    case (3 n)
    then show ?thesis by (simp add: valid_utf8_encode)
  qed (simp add: valid_rune_error)
qed

lemma simple_escape_ascii: "simple_escape c = Some d \<Longrightarrow> ord d < (0x80 :: nat)"
  by (auto simp: simple_escape_def split: if_splits)

lemma json_char_valid: "json_char c s = Some (v, t) \<Longrightarrow> valid_utf8 v"
  by (auto simp: json_char_def Let_def valid_rune_error valid_utf8_single valid_utf8_head
      dest: unicode_escape_valid simple_escape_ascii split: if_split_asm list.split_asm)

lemma json_unquote_valid: "json_unquote s = Some (v, r) \<Longrightarrow> valid_utf8 v"
proof (induction s arbitrary: v rule: json_unquote.induct)
  case (2 c s)
  show ?case
  proof (cases "c = quote_char")
    case False
    with 2(2) obtain a t b where a: "json_char c s = Some (a, t)" "json_unquote t = Some (b, r)" "v = a @ b"
      by (auto split: option.splits)
    from 2(1) [OF False a(1) refl a(2)] json_char_valid [OF a(1)] show ?thesis
      unfolding a(3) by (simp add: valid_utf8_append)
  qed (use 2(2) in simp)
qed simp

subsection \<open>Values\<close>

text \<open>Values all of whose strings, keys included, are text.\<close>

fun json_text :: "json \<Rightarrow> bool" where
  "json_text (JStr s) = valid_utf8 s"
| "json_text (JArr vs) = (\<forall>v\<in>set vs. json_text v)"
| "json_text (JObj kvs) = (\<forall>(k, v)\<in>set kvs. valid_utf8 k \<and> json_text v)"
| "json_text _ = True"

fun tok_text :: "tok \<Rightarrow> bool" where
  "tok_text (TStr s) = valid_utf8 s"
| "tok_text (TLit v) = json_text v"
| "tok_text _ = True"

fun frame_text :: "frame \<Rightarrow> bool" where
  "frame_text (FArr vs) = (\<forall>v\<in>set vs. json_text v)"
| "frame_text (FObj kvs k) = (valid_utf8 k \<and> (\<forall>(k, v)\<in>set kvs. valid_utf8 k \<and> json_text v))"

fun res_text :: "jres \<Rightarrow> bool" where
  "res_text (JDone v) = json_text v"
| "res_text (JNext m st) = list_all frame_text st"
| "res_text JErr = True"

lemma next_tok_text: "next_tok s = Some (t, r) \<Longrightarrow> tok_text t"
  by (auto simp: next_tok_def tok_at_def split: list.split_asm if_split_asm dest: json_unquote_valid)

lemma frame_text_init: "frame_text (FArr [])" "frame_text (FObj [] [])"
  by simp_all

lemma jcomplete_text: "json_text v \<Longrightarrow> list_all frame_text st \<Longrightarrow> res_text (jcomplete v st)"
  by (cases "(v, st)" rule: jcomplete.cases) auto

lemma jopen_text: "frame_text f \<Longrightarrow> list_all frame_text st \<Longrightarrow> res_text (jopen f m st)"
  by (simp add: jopen_def)

lemma jopen_init_text [simp]:
  "list_all frame_text st \<Longrightarrow> res_text (jopen (FArr []) m st)"
  "list_all frame_text st \<Longrightarrow> res_text (jopen (FObj [] []) m st)"
  by (simp_all add: jopen_text frame_text_init)

lemma jvalue_text: "tok_text t \<Longrightarrow> list_all frame_text st \<Longrightarrow> res_text (jvalue st t)"
  by (cases t) (simp_all add: jcomplete_text jopen_text frame_text_init)

lemma jstep_text: "tok_text t \<Longrightarrow> list_all frame_text st \<Longrightarrow> res_text (jstep m st t)"
  by (cases "(m, st, t)" rule: jstep.cases)
     (auto simp: jvalue_text jcomplete_text frame_text_init intro: jopen_text)

lemma jrun_text: "list_all frame_text st \<Longrightarrow> jrun m st s = Some (v, r) \<Longrightarrow> json_text v"
proof (induction m st s rule: jrun.induct)
  case (1 m st s)
  obtain t u where t: "next_tok s = Some (t, u)" using 1(3) by (auto simp: jrun.simps [of m st s] split: option.splits)
  note res = jstep_text [OF next_tok_text [OF t] 1(2), of m]
  from 1(3) t have fin: "jfin (jstep m st t) u = Some (v, r)" by (simp add: jrun_tok)
  show ?case
  proof (cases "jstep m st t")
    case (JNext m' st')
    with res have "list_all frame_text st'" by simp
    from 1(1) [OF t refl JNext this] fin JNext show ?thesis by simp
  qed (use fin res in auto)
qed

lemma json_decode_text: "json_decode s = Some j \<Longrightarrow> json_text j"
  by (auto simp: json_decode_def dest: jrun_text [rotated])

lemma decode_body_text: "decode_body b = Some j \<Longrightarrow> json_text j"
  by (auto simp: decode_body_def dest: json_decode_text jrun_text [rotated] split: body.splits option.splits if_splits)

subsection \<open>Payloads\<close>

lemma dec_string_text: "json_text v \<Longrightarrow> valid_utf8 s0 \<Longrightarrow> dec_string s0 v = Some s \<Longrightarrow> valid_utf8 s"
  by (auto simp: dec_string_def split: json.splits)

lemma parse_int64_range: "parse_int64 s = Some i \<Longrightarrow> in_int64 i"
  by (auto simp: parse_int64_def Let_def split: if_splits)

lemma dec_int64_range: "in_int64 i0 \<Longrightarrow> dec_int64 i0 v = Some i \<Longrightarrow> in_int64 i"
  by (auto simp: dec_int64_def split: json.splits dest: parse_int64_range)

text \<open>A time that was parsed is a real date and time; only its zone may be out of range.\<close>

definition civil_parsed :: "civil \<Rightarrow> bool" where
  "civil_parsed t \<longleftrightarrow> civil_ok (t\<lparr>coffset := 0\<rparr>)"

lemma digits_val_less: "list_all is_digit s \<Longrightarrow> digits_val s < 10 ^ length s"
proof (induction s rule: rev_induct)
  case (snoc c s)
  have "is_digit c" using snoc.prems by simp
  then have "digit_val c \<le> 9" unfolding digit_val_def is_digit_def by linarith
  with snoc show ?case by (simp add: digits_val_snoc)
qed (simp add: digits_val_def)

lemma take_num_less: "take_num n s = Some (v, t) \<Longrightarrow> v < 10 ^ n"
  using digits_val_less [of "take n s"] by (auto simp: take_num_def split: if_splits)

lemma take_fraction_less: "fst (take_fraction s) < 1000000000"
proof -
  have "digits_val (take 9 (takeWhile is_digit t @ replicate 9 (CHR ''0''))) < 10 ^ 9" for t
  proof -
    have "list_all is_digit (takeWhile is_digit t @ replicate 9 (CHR ''0''))"
      by (auto simp: list_all_iff is_digit_def dest: set_takeWhileD)
    then have "list_all is_digit (take 9 (takeWhile is_digit t @ replicate 9 (CHR ''0'')))"
      by (auto simp: list_all_iff dest: in_set_takeD)
    from digits_val_less [OF this]
    have "digits_val (take 9 (takeWhile is_digit t @ replicate 9 (CHR ''0''))) <
        10 ^ length (take 9 (takeWhile is_digit t @ replicate 9 (CHR ''0'')))" .
    also have "length (take 9 (takeWhile is_digit t @ replicate 9 (CHR ''0''))) = 9"
      unfolding length_take length_append length_replicate by simp
    finally show ?thesis .
  qed
  then show ?thesis by (auto simp: take_fraction_def split: list.split)
qed

lemma parse_rfc3339_parsed: "parse_rfc3339 s = Some t \<Longrightarrow> civil_parsed t"
proof -
  assume t: "parse_rfc3339 s = Some t"
  obtain y mo d s1 where d: "parse_date s = Some ((y, mo, d), s1)"
    using t by (auto simp: parse_rfc3339_def split: option.splits)
  obtain s2 h m sec ns s3 where c: "parse_clock s2 = Some ((h, m, sec, ns), s3)"
    "t = \<lparr>cyear = y, cmonth = mo, cday = d, chour = h, cmin = m, csec = sec, cnano = ns, coffset = coffset t\<rparr>"
    using t d by (auto simp: parse_rfc3339_def split: option.splits)
  have "y < 10 ^ 4" using d take_num_less [of 4] unfolding parse_date_def by (auto split: option.splits if_splits simp del: power_numeral)
  moreover have "1 \<le> mo" "mo \<le> 12" "1 \<le> d" "d \<le> days_in y mo"
    using d by (auto simp: parse_date_def split: option.splits if_splits)
  moreover have "h < 24" "m < 60" "sec < 60" "ns < 1000000000"
    using c(1) take_fraction_less by (auto simp: parse_clock_def split: option.splits if_splits)
  ultimately show ?thesis by (subst c(2)) (simp add: civil_parsed_def civil_ok_def)
qed

text \<open>The fields of a payload have their types.\<close>

definition payload_parsed :: "transfer_payload \<Rightarrow> bool" where
  "payload_parsed p \<longleftrightarrow>
     valid_utf8 (tx_id p) \<and> valid_utf8 (sender_account p) \<and> valid_utf8 (receiver_account p) \<and>
     valid_utf8 (currency p) \<and> valid_utf8 (signature p) \<and> in_int64 (amount_cents p) \<and>
     civil_parsed (timestamp p)"

lemma payload_zero_parsed: "payload_parsed payload_zero"
  by (simp add: payload_parsed_def payload_zero_def in_int64_def civil_parsed_def civil_ok_def civil_zero_def days_in_def)

lemma payload_field_parsed:
  assumes "payload_parsed p" "json_text v" "payload_field p k v = Some q"
  shows "payload_parsed q"
proof -
  have t: "dec_time (timestamp p) v = Some t \<Longrightarrow> civil_parsed t" for t
    using assms(1) by (auto simp: dec_time_def payload_parsed_def split: json.splits dest: parse_rfc3339_parsed)
  from assms t show ?thesis
    by (auto simp: payload_field_def payload_parsed_def dest: dec_string_text dec_int64_range split: if_split_asm)
qed

lemma decode_members_parsed:
  "payload_parsed p \<Longrightarrow> \<forall>(k, v)\<in>set kvs. json_text v \<Longrightarrow> decode_members payload_field p kvs = Some q \<Longrightarrow>
     payload_parsed q"
proof (induction kvs arbitrary: p)
  case (Cons kv kvs)
  obtain k v where kv: "kv = (k, v)" by fastforce
  with Cons.prems obtain p' where p': "payload_field p k v = Some p'" "decode_members payload_field p' kvs = Some q"
    by (auto split: option.splits)
  from Cons.prems kv have "payload_parsed p'" by (intro payload_field_parsed [OF _ _ p'(1)]) auto
  from Cons.IH [OF this _ p'(2)] Cons.prems show ?case by simp
qed simp

lemma payload_of_json_parsed: "json_text j \<Longrightarrow> payload_of_json j = Some p \<Longrightarrow> payload_parsed p"
  using payload_zero_parsed
  by (auto simp: payload_of_json_def decode_struct_def split: json.splits intro: decode_members_parsed)

lemma payload_parsed_ok: "payload_parsed p \<Longrightarrow> \<bar>coffset (timestamp p)\<bar> < 24 * 60 \<Longrightarrow> payload_ok p"
  by (simp add: payload_parsed_def payload_ok_def civil_parsed_def civil_ok_def)

lemma payload_marshal_parsed:
  assumes "payload_parsed p"
  shows "payload_marshal p \<noteq> None \<longleftrightarrow> payload_ok p"
proof
  assume "payload_marshal p \<noteq> None"
  then have "\<bar>coffset (timestamp p)\<bar> < 24 * 60"
    by (auto simp: payload_marshal_def payload_json_def civil_marshal_def split: if_splits)
  with payload_parsed_ok [OF assms] show "payload_ok p" .
next
  assume "payload_ok p"
  then show "payload_marshal p \<noteq> None" using payload_json_total [of p] by (auto simp: payload_marshal_def)
qed

text \<open>
  C12 (payload_typed): whatever bytes arrive, a payload decoded from them is well typed: its
  strings are valid UTF-8, its amount fits 64 bits, its time is a real date and time. It
  can be encoded for the intranet exactly if its zone is below a day, and the encoding is then
  decoded to the very same payload.
\<close>

theorem payload_typed:
  assumes "decode_body b = Some j" "payload_of_json j = Some p"
  shows "payload_parsed p \<and>
     (case payload_marshal p of
        None \<Rightarrow> 24 * 60 \<le> \<bar>coffset (timestamp p)\<bar>
      | Some bytes \<Rightarrow> \<bar>coffset (timestamp p)\<bar> < 24 * 60 \<and> Option.bind (json_unmarshal bytes) payload_of_json = Some p)"
proof -
  have p: "payload_parsed p" by (rule payload_of_json_parsed [OF decode_body_text [OF assms(1)] assms(2)])
  show ?thesis
  proof (cases "payload_marshal p")
    case None
    with p payload_marshal_parsed [OF p] payload_parsed_ok [OF p] show ?thesis by fastforce
  next
    case (Some bytes)
    with payload_marshal_parsed [OF p] have ok: "payload_ok p" by simp
    then have "\<bar>coffset (timestamp p)\<bar> < 24 * 60" by (simp add: payload_ok_def civil_ok_def)
    with p Some payload_marshal_roundtrip [OF ok] show ?thesis by auto
  qed
qed

theorem payload_typed_witness:
  "payload_parsed (payload_zero\<lparr>tx_id := ''t'', amount_cents := 5\<rparr>) \<and>
   payload_marshal (payload_zero\<lparr>tx_id := ''t'', amount_cents := 5\<rparr>) \<noteq> None"
proof -
  let ?j = "JObj [(''id'', JStr ''t''), (''amount_cents'', JNum (int_dec 5))]"
  have "json_ok ?j" by (auto simp: ascii_valid_utf8)
  then have d: "decode_body (BodyData (json_print ?j)) = Some ?j"
    using json_decode_print [of ?j "[]"] by (simp add: decode_body_def max_depth_def del: json_print.simps)
  have "payload_of_json ?j = Some (payload_zero\<lparr>tx_id := ''t'', amount_cents := 5\<rparr>)"
    by (simp add: payload_of_json_def decode_struct_def payload_field_simps in_int64_def)
  from payload_typed [OF d this] show ?thesis by (auto simp: payload_zero_def civil_zero_def split: option.splits)
qed

end
