(* ===== verification/TransferFlow.thy ===== *)
theory TransferFlow
  imports BankHandler DeviceFlow PayloadTyping
begin

text \<open>
  A transfer on its way from the edge to the ledger: the chain of middlewares and the handler of
  the edge, the request between the two servers, and the chain and the handler of the intranet.
\<close>

subsection \<open>The two servers\<close>

text \<open>The JWT middleware lets a request through as a subject's; the policy lets it through.\<close>

definition jwt_admits :: "(handler \<Rightarrow> handler) \<Rightarrow> writer \<Rightarrow> request \<Rightarrow> world \<Rightarrow> string \<Rightarrow> bool" where
  "jwt_admits jwt rw r w subj \<longleftrightarrow> (\<forall>h. jwt h rw r w = h rw (with_claims subj r) w)"

definition policy_passes :: "request \<Rightarrow> bool" where
  "policy_passes r \<longleftrightarrow>
     policy_allows (rq_path r) (rq_method r) (claims_subject (extractJWTClaims r))
       (claims_scope_list (extractJWTClaims r)) (fst (policy_body r))"

text \<open>The servers with the policy of the repository and the adapters of the source.\<close>

abbreviation edge_server ::
  "env \<Rightarrow> bank_config \<Rightarrow> (route list \<Rightarrow> handler) \<Rightarrow> 'q opa_lib \<Rightarrow> 'q opa_evaluator \<Rightarrow> (handler \<Rightarrow> handler) \<Rightarrow> handler" where
  "edge_server e cfg mux opa ev jwt \<equiv>
     EdgeRoutes e cfg (SQLEnclaveKeyRepository e) (VerifyAttestation e) mux (Some (PolicyMiddleware_Handler opa ev)) jwt"

abbreviation private_server ::
  "env \<Rightarrow> bank_config \<Rightarrow> 'k crypto_lib \<Rightarrow> (route list \<Rightarrow> handler) \<Rightarrow> 'q opa_lib \<Rightarrow> 'q opa_evaluator \<Rightarrow> handler" where
  "private_server e cfg lib mux opa ev \<equiv>
     PrivateRoutes e cfg lib (SQLEnclaveKeyRepository e) mux (Some (PolicyMiddleware_Handler opa ev))"

subsection \<open>The intranet\<close>

text \<open>The request of the edge as the intranet's server reads it.\<close>

definition arrives :: "string \<Rightarrow> out_request \<Rightarrow> request" where
  "arrives remote q =
     \<lparr>rq_method = oq_method q, rq_path = ''/private/transfers'', rq_raw_path = [], rq_query = [],
      rq_headers = oq_headers q, rq_remote = remote, rq_body = BodyData (oq_body q), rq_ctx = background\<rparr>"

lemma arrives_simps:
  "rq_method (arrives a (transfer_request cfg token bytes)) = ''POST''"
  "rq_path (arrives a (transfer_request cfg token bytes)) = ''/private/transfers''"
  "rq_raw_path (arrives a (transfer_request cfg token bytes)) = []"
  "rq_body (arrives a (transfer_request cfg token bytes)) = BodyData bytes"
  "header_get (rq_headers (arrives a (transfer_request cfg token bytes))) ''Authorization'' = ''Bearer '' @ token"
  by (simp_all add: arrives_def transfer_request_def header_get_def)

lemma policy_body_snd: "rq_body r = BodyData s \<Longrightarrow> snd (policy_body r) = r"
  using read_body_data [of r s] by (simp add: policy_body_reads)

text \<open>The policy engine reads subject and scopes out of a token of the internal form.\<close>

lemma internal_token_scopes:
  assumes gen: "fst (GenerateInternalJWT e uid (Some ss) secret ttl w) = Inr token"
    and utf8: "valid_utf8 uid" "list_all valid_utf8 ss"
    and rng: "in_int64 (time_unix (time_add (clock e (w_clock w)) ttl))" "in_int64 (time_unix (clock e (w_clock w)))"
    and auth: "header_get (rq_headers r) ''Authorization'' = ''Bearer '' @ token"
  shows "claims_scope_list (extractJWTClaims r) = ss" "claims_subject (extractJWTClaims r) = uid"
proof -
  let ?x = "time_unix (time_add (clock e (w_clock w)) ttl)" and ?i = "time_unix (clock e (w_clock w))"
  let ?j = "claims_json uid ?x ?i (Some ss)"
  obtain w1 where "GenerateInternalJWT e uid (Some ss) secret ttl w = (Inr token, w1)"
    using gen by (metis prod.collapse)
  then obtain h p where tok: "token = h @ ''.'' @ p @ ''.'' @ jwt_signature secret (h @ ''.'' @ p)"
    and h: "h = raw_url_encode jwt_header" and p: "p = raw_url_encode (json_print ?j)"
    by (rule generate_form)
  have "CHR ''.'' \<notin> set h" "CHR ''.'' \<notin> set p" "CHR ''.'' \<notin> set (jwt_signature secret (h @ ''.'' @ p))"
    by (simp_all add: h p jwt_signature_def)
  then have sp: "go_split (CHR ''.'') token = [h, p, jwt_signature secret (h @ ''.'' @ p)]"
    unfolding tok using go_split_three by simp
  have dec: "raw_url_decode p = Some (json_print ?j)" by (simp add: p)
  obtain y z where f: "float64 (of_int ?x) = Some y" "float64 (of_int ?i) = Some z"
    using float64_int64 [OF rng(1)] float64_int64 [OF rng(2)] by blast
  let ?m = "[(''sub'', DStr uid), (''exp'', DNum y), (''iat'', DNum z), (''scopes'', DArr (map DStr ss))]"
  have um: "unmarshal_map (json_print ?j) = (Some ?m, True)"
    using claims_unmarshal [OF utf8, of ?x ?i] f
    by (simp add: unmarshal_map_def claims_json_def list_all_iff)
  have "extractJWTClaims r = Some ?m"
    using auth sp dec um by (simp add: extractJWTClaims_def has_prefix_def trim_prefix_def)
  moreover have "collect_strings (map DStr xs) acc = acc @ xs" for xs acc
    by (induction xs arbitrary: acc) auto
  ultimately show "claims_scope_list (extractJWTClaims r) = ss" "claims_subject (extractJWTClaims r) = uid"
    by (simp_all add: claims_scope_list_def claims_subject_def dyn_get_def)
qed

lemma private_handler_status:
  assumes "header_get (rq_headers r) ''Authorization'' = ''Bearer '' @ token" "rw_sent rw = None"
    and "Option.bind (decode_body (rq_body r)) payload_of_json = Some p"
  shows "sent_status (fst (ExecutePrivateTransfer e cfg lib repo rw r w)) =
     (if fst (ExecuteIntranetTransfer e cfg lib repo (rq_ctx r) token p w) = None then 200 else 401)"
  using assms
  by (auto simp: ExecutePrivateTransfer_def has_prefix_def trim_prefix_def sent_status_def writeError_sent
      split: option.split prod.split)

lemma private_chain:
  assumes "mux_ok mux" "runs_policy opa ev" "contract_met e r" "rq_raw_path r = []"
    and "rq_path r = ''/private/transfers''" "rq_method r = ''POST''" "rq_body r = BodyData s"
    and "''transfer:execute'' \<in> set (claims_scope_list (extractJWTClaims r))"
  shows "sent_status (fst (PrivateRoutes e cfg lib repo mux (Some (PolicyMiddleware_Handler opa ev)) rw r w)) =
     sent_status (fst (ExecutePrivateTransfer e cfg lib repo (push_cell rw) r (snd (time_now e w))))"
proof -
  let ?h = "ExecutePrivateTransfer e cfg lib repo"
  let ?routes = "[(''POST'', ''/private/transfers'', ?h)]"
  have "route_for ?routes r = Some ?h" using assms(5,6) by (simp add: route_for_def)
  then have "mux ?routes v r u = ?h v r u" for v u
    using mux_route(1) [OF assms(1,4), of ?routes v u] by simp
  then have "PolicyMiddleware_Handler opa ev (mux ?routes) v r u = ?h v r u" for v u
    using handler_decides [OF assms(2), of r "mux ?routes" v u] assms(5,6,8) policy_body_snd [OF assms(7)]
    by (simp add: policy_allows_def)
  then show ?thesis
    by (simp add: PrivateRoutes_def WithOPAMiddleware_def Metrics_status schema_pass [OF assms(3)])
qed

lemma contract_private:
  assumes "rq_path r = ''/private/transfers''" "body_json r = Some j" "payload_of_json j = Some p" "transfer_contract p"
  shows "contract_met e r"
  using assms by (simp add: contract_met_def)

lemma end_to_end:
  assumes "fst (GenerateInternalJWT e uid (Some [''transfer:execute'']) (shared_secret cfg) minute w) = Inr token"
    and "payload_marshal p = Some bytes" "payload_ok p" "transfer_contract p" "pg_text uid"
    and "in_int64 (time_unix (time_add (clock e (w_clock w)) minute))" "in_int64 (time_unix (clock e (w_clock w)))"
    and "\<forall>n. time_unix (clock e' n) \<le> time_unix (time_add (clock e (w_clock w)) minute)"
    and "shared_secret cfg' = shared_secret cfg" "db_fault e' (w_db w') = None"
    and "mux_ok mux" "runs_policy opa ev"
  shows "sent_status (fst (PrivateRoutes e' cfg' lib (SQLEnclaveKeyRepository e') mux
       (Some (PolicyMiddleware_Handler opa ev)) writer_init (arrives remote (transfer_request cfg token bytes)) w')) =
     (if \<exists>k. k \<in> set (w_keys w') \<and> key_user k = uid \<and>
         VerifyEnclaveSignature e' lib (public_key_pem k) (Some p) = None
      then 200 else 401)"
proof -
  let ?r = "arrives remote (transfer_request cfg token bytes)" and ?w = "snd (time_now e' w')"
  let ?x = "time_unix (time_add (clock e (w_clock w)) minute)" and ?i = "time_unix (clock e (w_clock w))"
  let ?c = "\<lparr>claims_sub = uid, claims_exp = ?x, claims_iat = ?i, claims_scopes = [''transfer:execute'']\<rparr>"
  have utf8: "valid_utf8 uid" "list_all valid_utf8 [''transfer:execute'']"
    using assms(5) by (simp_all add: pg_text_def ascii_valid_utf8)
  obtain j where j: "json_unmarshal bytes = Some j" "payload_of_json j = Some p"
    using payload_marshal_roundtrip [OF assms(3)] assms(2) by auto
  then have body: "body_json ?r = Some j" by (simp add: body_json_def arrives_simps)
  have "claims_scope_list (extractJWTClaims ?r) = [''transfer:execute'']"
    by (rule internal_token_scopes(1) [OF assms(1) utf8 assms(6,7) arrives_simps(5)])
  then have scope: "''transfer:execute'' \<in> set (claims_scope_list (extractJWTClaims ?r))" by simp
  have met: "contract_met e' ?r" by (rule contract_private [OF arrives_simps(2) body j(2) assms(4)])
  obtain w1 where "GenerateInternalJWT e uid (Some [''transfer:execute'']) (shared_secret cfg) minute w = (Inr token, w1)"
    using assms(1) by (metis prod.collapse)
  from verify_generated [OF this utf8 assms(6,7), of e' ?w] assms(8,9)
  have tok: "fst (VerifyInternalJWT e' token (shared_secret cfg') ?w) = Inr ?c" by simp
  have "Option.bind (decode_body (rq_body ?r)) payload_of_json = Some p"
    using decode_body_json [OF body] j(2) by simp
  moreover have "rw_sent (push_cell writer_init) = None" by (simp add: writer_init_def)
  ultimately have "sent_status (fst (ExecutePrivateTransfer e' cfg' lib (SQLEnclaveKeyRepository e') (push_cell writer_init) ?r ?w)) =
      (if fst (ExecuteIntranetTransfer e' cfg' lib (SQLEnclaveKeyRepository e') (rq_ctx ?r) token p ?w) = None then 200 else 401)"
    by (intro private_handler_status arrives_simps(5))
  moreover have "fst (ExecuteIntranetTransfer e' cfg' lib (SQLEnclaveKeyRepository e') (rq_ctx ?r) token p ?w) = None \<longleftrightarrow>
      (\<exists>k. k \<in> set (w_keys w') \<and> key_user k = uid \<and> VerifyEnclaveSignature e' lib (public_key_pem k) (Some p) = None)"
    unfolding execute_iff tok using assms(5,10) by simp
  ultimately show ?thesis
    unfolding private_chain [OF assms(11,12) met arrives_simps(3,2,1,4) scope] by simp
qed

lemma policy_body_frame:
  "rq_path (snd (policy_body r)) = rq_path r" "rq_method (snd (policy_body r)) = rq_method r"
  "rq_raw_path (snd (policy_body r)) = rq_raw_path r"
  by (auto simp: policy_body_reads readAndBufferBody_def split: sum.split prod.split)

lemma private_done:
  assumes "sent_status (fst (ExecutePrivateTransfer e cfg lib repo rw r w)) = 200" "rw_sent rw = None"
  obtains token p where "header_get (rq_headers r) ''Authorization'' = ''Bearer '' @ token"
    "Option.bind (decode_body (rq_body r)) payload_of_json = Some p"
    "fst (ExecuteIntranetTransfer e cfg lib repo (rq_ctx r) token p w) = None"
proof -
  have pre: "header_get (rq_headers r) ''Authorization'' \<noteq> [] \<and> has_prefix (header_get (rq_headers r) ''Authorization'') ''Bearer ''"
  proof (rule ccontr)
    assume "\<not> ?thesis"
    then have "ExecutePrivateTransfer e cfg lib repo rw r w = (writeError 401 ''Missing or invalid Authorization header'' rw, w)"
      by (auto simp: ExecutePrivateTransfer_def Let_def)
    with assms show False by simp
  qed
  then obtain token where a: "header_get (rq_headers r) ''Authorization'' = ''Bearer '' @ token"
    by (auto simp: has_prefix_iff)
  obtain p where p: "Option.bind (decode_body (rq_body r)) payload_of_json = Some p"
    using assms pre by (cases "Option.bind (decode_body (rq_body r)) payload_of_json")
      (simp_all add: ExecutePrivateTransfer_def)
  with that [OF a p] private_handler_status [OF a assms(2) p, of e cfg lib repo w] assms(1) show ?thesis
    by (simp split: if_splits)
qed

text \<open>What a success of the intranet's server went through.\<close>

lemma private_reaches:
  assumes "mux_ok mux" "runs_policy opa ev" "rq_raw_path r = []" "rw_sent rw = None"
    and "sent_status (fst (private_server e cfg lib mux opa ev rw r w)) = 200"
  obtains p where "policy_passes r" "rq_path r = ''/private/transfers''" "rq_method r = ''POST''"
    "Option.bind (body_json r) payload_of_json = Some p" "transfer_contract p"
    "sent_status (fst (ExecutePrivateTransfer e cfg lib (SQLEnclaveKeyRepository e) (push_cell rw) r (snd (time_now e w)))) = 200"
proof -
  let ?h = "ExecutePrivateTransfer e cfg lib (SQLEnclaveKeyRepository e)"
  let ?routes = "[(''POST'', ''/private/transfers'', ?h)]"
  let ?pol = "PolicyMiddleware_Handler opa ev (mux ?routes)"
  let ?v = "push_cell rw" and ?u = "snd (time_now e w)" and ?r1 = "snd (policy_body r)"
  have fresh: "rw_sent ?v = None" using assms(4) by simp
  have st: "sent_status (fst (SchemaValidationMiddleware e ?pol ?v r ?u)) = 200"
    using assms(5) by (simp add: PrivateRoutes_def WithOPAMiddleware_def Metrics_status)
  have met: "contract_met e r"
    using schema_reject [of e r ?pol ?v ?u] st fresh by fastforce
  with st have st: "sent_status (fst (?pol ?v r ?u)) = 200" by (simp add: schema_pass)
  have pol: "policy_passes r"
    using handler_decides [OF assms(2), of r "mux ?routes" ?v ?u] st fresh
    by (auto simp: policy_passes_def sent_status_def split: if_splits)
  then have st: "sent_status (fst (mux ?routes ?v ?r1 ?u)) = 200"
    using handler_decides [OF assms(2), of r "mux ?routes" ?v ?u] st by (simp add: policy_passes_def)
  have raw: "rq_raw_path ?r1 = []" using assms(3) by (simp add: policy_body_frame)
  from mux_route(2) [OF assms(1) raw _ fresh, of ?routes ?u] st have "route_for ?routes ?r1 \<noteq> None" by auto
  then have path: "rq_path r = ''/private/transfers''" "rq_method r = ''POST''"
    and "route_for ?routes ?r1 = Some ?h"
    by (auto simp: route_for_def policy_body_frame split: if_splits)
  with mux_route(1) [OF assms(1) raw, of ?routes ?v ?u] st
  have st: "sent_status (fst (?h ?v ?r1 ?u)) = 200" by simp
  from met path obtain s p where "rq_body r = BodyData s" "Option.bind (body_json r) payload_of_json = Some p"
    "transfer_contract p"
    by (auto simp: contract_met_def body_json_def split: option.splits body.splits)
  with that [OF pol path] st show ?thesis by (simp add: policy_body_snd)
qed

lemma private_checked:
  assumes "mux_ok mux" "runs_policy opa ev" "rq_raw_path r = []" "rw_sent rw = None"
    and "sent_status (fst (PrivateRoutes e cfg lib (SQLEnclaveKeyRepository e) mux
      (Some (PolicyMiddleware_Handler opa ev)) rw r w)) = 200"
  shows "rq_path r = ''/private/transfers'' \<and> rq_method r = ''POST'' \<and>
     ''transfer:execute'' \<in> set (claims_scope_list (extractJWTClaims r)) \<and>
     (\<exists>p token c k.
        Option.bind (body_json r) payload_of_json = Some p \<and> transfer_contract p \<and>
        header_get (rq_headers r) ''Authorization'' = ''Bearer '' @ token \<and>
        fst (VerifyInternalJWT e token (shared_secret cfg) (snd (time_now e w))) = Inr c \<and>
        ''transfer:execute'' \<in> set (claims_scopes c) \<and>
        k \<in> set (w_keys w) \<and> key_user k = claims_sub c \<and>
        VerifyEnclaveSignature e lib (public_key_pem k) (Some p) = None)"
proof -
  let ?u = "snd (time_now e w)"
  from assms obtain p where p: "policy_passes r" "rq_path r = ''/private/transfers''" "rq_method r = ''POST''"
    "Option.bind (body_json r) payload_of_json = Some p" "transfer_contract p"
    "sent_status (fst (ExecutePrivateTransfer e cfg lib (SQLEnclaveKeyRepository e) (push_cell rw) r ?u)) = 200"
    by (rule private_reaches)
  have fresh: "rw_sent (push_cell rw) = None" using assms(4) by simp
  obtain token q where q: "header_get (rq_headers r) ''Authorization'' = ''Bearer '' @ token"
    "Option.bind (decode_body (rq_body r)) payload_of_json = Some q"
    "fst (ExecuteIntranetTransfer e cfg lib (SQLEnclaveKeyRepository e) (rq_ctx r) token q ?u) = None"
    by (rule private_done [OF p(6) fresh])
  have "q = p" using q(2) p(4) decode_body_json [of r] by (auto simp: bind_eq_Some_conv)
  with q(3) obtain c k where "fst (VerifyInternalJWT e token (shared_secret cfg) ?u) = Inr c"
    "''transfer:execute'' \<in> set (claims_scopes c)" "k \<in> set (w_keys w)" "key_user k = claims_sub c"
    "VerifyEnclaveSignature e lib (public_key_pem k) (Some p) = None"
    unfolding execute_iff by auto
  moreover have "''transfer:execute'' \<in> set (claims_scope_list (extractJWTClaims r))"
    using p(1,2) by (simp add: policy_passes_def policy_allows_def)
  ultimately show ?thesis using p(2-5) q(1) by blast
qed

subsection \<open>The edge\<close>

lemma VerifyAttestation_sent: "w_sent (snd (VerifyAttestation e ctx platform token w)) = w_sent w"
  by (auto simp: VerifyAttestation_def check_android_def check_ios_def Let_def
      split: option.splits sum.splits list.splits prod.splits if_splits)

lemma keys_save_sent: "w_sent (snd (keys_save (SQLEnclaveKeyRepository e) ctx k w)) = w_sent w"
  by (auto simp: SQLEnclaveKeyRepository_def SaveKey_def db_exec_def insert_key_def Let_def
      split: option.splits prod.splits if_splits)

lemma policy_runs:
  assumes "runs_policy opa ev" "policy_passes r" "rq_body r = BodyData s"
  shows "PolicyMiddleware_Handler opa ev h rw r w = h rw r w"
  using handler_decides [OF assms(1), of r h rw w] assms(2) policy_body_snd [OF assms(3)]
  by (simp add: policy_passes_def)

lemma with_claims_simps [simp]:
  "rq_body (with_claims subj r) = rq_body r" "extractSubject (with_claims subj r) = Inr subj"
  by (simp_all add: with_claims_def extractSubject_def)

lemma initiate_handler:
  assumes "extractSubject r = Inr uid" "Option.bind (decode_body (rq_body r)) payload_of_json = Some p"
  shows "w_sent (snd (InitiateTransfer_handler e cfg rw r w)) = w_sent (snd (InitiateTransfer e cfg (rq_ctx r) uid p w))"
    and "rw_sent rw = None \<Longrightarrow> sent_status (fst (InitiateTransfer_handler e cfg rw r w)) =
      (if fst (InitiateTransfer e cfg (rq_ctx r) uid p w) = None then 200 else 500)"
  using assms by (auto simp: InitiateTransfer_handler_def sent_status_def writeError_sent split: option.split prod.split)

text \<open>The edge for a transfer that passes its checks, and the checks of a transfer it sends on.\<close>

lemma contract_initiate:
  assumes "contract_met e r" "rq_path r = ''/transfer/initiate''" "rq_method r = ''POST''"
  obtains s p where "rq_body r = BodyData s" "Option.bind (body_json r) payload_of_json = Some p" "transfer_contract p"
  using assms by (auto simp: contract_met_def body_json_def split: option.splits body.splits)

text \<open>The handlers of the edge, by path.\<close>

definition edge_handler :: "env \<Rightarrow> bank_config \<Rightarrow> string \<Rightarrow> handler" where
  "edge_handler e cfg path =
     (if path = ''/auth/register-device'' then RegisterDevice e (SQLEnclaveKeyRepository e) (VerifyAttestation e)
      else InitiateTransfer_handler e cfg)"

text \<open>A request that passes every check runs its handler as the subject it was admitted as.\<close>

lemma edge_runs:
  assumes "mux_ok mux" "runs_policy opa ev" "rq_raw_path r = []"
    and "contract_met e r" "policy_passes r" "rq_method r = ''POST''"
    and "rq_path r \<in> {''/auth/register-device'', ''/transfer/initiate''}"
    and "jwt_admits jwt (push_cell rw) r (snd (time_now e w)) subj"
  shows "edge_server e cfg mux opa ev jwt rw r w =
     MetricsMiddleware e (\<lambda>v q u. edge_handler e cfg (rq_path r) v (with_claims subj q) u) rw r w"
proof -
  let ?routes = "[(''POST'', ''/auth/register-device'', jwt (RegisterDevice e (SQLEnclaveKeyRepository e) (VerifyAttestation e))),
    (''POST'', ''/transfer/initiate'', jwt (InitiateTransfer_handler e cfg))]"
  let ?v = "push_cell rw" and ?u = "snd (time_now e w)"
  obtain s where body: "rq_body r = BodyData s"
    using assms(4,6,7) by (auto simp: contract_met_def body_json_def split: option.splits body.splits)
  have "route_for ?routes r = Some (jwt (edge_handler e cfg (rq_path r)))"
    using assms(6,7) by (auto simp: route_for_def edge_handler_def)
  then have "mux ?routes ?v r ?u = edge_handler e cfg (rq_path r) ?v (with_claims subj r) ?u"
    using mux_route(1) [OF assms(1,3), of ?routes ?v ?u] assms(8) unfolding jwt_admits_def by simp
  then have "SchemaValidationMiddleware e (PolicyMiddleware_Handler opa ev (mux ?routes)) ?v r ?u =
      edge_handler e cfg (rq_path r) ?v (with_claims subj r) ?u"
    unfolding schema_pass [OF assms(4)] policy_runs [OF assms(2,5) body] .
  then show ?thesis
    unfolding EdgeRoutes_def WithOPAMiddleware_def option.case by (simp add: MetricsMiddleware_def Let_def time_now_def)
qed

lemma edge_chain:
  fixes cfg :: bank_config
  assumes "mux_ok mux" "runs_policy opa ev" "rq_raw_path r = []"
    and "contract_met e r" "policy_passes r" "rq_path r = ''/transfer/initiate''" "rq_method r = ''POST''"
    and "jwt_admits jwt (push_cell rw) r (snd (time_now e w)) subj"
    and "Option.bind (body_json r) payload_of_json = Some p"
  defines "t \<equiv> InitiateTransfer e cfg (rq_ctx (with_claims subj r)) subj p (snd (time_now e w))"
  shows "w_sent (snd (edge_server e cfg mux opa ev jwt rw r w)) = w_sent (snd t)"
    and "rw_sent rw = None \<Longrightarrow> sent_status (fst (edge_server e cfg mux opa ev jwt rw r w)) = (if fst t = None then 200 else 500)"
proof -
  have run: "edge_server e cfg mux opa ev jwt rw r w =
      MetricsMiddleware e (\<lambda>v q u. InitiateTransfer_handler e cfg v (with_claims subj q) u) rw r w"
    using edge_runs [OF assms(1-5,7) _ assms(8)] assms(6) by (simp add: edge_handler_def)
  have "Option.bind (decode_body (rq_body (with_claims subj r))) payload_of_json = Some p"
    using assms(9) decode_body_json [of r] by (auto simp: bind_eq_Some_conv)
  note ini = initiate_handler [OF with_claims_simps(2) this]
  show "w_sent (snd (edge_server e cfg mux opa ev jwt rw r w)) = w_sent (snd t)"
    unfolding run Metrics_world(1) ini(1) t_def ..
  show "rw_sent rw = None \<Longrightarrow> sent_status (fst (edge_server e cfg mux opa ev jwt rw r w)) = (if fst t = None then 200 else 500)"
    unfolding run Metrics_status t_def by (rule ini(2)) simp
qed

text \<open>
  What changes at the edge, as far as \<open>f\<close> sees it, is the doing of a handler that was reached
  through all the checks.
\<close>

lemma edge_changed:
  fixes f :: "world \<Rightarrow> 'a"
  assumes "mux_ok mux" "jwt_gate jwt" "runs_policy opa ev" "rq_raw_path r = []"
    and metrics: "\<And>h rw r w. f (snd (MetricsMiddleware e h rw r w)) = f (snd (h (push_cell rw) r (snd (time_now e w))))"
    and clock: "\<And>w. f (snd (time_now e w)) = f w" and log: "\<And>ctx m as w. f (WarnContext ctx m as w) = f w"
    and change: "f (snd (edge_server e cfg mux opa ev jwt rw r w)) \<noteq> f w"
  obtains subj where "contract_met e r" "policy_passes r" "rq_method r = ''POST''"
    "rq_path r \<in> {''/auth/register-device'', ''/transfer/initiate''}"
    "jwt_admits jwt (push_cell rw) r (snd (time_now e w)) subj"
    "f (snd (edge_server e cfg mux opa ev jwt rw r w)) =
       f (snd (edge_handler e cfg (rq_path r) (push_cell rw) (with_claims subj r) (snd (time_now e w))))"
proof -
  let ?reg = "RegisterDevice e (SQLEnclaveKeyRepository e) (VerifyAttestation e)" and ?ini = "InitiateTransfer_handler e cfg"
  let ?routes = "[(''POST'', ''/auth/register-device'', jwt ?reg), (''POST'', ''/transfer/initiate'', jwt ?ini)]"
  let ?pol = "PolicyMiddleware_Handler opa ev (mux ?routes)"
  let ?v = "push_cell rw" and ?u = "snd (time_now e w)"
  have "edge_server e cfg mux opa ev jwt = MetricsMiddleware e (SchemaValidationMiddleware e ?pol)"
    unfolding EdgeRoutes_def WithOPAMiddleware_def option.case ..
  then have w0: "f (snd (edge_server e cfg mux opa ev jwt rw r w)) = f (snd (SchemaValidationMiddleware e ?pol ?v r ?u))"
    by (simp only: metrics)
  with change have c1: "f (snd (SchemaValidationMiddleware e ?pol ?v r ?u)) \<noteq> f w" by simp
  have met: "contract_met e r" using schema_reject [of e r ?pol ?v ?u] c1 clock by fastforce
  have c2: "f (snd (?pol ?v r ?u)) \<noteq> f w" using c1 unfolding schema_pass [OF met] .
  have pol: "policy_passes r"
    using handler_decides [OF assms(3), of r "mux ?routes" ?v ?u] c2 clock log
    by (auto simp: policy_passes_def split: if_splits)
  then have run: "?pol ?v r ?u = mux ?routes ?v (snd (policy_body r)) ?u"
    using handler_decides [OF assms(3), of r "mux ?routes" ?v ?u] by (simp add: policy_passes_def)
  have raw: "rq_raw_path (snd (policy_body r)) = []" using assms(4) by (simp add: policy_body_frame)
  note rt = mux_route(1) [OF assms(1) raw, of ?routes ?v ?u]
  have "route_for ?routes (snd (policy_body r)) \<noteq> None" using rt c2 clock unfolding run by (auto split: option.splits)
  then have path: "rq_method r = ''POST''" "rq_path r = ''/auth/register-device'' \<or> rq_path r = ''/transfer/initiate''"
    by (auto simp: route_for_def policy_body_frame split: if_splits)
  then obtain s where "rq_body r = BodyData s"
    using met by (auto simp: contract_met_def body_json_def split: option.splits body.splits)
  then have r1: "snd (policy_body r) = r" by (rule policy_body_snd)
  have "route_for ?routes r = Some (jwt (edge_handler e cfg (rq_path r)))"
    using path by (auto simp: route_for_def edge_handler_def)
  then have run: "?pol ?v r ?u = jwt (edge_handler e cfg (rq_path r)) ?v r ?u" using rt run unfolding r1 by simp
  have "(\<forall>k. snd (jwt k ?v r ?u) = ?u) \<or> (\<exists>subj. jwt_admits jwt ?v r ?u subj)"
    using assms(2) unfolding jwt_gate_def jwt_admits_def by metis
  with c2 clock obtain subj where adm: "jwt_admits jwt ?v r ?u subj" unfolding run by metis
  have "f (snd (edge_server e cfg mux opa ev jwt rw r w)) = f (snd (edge_handler e cfg (rq_path r) ?v (with_claims subj r) ?u))"
    using w0 adm unfolding schema_pass [OF met] run jwt_admits_def by simp
  with that met pol path adm show ?thesis by blast
qed

lemma edge_sent:
  assumes "mux_ok mux" "jwt_gate jwt" "runs_policy opa ev" "rq_raw_path r = []"
    and sent: "w_sent (snd (edge_server e cfg mux opa ev jwt rw r w)) \<noteq> w_sent w"
  obtains p subj where "contract_met e r" "policy_passes r" "rq_path r = ''/transfer/initiate''" "rq_method r = ''POST''"
    "jwt_admits jwt (push_cell rw) r (snd (time_now e w)) subj"
    "Option.bind (body_json r) payload_of_json = Some p" "transfer_contract p"
proof (rule edge_changed [where f = w_sent, OF assms(1-4) Metrics_world(1) _ _ sent])
  fix subj
  assume h: "contract_met e r" "policy_passes r" "rq_method r = ''POST''"
    "rq_path r \<in> {''/auth/register-device'', ''/transfer/initiate''}"
    "jwt_admits jwt (push_cell rw) r (snd (time_now e w)) subj"
    "w_sent (snd (edge_server e cfg mux opa ev jwt rw r w)) =
       w_sent (snd (edge_handler e cfg (rq_path r) (push_cell rw) (with_claims subj r) (snd (time_now e w))))"
  have "w_sent (snd (RegisterDevice e (SQLEnclaveKeyRepository e) (VerifyAttestation e) v q u)) = w_sent u" for v q u
    by (rule RegisterDevice_sent [OF VerifyAttestation_sent keys_save_sent])
  with h(4,6) sent have path: "rq_path r = ''/transfer/initiate''" by (auto simp: edge_handler_def)
  obtain p where "Option.bind (body_json r) payload_of_json = Some p" "transfer_contract p"
    using h(1) path h(3) by (rule contract_initiate)
  with that h(1,2) path h(3,5) show thesis by blast
qed simp_all

text \<open>The gate admits a request as one subject at most.\<close>

lemma jwt_admits_unique:
  assumes "jwt_admits jwt rw r w a" "jwt_admits jwt rw r w b"
  shows "a = b"
proof -
  let ?h = "\<lambda>v q u. (v\<lparr>rw_body := (case extractSubject q of Inr s \<Rightarrow> s | Inl _ \<Rightarrow> [])\<rparr>, u)"
  from spec [OF assms(1) [unfolded jwt_admits_def], of ?h] spec [OF assms(2) [unfolded jwt_admits_def], of ?h]
  have "?h rw (with_claims a r) w = ?h rw (with_claims b r) w" by (rule trans [OF sym])
  then have "rw_body (fst (?h rw (with_claims a r) w)) = rw_body (fst (?h rw (with_claims b r) w))" by simp
  then show ?thesis by simp
qed

text \<open>A payload read out of a body that can be encoded is one that JSON carries unchanged.\<close>

lemma body_payload_ok:
  assumes "Option.bind (body_json r) payload_of_json = Some p" "payload_marshal p = Some bytes"
  shows "payload_ok p"
proof -
  obtain j where j: "decode_body (rq_body r) = Some j" "payload_of_json j = Some p"
    using assms(1) decode_body_json [of r] by (auto simp: bind_eq_Some_conv)
  from payload_of_json_parsed [OF decode_body_text [OF j(1)] j(2)] have "payload_parsed p" .
  from payload_marshal_parsed [OF this] assms(2) show ?thesis by simp
qed

lemma edge_sends:
  assumes "mux_ok mux" "jwt_gate jwt" "runs_policy opa ev" "rq_raw_path r = []"
    and "w_sent (snd (edge_server e cfg mux opa ev jwt rw r w)) \<noteq> w_sent w"
  obtains p subj token bytes where "policy_passes r" "rq_path r = ''/transfer/initiate''" "rq_method r = ''POST''"
    "jwt_admits jwt (push_cell rw) r (snd (time_now e w)) subj"
    "Option.bind (body_json r) payload_of_json = Some p" "transfer_contract p"
    "fst (GenerateInternalJWT e subj (Some [''transfer:execute'']) (shared_secret cfg) minute (snd (time_now e w))) = Inr token"
    "payload_marshal p = Some bytes"
    "w_sent (snd (edge_server e cfg mux opa ev jwt rw r w)) = w_sent w @ [transfer_request cfg token bytes]"
    "rw_sent rw = None \<longrightarrow> sent_status (fst (edge_server e cfg mux opa ev jwt rw r w)) =
       (if \<exists>resp. transport e (w_http w) (transfer_request cfg token bytes) = Inr resp \<and> rs_status resp = 200 then 200 else 500)"
proof -
  from assms obtain p subj where p: "contract_met e r" "policy_passes r" "rq_path r = ''/transfer/initiate''" "rq_method r = ''POST''"
    "jwt_admits jwt (push_cell rw) r (snd (time_now e w)) subj"
    "Option.bind (body_json r) payload_of_json = Some p" "transfer_contract p"
    by (rule edge_sent)
  note chain = edge_chain [OF assms(1,3,4) p(1-6), where cfg = cfg]
  obtain res w1 where t: "InitiateTransfer e cfg (rq_ctx (with_claims subj r)) subj p (snd (time_now e w)) = (res, w1)"
    by fastforce
  have u: "w_sent (snd (time_now e w)) = w_sent w" "w_http (snd (time_now e w)) = w_http w" by simp_all
  from initiate_sends [OF t] assms(5) chain(1) u obtain token bytes where
    "fst (GenerateInternalJWT e subj (Some [''transfer:execute'']) (shared_secret cfg) minute (snd (time_now e w))) = Inr token"
    "payload_marshal p = Some bytes" "w_sent w1 = w_sent w @ [transfer_request cfg token bytes]"
    "res = None \<longleftrightarrow> (\<exists>resp. transport e (w_http w) (transfer_request cfg token bytes) = Inr resp \<and> rs_status resp = 200)"
    unfolding t by auto
  with that p(2-7) chain show ?thesis unfolding t by simp
qed

subsection \<open>A sample\<close>

text \<open>A user with one registered key, and the status of the user's transfer at the intranet.\<close>

definition sample_status :: "string \<Rightarrow> string \<Rightarrow> nat" where
  "sample_status token bytes =
     sent_status (fst (PrivateRoutes still_env sample_config open_lib (SQLEnclaveKeyRepository still_env) static_mux
       (Some (PolicyMiddleware_Handler sample_opa sample_evaluator)) writer_init
       (arrives ''10.0.0.2:9000'' (transfer_request sample_config token bytes)) (world_init\<lparr>w_keys := [sample_key]\<rparr>)))"

lemma sample_contract: "transfer_contract sample_payload"
proof -
  have "\<not> civil_is_zero (timestamp sample_payload)"
    by (simp add: sample_payload_def civil_is_zero_def civil_unix_def days_before_year_def days_before_month_def)
  then show ?thesis by (simp add: transfer_contract_def sample_payload_def)
qed

lemma sample_user: "pg_text ''alice''" "valid_utf8 ''alice''"
  by (simp_all add: pg_text_def ascii_valid_utf8)

lemma sample_key_verifies:
  "\<exists>k. k \<in> set (w_keys (world_init\<lparr>w_keys := [sample_key]\<rparr>)) \<and> key_user k = ''alice'' \<and>
     VerifyEnclaveSignature still_env open_lib (public_key_pem k) (Some sample_payload) = None"
  using open_verifies_sample [of still_env] by (simp add: sample_key_def)

lemmas sample_execution = sample_payload_ok sample_contract sample_user(1)

lemma sample_executed:
  assumes "fst (GenerateInternalJWT still_env ''alice'' (Some [''transfer:execute'']) (shared_secret sample_config) minute world_init) = Inr token"
    and "payload_marshal sample_payload = Some bytes"
  shows "sample_status token bytes = 200"
  unfolding sample_status_def
  by (subst end_to_end [OF assms sample_execution _ _ _ refl _ static_mux_ok sample_runs])
     (simp_all only: still_times in_int64_def sample_key_verifies, simp_all add: still_env_def sample_env_def)

text \<open>
  A bearer of one token, admitted as one subject, and an edge whose network reaches the
  intranet of the sample.
\<close>

definition bearer_gate :: "string \<Rightarrow> string \<Rightarrow> (handler \<Rightarrow> handler)" where
  "bearer_gate token subj next rw r w =
     (if header_get (rq_headers r) ''Authorization'' = ''Bearer '' @ token
      then next rw (with_claims subj r) w
      else (write_header 401 rw, w))"

lemma bearer_gate_ok: "jwt_gate (bearer_gate token subj)"
  by (simp add: jwt_gate_def bearer_gate_def sent_status_def write_header_def commit_def) blast

definition linked_env :: env where
  "linked_env = still_env\<lparr>transport := \<lambda>_ q. Inr
     \<lparr>rs_status = int (sent_status (fst (private_server still_env sample_config open_lib static_mux sample_opa sample_evaluator
        writer_init (arrives ''10.0.0.2:9000'' q) (world_init\<lparr>w_keys := [sample_key]\<rparr>)))),
      rs_body = BodyData []\<rparr>\<rparr>"

lemma linked_env_simps [simp]:
  "clock linked_env = clock still_env" "breaker linked_env n = None" "request_err linked_env u = None"
  by (simp_all add: linked_env_def still_env_def sample_env_def)

definition edge_request :: "string \<Rightarrow> string \<Rightarrow> request" where
  "edge_request token bytes =
     \<lparr>rq_method = ''POST'', rq_path = ''/transfer/initiate'', rq_raw_path = [], rq_query = [],
      rq_headers = [(''Authorization'', ''Bearer '' @ token)], rq_remote = ''192.0.2.7:4711'',
      rq_body = BodyData bytes, rq_ctx = background\<rparr>"

lemma any_token: "\<exists>token. fst (GenerateInternalJWT e uid scopes (shared_secret sample_config) ttl w) = Inr token"
  by (simp add: GenerateInternalJWT_def time_now_def sample_config_def Let_def)

lemma sample_unmarshal:
  assumes "payload_marshal sample_payload = Some bytes"
  obtains kvs where "json_unmarshal bytes = Some (JObj kvs)" "payload_of_json (JObj kvs) = Some sample_payload"
    "map_of (rev (map (\<lambda>(k, v). (k, dyn_of_json v)) kvs)) ''amount_cents'' \<noteq> None"
proof -
  obtain j where j: "payload_json sample_payload = Some j" "bytes = json_print j"
    using assms by (auto simp: payload_marshal_def)
  then obtain kvs where kvs: "j = JObj kvs" "''amount_cents'' \<in> fst ` set kvs"
    by (auto simp: payload_json_def)
  have "json_unmarshal bytes = Some (JObj kvs)"
    using payload_json_ok [OF sample_payload_ok j(1)] json_unmarshal_print [of j] unfolding j(2) kvs(1) by simp
  moreover have "payload_of_json (JObj kvs) = Some sample_payload"
    using payload_of_payload_json [OF sample_payload_ok j(1)] unfolding kvs(1) .
  moreover have "map_of (rev (map (\<lambda>(k, v). (k, dyn_of_json v)) kvs)) ''amount_cents'' \<noteq> None"
    using kvs(2) unfolding map_of_eq_None_iff by force
  ultimately show ?thesis by (rule that)
qed

text \<open>A transfer of the sample that the edge sends on.\<close>

lemma sample_edge:
  obtains tok bytes where "payload_marshal sample_payload = Some bytes"
    "Option.bind (body_json (edge_request tok bytes)) payload_of_json = Some sample_payload"
    "\<And>rw w. jwt_admits (bearer_gate tok ''alice'') rw (edge_request tok bytes) w ''alice''"
    "w_sent (snd (edge_server linked_env sample_config static_mux sample_opa sample_evaluator (bearer_gate tok ''alice'')
       writer_init (edge_request tok bytes) world_init)) \<noteq> w_sent world_init"
proof -
  obtain tok where tok: "fst (GenerateInternalJWT still_env ''alice'' (Some [''transfer:high_value'']) (shared_secret sample_config)
      minute world_init) = Inr tok" using any_token by blast
  obtain bytes where b: "payload_marshal sample_payload = Some bytes" using sample_marshal ..
  obtain kvs where j: "json_unmarshal bytes = Some (JObj kvs)" "payload_of_json (JObj kvs) = Some sample_payload"
    "map_of (rev (map (\<lambda>(k, v). (k, dyn_of_json v)) kvs)) ''amount_cents'' \<noteq> None"
    using b by (rule sample_unmarshal)
  let ?r = "edge_request tok bytes" and ?u = "snd (time_now linked_env world_init)"
  have r: "rq_path ?r = ''/transfer/initiate''" "rq_method ?r = ''POST''" "rq_raw_path ?r = []" "rq_body ?r = BodyData bytes"
    "header_get (rq_headers ?r) ''Authorization'' = ''Bearer '' @ tok"
    by (simp_all add: edge_request_def header_get_def)
  have body: "Option.bind (body_json ?r) payload_of_json = Some sample_payload" by (simp add: body_json_def r j)
  have met: "contract_met linked_env ?r" using body sample_contract by (simp add: contract_met_def r)
  have u: "list_all valid_utf8 [''transfer:high_value'']" by (simp add: ascii_valid_utf8)
  have "claims_scope_list (extractJWTClaims ?r) = [''transfer:high_value'']" "claims_subject (extractJWTClaims ?r) = ''alice''"
    by (rule internal_token_scopes [OF tok sample_user(2) u _ _ r(5)], simp_all only: still_times in_int64_def, simp_all)+
  moreover have "bytes \<noteq> []" using j(1) json_unmarshal_Nil by auto
  ultimately have pol: "policy_passes ?r" using j read_body_data [OF r(4)]
    by (auto simp: policy_passes_def policy_allows_def r policy_body_reads unmarshal_map_def)
  have adm: "jwt_admits (bearer_gate tok ''alice'') rw ?r w ''alice''" for rw w
    by (simp add: jwt_admits_def bearer_gate_def r)
  obtain token where t: "fst (GenerateInternalJWT linked_env ''alice'' (Some [''transfer:execute'']) (shared_secret sample_config)
      minute ?u) = Inr token" using any_token by blast
  have "fst (GenerateInternalJWT still_env ''alice'' (Some [''transfer:execute'']) (shared_secret sample_config) minute world_init) = Inr token"
    unfolding t [symmetric] by (simp add: GenerateInternalJWT_def time_now_def still_env_def Let_def)
  from sample_executed [OF this b]
  have net: "transport linked_env (w_http ?u) (transfer_request sample_config token bytes) = Inr \<lparr>rs_status = 200, rs_body = BodyData []\<rparr>"
    by (simp add: linked_env_def sample_status_def)
  have "w_sent (snd (InitiateTransfer linked_env sample_config (rq_ctx (with_claims ''alice'' ?r)) ''alice'' sample_payload ?u)) =
      w_sent ?u @ [transfer_request sample_config token bytes]"
    using initiate_ok [OF _ _ _ t b net] by (simp add: sample_payload_def)
  with edge_chain(1) [OF static_mux_ok sample_runs r(3) met pol r(1,2) adm body, where cfg = sample_config]
  have "w_sent (snd (edge_server linked_env sample_config static_mux sample_opa sample_evaluator (bearer_gate tok ''alice'')
      writer_init ?r world_init)) \<noteq> w_sent world_init" by simp
  with that b body adm show ?thesis by blast
qed

end
