(* ===== verification/EnrolFlow.thy ===== *)
theory EnrolFlow
  imports TransferFlow
begin

text \<open>
  The registration of a device through the edge's server: which requests change the table of
  keys, and how.
\<close>

lemma register_change:
  assumes "RegisterDeviceKey e (SQLEnclaveKeyRepository e) (VerifyAttestation e) ctx uid key platform token w = (r, w')"
    and "w_keys w' \<noteq> w_keys w"
  shows "attested e platform token"
    and "\<exists>now row. key_row e (key\<lparr>key_user := uid, registered_at := now\<rparr>) = Some row \<and>
       key_id row \<notin> key_id ` set (w_keys w) \<and> w_keys w' = w_keys w @ [row]"
proof -
  let ?w1 = "InfoContext ctx ''registering device key with attestation''
      [(''user_id'', AStr uid), (''key_id'', AStr (key_id key))] w"
  obtain q w2 where v: "VerifyAttestation e ctx platform token ?w1 = (q, w2)" by fastforce
  then have w2: "w_keys w2 = w_keys w" using VerifyAttestation_keys [of e ctx platform token ?w1] by simp
  have q: "q = None" using assms v w2 by (cases q) (auto simp: RegisterDeviceKey_def)
  with v show "attested e platform token"
    using VerifyAttestation_attested [of e ctx platform token ?w1] by simp
  obtain now w3 where t: "time_now e w2 = (now, w3)" by fastforce
  then have w3: "w_keys w3 = w_keys w" using w2 by (auto simp: time_now_def)
  obtain q' w4 where s: "SaveKey e ctx (key\<lparr>key_user := uid, registered_at := now\<rparr>) w3 = (q', w4)" by fastforce
  have "w_keys w' = w_keys w4" using assms(1) v q t s
    by (auto simp: RegisterDeviceKey_def SQLEnclaveKeyRepository_def split: option.splits)
  with SaveKey_keys(1) [OF s] assms(2) show "\<exists>now row. key_row e (key\<lparr>key_user := uid, registered_at := now\<rparr>) = Some row \<and>
       key_id row \<notin> key_id ` set (w_keys w) \<and> w_keys w' = w_keys w @ [row]"
    unfolding w3 by auto
qed

lemma initiate_keys: "w_keys (snd (InitiateTransfer_handler e cfg rw r w)) = w_keys w"
proof -
  have "w_keys (snd (forward_transfer e ctx url token bytes v)) = w_keys v" for ctx url token bytes v
    by (auto simp: forward_transfer_def http_do_def Let_def split: sum.split prod.split)
  then have b: "breaker_execute e (forward_transfer e ctx url token bytes) v = (x, v') \<Longrightarrow> w_keys v' = w_keys v"
    for ctx url token bytes v x v'
    by (auto simp: breaker_execute_def split: option.splits dest: arg_cong [of _ _ "\<lambda>z. w_keys (snd z)"])
  have "w_keys (snd (InitiateTransfer e cfg ctx uid p v)) = w_keys v" for ctx uid p v
    by (auto simp: InitiateTransfer_def Let_def dest!: Generate_keeps b split: sum.split prod.split option.split)
  then show ?thesis
    by (auto simp: InitiateTransfer_handler_def split: sum.split option.split prod.split) (metis snd_conv)+
qed

text \<open>What the handler registers: the key of the request's body under the caller's subject.\<close>

definition device_key :: "device_request \<Rightarrow> enclave_key" where
  "device_key d =
     \<lparr>key_id = dr_id d, key_user = [], public_key_pem = dr_pem d, algorithm = dr_algorithm d, registered_at = zero_instant\<rparr>"

lemma register_handler:
  assumes "w_keys (snd (RegisterDevice e (SQLEnclaveKeyRepository e) (VerifyAttestation e) rw r w)) \<noteq> w_keys w"
    and "extractSubject r = Inr uid" "Option.bind (decode_body (rq_body r)) device_of_json = Some d"
  shows "w_keys (snd (RegisterDevice e (SQLEnclaveKeyRepository e) (VerifyAttestation e) rw r w)) =
     w_keys (snd (RegisterDeviceKey e (SQLEnclaveKeyRepository e) (VerifyAttestation e) (rq_ctx r) uid (device_key d)
       (dr_platform d) (dr_token d) w))"
  using assms by (auto simp: RegisterDevice_def device_key_def Let_def split: option.splits prod.splits if_splits)

lemma edge_keys:
  assumes "mux_ok mux" "jwt_gate jwt" "runs_policy opa ev" "rq_raw_path r = []"
    and change: "w_keys (snd (edge_server e cfg mux opa ev jwt rw r w)) \<noteq> w_keys w"
  obtains d subj now row where "rq_path r = ''/auth/register-device''" "rq_method r = ''POST''"
    "Option.bind (body_json r) device_of_json = Some d" "device_contract e d"
    "jwt_admits jwt (push_cell rw) r (snd (time_now e w)) subj" "attested e (dr_platform d) (dr_token d)"
    "key_row e ((device_key d)\<lparr>key_user := subj, registered_at := now\<rparr>) = Some row"
    "key_id row \<notin> key_id ` set (w_keys w)"
    "w_keys (snd (edge_server e cfg mux opa ev jwt rw r w)) = w_keys w @ [row]"
proof (rule edge_changed [where f = w_keys, OF assms(1-4) Metrics_world(2) _ _ change])
  let ?u = "snd (time_now e w)" and ?reg = "RegisterDevice e (SQLEnclaveKeyRepository e) (VerifyAttestation e)"
  fix subj
  assume h: "contract_met e r" "policy_passes r" "rq_method r = ''POST''"
    "rq_path r \<in> {''/auth/register-device'', ''/transfer/initiate''}"
    "jwt_admits jwt (push_cell rw) r ?u subj"
    "w_keys (snd (edge_server e cfg mux opa ev jwt rw r w)) =
       w_keys (snd (edge_handler e cfg (rq_path r) (push_cell rw) (with_claims subj r) ?u))"
  from h(4,6) change have path: "rq_path r = ''/auth/register-device''" "edge_handler e cfg (rq_path r) = ?reg"
    by (auto simp: edge_handler_def initiate_keys)
  with h(1,3) obtain d where d: "Option.bind (body_json r) device_of_json = Some d" "device_contract e d"
    by (auto simp: contract_met_def split: option.splits)
  have "Option.bind (decode_body (rq_body (with_claims subj r))) device_of_json = Some d"
    using d(1) decode_body_json [of r] by (auto simp: bind_eq_Some_conv)
  note reg = register_handler [OF _ with_claims_simps(2) this]
  obtain res w1 where k: "RegisterDeviceKey e (SQLEnclaveKeyRepository e) (VerifyAttestation e) (rq_ctx (with_claims subj r)) subj
      (device_key d) (dr_platform d) (dr_token d) ?u = (res, w1)" by fastforce
  have u: "w_keys ?u = w_keys w" by simp
  have w1: "w_keys (snd (edge_server e cfg mux opa ev jwt rw r w)) = w_keys w1" "w_keys w1 \<noteq> w_keys ?u"
    using h(6) change reg [of e "push_cell rw" ?u] unfolding path(2) k u by simp_all
  from register_change [OF k w1(2)] obtain now row where "attested e (dr_platform d) (dr_token d)"
    "key_row e ((device_key d)\<lparr>key_user := subj, registered_at := now\<rparr>) = Some row"
    "key_id row \<notin> key_id ` set (w_keys w)" "w_keys w1 = w_keys w @ [row]"
    unfolding u by blast
  with that [OF path(1) h(3) d h(5)] w1(1) show thesis by simp
qed simp_all

subsection \<open>A sample\<close>

definition sample_device :: device_request where
  "sample_device =
     \<lparr>dr_id = ''dev9'', dr_pem = ''-----BEGIN PUBLIC KEY-----'', dr_algorithm = ''ECDSA_P256'',
      dr_platform = ''android'', dr_token = ''valid-mock-token''\<rparr>"

definition sample_device_json :: json where
  "sample_device_json =
     JObj [(''id'', JStr (dr_id sample_device)), (''public_key_pem'', JStr (dr_pem sample_device)),
           (''algorithm'', JStr (dr_algorithm sample_device)), (''platform'', JStr (dr_platform sample_device)),
           (''attestation_token'', JStr (dr_token sample_device))]"

definition device_post :: request where
  "device_post =
     \<lparr>rq_method = ''POST'', rq_path = ''/auth/register-device'', rq_raw_path = [], rq_query = [],
      rq_headers = [(''Authorization'', ''Bearer good'')], rq_remote = ''192.0.2.7:4711'',
      rq_body = BodyData (json_print sample_device_json), rq_ctx = background\<rparr>"

text \<open>No two field names of the request fold to the same key.\<close>

lemma device_keys:
  "fold_key ''id'' = ''ID''" "fold_key ''public_key_pem'' = ''PUBLIC_KEY_PEM''" "fold_key ''algorithm'' = ''ALGORITHM''"
  "fold_key ''platform'' = ''PLATFORM''" "fold_key ''attestation_token'' = ''ATTESTATION_TOKEN''"
  by (simp_all add: ascii_upper_def chr_eq_iff fold_key.simps)

lemma device_post_json:
  "body_json device_post = Some sample_device_json" "device_of_json sample_device_json = Some sample_device"
  "device_contract still_env sample_device"
proof -
  have "json_ok sample_device_json" "jdepth sample_device_json \<le> max_depth"
    by (simp_all add: sample_device_json_def sample_device_def max_depth_def ascii_valid_utf8)
  then show "body_json device_post = Some sample_device_json" by (simp add: body_json_def device_post_def json_unmarshal_print)
  show "device_of_json sample_device_json = Some sample_device"
    by (simp add: device_of_json_def decode_struct_def sample_device_json_def sample_device_def device_field_def
        key_matches_def device_keys)
  show "device_contract still_env sample_device" by code_simp
qed

lemma sample_enrols:
  obtains k where "w_keys (snd (edge_server still_env sample_config static_mux sample_opa sample_evaluator sample_gate writer_init
      device_post world_init)) = [k]"
    "key_user k = ''alice''" "public_key_pem k \<noteq> []"
proof -
  let ?u = "snd (time_now still_env world_init)" and ?r = "with_claims ''alice'' device_post"
  let ?k = "RegisterDeviceKey still_env (SQLEnclaveKeyRepository still_env) (VerifyAttestation still_env) (rq_ctx ?r) ''alice''
      (device_key sample_device) ''android'' ''valid-mock-token'' ?u"
  have r: "rq_method device_post = ''POST''" "rq_path device_post = ''/auth/register-device''" "rq_raw_path device_post = []"
    by (simp_all add: device_post_def)
  have met: "contract_met still_env device_post" using device_post_json by (simp add: contract_met_def r)
  have pol: "policy_passes device_post" by (simp add: policy_passes_def policy_allows_def r)
  have adm: "jwt_admits sample_gate rw device_post w ''alice''" for rw w
    by (simp add: jwt_admits_def sample_gate_def device_post_def header_get_def)
  have run: "edge_server still_env sample_config static_mux sample_opa sample_evaluator sample_gate writer_init device_post world_init =
      MetricsMiddleware still_env (\<lambda>v q u. RegisterDevice still_env (SQLEnclaveKeyRepository still_env) (VerifyAttestation still_env) v
        (with_claims ''alice'' q) u) writer_init device_post world_init"
    using edge_runs [OF static_mux_ok sample_runs r(3) met pol r(1) _ adm] by (simp add: edge_handler_def r)
  have "decode_body (rq_body device_post) = Some sample_device_json" by (rule decode_body_json [OF device_post_json(1)])
  then have k: "w_keys (snd (RegisterDevice still_env (SQLEnclaveKeyRepository still_env) (VerifyAttestation still_env)
      (push_cell writer_init) ?r ?u)) = w_keys (snd ?k)"
    using device_post_json(2)
    by (simp add: RegisterDevice_def sample_device_def device_key_def split: prod.split option.split)
  have "fst ?k = None" by code_simp
  then obtain w1 where w1: "?k = (None, w1)" by (metis prod.collapse)
  obtain row where row: "row \<in> set (w_keys w1)" "key_user row = ''alice''" "public_key_pem row = dr_pem sample_device"
    by (rule registered_row [OF w1]) (simp_all add: device_key_def sample_device_def)
  have "w_keys w1 \<noteq> w_keys ?u" using row(1) by (auto simp: world_init_def)
  from register_change(2) [OF w1 this] obtain k where "w_keys w1 = [k]" by (auto simp: world_init_def)
  with row that show ?thesis unfolding run Metrics_world(2) k w1 by (simp add: sample_device_def)
qed

end
