(* ===== verification/SystemRun.thy ===== *)
theory SystemRun
  imports EnrolFlow
begin

text \<open>
  The two servers over one database, as requests arrive at either in any order: what the table
  of keys says about the past, and so what an executed transfer says about it.
\<close>

datatype server = Edge | Intranet

text \<open>An arrival is a server, the request, and the world it found.\<close>

type_synonym arrival = "server \<times> request \<times> world"

inductive runs ::
  "env \<Rightarrow> bank_config \<Rightarrow> 'k crypto_lib \<Rightarrow> (route list \<Rightarrow> handler) \<Rightarrow> 'q opa_lib \<Rightarrow> 'q opa_evaluator \<Rightarrow>
   (handler \<Rightarrow> handler) \<Rightarrow> arrival list \<Rightarrow> world \<Rightarrow> bool"
  for e cfg lib mux opa ev jwt where
  start: "w_keys w = [] \<Longrightarrow> runs e cfg lib mux opa ev jwt [] w"
| at_edge: "runs e cfg lib mux opa ev jwt as w \<Longrightarrow> rq_raw_path r = [] \<Longrightarrow>
    runs e cfg lib mux opa ev jwt (as @ [(Edge, r, w)]) (snd (edge_server e cfg mux opa ev jwt writer_init r w))"
| at_intranet: "runs e cfg lib mux opa ev jwt as w \<Longrightarrow> rq_raw_path r = [] \<Longrightarrow>
    runs e cfg lib mux opa ev jwt (as @ [(Intranet, r, w)]) (snd (private_server e cfg lib mux opa ev writer_init r w))"

inductive_cases runs_start: "runs e cfg lib mux opa ev jwt [] w"

text \<open>A request that enrols a key: attested, by a subject the gate admitted, who owns the key.\<close>

definition enrols :: "env \<Rightarrow> (handler \<Rightarrow> handler) \<Rightarrow> request \<Rightarrow> world \<Rightarrow> enclave_key \<Rightarrow> bool" where
  "enrols e jwt r w k \<longleftrightarrow>
     rq_path r = ''/auth/register-device'' \<and> rq_method r = ''POST'' \<and>
     (\<exists>d subj now.
        Option.bind (body_json r) device_of_json = Some d \<and> device_contract e d \<and>
        attested e (dr_platform d) (dr_token d) \<and>
        jwt_admits jwt (push_cell writer_init) r (snd (time_now e w)) subj \<and>
        key_row e ((device_key d)\<lparr>key_user := subj, registered_at := now\<rparr>) = Some k)"

lemma edge_enrols_key:
  assumes "mux_ok mux" "jwt_gate jwt" "runs_policy opa ev" "rq_raw_path r = []"
    and "k \<in> set (w_keys (snd (edge_server e cfg mux opa ev jwt writer_init r w)))" "k \<notin> set (w_keys w)"
  shows "enrols e jwt r w k"
proof -
  have "w_keys (snd (edge_server e cfg mux opa ev jwt writer_init r w)) \<noteq> w_keys w" using assms(5,6) by auto
  with assms(1-4) obtain d subj now row where row: "rq_path r = ''/auth/register-device''" "rq_method r = ''POST''"
    "Option.bind (body_json r) device_of_json = Some d" "device_contract e d"
    "jwt_admits jwt (push_cell writer_init) r (snd (time_now e w)) subj" "attested e (dr_platform d) (dr_token d)"
    "key_row e ((device_key d)\<lparr>key_user := subj, registered_at := now\<rparr>) = Some row"
    "w_keys (snd (edge_server e cfg mux opa ev jwt writer_init r w)) = w_keys w @ [row]"
    by (rule edge_keys)
  then have "k = row" using assms(5,6) by simp
  with row(1-7) show ?thesis unfolding enrols_def by blast
qed

lemma execute_keys_handler:
  "w_keys (snd (ExecutePrivateTransfer e cfg lib (SQLEnclaveKeyRepository e) rw r w)) = w_keys w"
proof -
  have "w_keys w' = w_keys w" if "ExecuteIntranetTransfer e cfg lib (SQLEnclaveKeyRepository e) ctx token p w = (x, w')"
    for ctx token p x w'
    using execute_keys [of e cfg lib ctx token p w] that by simp
  then show ?thesis
    by (auto simp: ExecutePrivateTransfer_def Let_def split: option.split prod.split)
qed

lemma private_keys:
  assumes "mux_ok mux" "runs_policy opa ev" "rq_raw_path r = []"
  shows "w_keys (snd (private_server e cfg lib mux opa ev rw r w)) = w_keys w"
proof -
  let ?h = "ExecutePrivateTransfer e cfg lib (SQLEnclaveKeyRepository e)"
  let ?routes = "[(''POST'', ''/private/transfers'', ?h)]"
  let ?pol = "PolicyMiddleware_Handler opa ev (mux ?routes)"
  have mux: "w_keys (snd (mux ?routes v (snd (policy_body r)) u)) = w_keys u" for v u
    using mux_route(1) [OF assms(1), of "snd (policy_body r)" ?routes v u] assms(3)
    by (auto simp: route_for_def policy_body_frame execute_keys_handler split: if_splits)
  have pol: "w_keys (snd (?pol v r u)) = w_keys u" for v u
    using handler_decides [OF assms(2), of r "mux ?routes" v u] mux by (auto split: if_splits)
  have "w_keys (snd (SchemaValidationMiddleware e ?pol v r u)) = w_keys u" for v u
    using schema_pass [of e r ?pol v u] schema_reject [of e r ?pol v u] pol by (cases "contract_met e r") auto
  then show ?thesis unfolding PrivateRoutes_def WithOPAMiddleware_def option.case Metrics_world(2) by simp
qed

text \<open>Every key in the table was enrolled by an earlier request.\<close>

lemma runs_provenance:
  assumes "runs e cfg lib mux opa ev jwt as w" "mux_ok mux" "jwt_gate jwt" "runs_policy opa ev" "k \<in> set (w_keys w)"
  shows "\<exists>r v. (Edge, r, v) \<in> set as \<and> enrols e jwt r v k"
  using assms
proof (induction arbitrary: k rule: runs.induct)
  case (at_edge as w r)
  show ?case
  proof (cases "k \<in> set (w_keys w)")
    case True
    from at_edge.IH [OF at_edge.prems(1-3) this] obtain r' v where "(Edge, r', v) \<in> set as" "enrols e jwt r' v k" by blast
    then show ?thesis by auto
  next
    case False
    from edge_enrols_key [OF at_edge.prems(1-3) at_edge.hyps(2) at_edge.prems(4) False] show ?thesis by auto
  qed
next
  case (at_intranet as w r)
  from at_intranet.prems(4) have "k \<in> set (w_keys w)"
    by (simp add: private_keys [OF at_intranet.prems(1,3) at_intranet.hyps(2)])
  from at_intranet.IH [OF at_intranet.prems(1-3) this] obtain r' v where "(Edge, r', v) \<in> set as" "enrols e jwt r' v k" by blast
  then show ?case by auto
qed simp

subsection \<open>A sample\<close>

text \<open>The owner of a registered key can have a transfer executed.\<close>

lemma sample_later:
  assumes "w_keys w = [k]" "key_user k = ''alice''" "public_key_pem k \<noteq> []"
  obtains token bytes where "sent_status (fst (private_server still_env sample_config open_lib static_mux sample_opa
      sample_evaluator writer_init (arrives remote (transfer_request sample_config token bytes)) w)) = 200"
proof -
  obtain token where t: "fst (GenerateInternalJWT still_env ''alice'' (Some [''transfer:execute'']) (shared_secret sample_config)
      minute world_init) = Inr token"
    using any_token by blast
  obtain bytes where b: "payload_marshal sample_payload = Some bytes" using sample_marshal ..
  have "VerifyEnclaveSignature still_env open_lib (public_key_pem k) (Some sample_payload) = None"
    using open_verifies [OF assms(3), of still_env "tx_id sample_payload"] by (simp add: sample_payload_def)
  then have k: "\<exists>k. k \<in> set (w_keys w) \<and> key_user k = ''alice'' \<and>
      VerifyEnclaveSignature still_env open_lib (public_key_pem k) (Some sample_payload) = None"
    using assms(1,2) by simp
  show ?thesis
    by (rule that [of token bytes], subst end_to_end [OF t b sample_execution _ _ _ refl _ static_mux_ok sample_runs])
       (simp_all only: still_times in_int64_def k, simp_all add: still_env_def sample_env_def)
qed

end
