(* ===== verification/PolicyWatch.thy ===== *)
theory PolicyWatch
  imports PolicyMiddleware
begin

text \<open>
  \<open>StartWatcher\<close> of \<open>internal/adapters/handler/policy_middleware.go\<close>: the goroutine that loads
  the policy again when its file changes. One iteration of its loop, the state after the events
  received so far, and the loop itself, which may run for ever.
\<close>

text \<open>
  What the goroutine receives: a file event with its name and whether it is a write or a
  create, an error, the closing of a channel, the end of the context. The last two end it.
\<close>

datatype watch_event = FileEvent string bool bool | WatchError go_error | ChannelClosed | ContextDone

fun closes :: "watch_event \<Rightarrow> bool" where
  "closes ChannelClosed = True"
| "closes ContextDone = True"
| "closes _ = False"

fun watch_step ::
  "'q opa_lib \<Rightarrow> go_ctx \<Rightarrow> watch_event \<Rightarrow> 'q opa_evaluator \<Rightarrow> world \<Rightarrow> 'q opa_evaluator \<times> world" where
  "watch_step lib ctx (FileEvent name wr cr) ev w =
     (if wr \<or> cr then
        (let w1 = InfoContext ctx ''embedded OPA policy file changed, hot-reloading...'' [(''path'', AStr name)] w
         in case reload lib ev of
              (Some err, ev1) \<Rightarrow>
                (ev1, ErrorContext ctx ''failed to reload OPA policy rules'' [(''error'', AErr err)] w1)
            | (None, ev1) \<Rightarrow>
                (ev1, InfoContext ctx ''embedded OPA policy rules successfully hot-reloaded and compiled'' [] w1))
      else (ev, w))"
| "watch_step lib ctx (WatchError err) ev w =
     (ev, ErrorContext ctx ''fsnotify OPA policy watcher error'' [(''error'', AErr err)] w)"
| "watch_step lib ctx _ ev w = (ev, w)"

text \<open>The state after the events received so far.\<close>

fun watch_loop ::
  "'q opa_lib \<Rightarrow> go_ctx \<Rightarrow> watch_event list \<Rightarrow> 'q opa_evaluator \<Rightarrow> world \<Rightarrow> 'q opa_evaluator \<times> world" where
  "watch_loop lib ctx [] ev w = (ev, w)"
| "watch_loop lib ctx (event # es) ev w =
     (if closes event then (ev, w)
      else (case watch_step lib ctx event ev w of (ev1, w1) \<Rightarrow> watch_loop lib ctx es ev1 w1))"

text \<open>
  The loop on what its \<open>select\<close> receives the \<open>k\<close>-th time, \<open>None\<close> where it waits for ever. It
  has a value only if it returns.
\<close>

partial_function (option) watch_run ::
  "'q opa_lib \<Rightarrow> go_ctx \<Rightarrow> (nat \<Rightarrow> watch_event option) \<Rightarrow> nat \<Rightarrow> 'q opa_evaluator \<Rightarrow> world \<Rightarrow>
   ('q opa_evaluator \<times> world) option" where
  "watch_run lib ctx es k ev w =
     (case es k of
        None \<Rightarrow> None
      | Some event \<Rightarrow>
          (if closes event then Some (ev, w)
           else (case watch_step lib ctx event ev w of (ev1, w1) \<Rightarrow> watch_run lib ctx es (Suc k) ev1 w1)))"

text \<open>
  \<open>StartWatcher\<close> returns an error when the watcher cannot be made or cannot watch the path;
  the loop runs on in either case of the latter.
\<close>

definition StartWatcher ::
  "'q opa_lib \<Rightarrow> go_error option \<Rightarrow> go_error option \<Rightarrow> go_ctx \<Rightarrow> watch_event list \<Rightarrow> 'q opa_evaluator \<Rightarrow> world \<Rightarrow>
   go_error option \<times> 'q opa_evaluator \<times> world" where
  "StartWatcher lib new_err add_err ctx events ev w =
     (case new_err of
        Some err \<Rightarrow> (Some err, ev, w)
      | None \<Rightarrow> (add_err, watch_loop lib ctx events ev w))"

subsection \<open>The loop and its events\<close>

lemma watch_run_stops: "es k = Some event \<Longrightarrow> closes event \<Longrightarrow> watch_run lib ctx es k ev w = Some (ev, w)"
  by (simp add: watch_run.simps)

text \<open>Events that do not end the loop, \<open>n\<close> of them from the \<open>k\<close>-th on.\<close>

definition keeps_on :: "(nat \<Rightarrow> watch_event option) \<Rightarrow> nat \<Rightarrow> nat \<Rightarrow> bool" where
  "keeps_on es k n \<longleftrightarrow> (\<forall>i<n. \<exists>event. es (k + i) = Some event \<and> \<not> closes event)"

lemma keeps_on_Suc:
  "keeps_on es k (Suc n) \<longleftrightarrow> (\<exists>event. es k = Some event \<and> \<not> closes event) \<and> keeps_on es (Suc k) n"
  unfolding keeps_on_def less_Suc_eq_0_disj by auto

lemma watch_run_after:
  assumes "keeps_on es k n"
  shows "watch_run lib ctx es k ev w =
     (case watch_loop lib ctx (map (\<lambda>i. the (es (k + i))) [0..<n]) ev w of (ev1, w1) \<Rightarrow> watch_run lib ctx es (k + n) ev1 w1)"
  using assms
proof (induction n arbitrary: k ev w)
  case (Suc n)
  obtain event where e: "es k = Some event" "\<not> closes event" "keeps_on es (Suc k) n"
    using Suc.prems unfolding keeps_on_Suc by blast
  obtain ev1 w1 where s: "watch_step lib ctx event ev w = (ev1, w1)" by fastforce
  have "map (\<lambda>i. the (es (k + i))) [0..<Suc n] = event # map (\<lambda>i. the (es (Suc k + i))) [0..<n]"
    unfolding upt_conv_Cons [OF zero_less_Suc] map_Suc_upt [symmetric] by (simp add: e(1))
  with Suc.IH [OF e(3), of ev1 w1] e(1,2) s show ?case
    by (simp add: watch_run.simps [of lib ctx es k])
qed simp

lemma watch_run_Some:
  assumes "watch_run lib ctx es k ev w = Some s"
  shows "\<exists>n event. keeps_on es k n \<and> es (k + n) = Some event \<and> closes event"
proof (rule watch_run.raw_induct [OF _ assms,
      where P = "\<lambda>_ _ es k _ _ _. \<exists>n event. keeps_on es k n \<and> es (k + n) = Some event \<and> closes event"])
  fix f lib ctx es k ev w s
  assume IH: "\<And>lib ctx es k ev w s. f lib ctx es k ev w = Some s \<Longrightarrow>
      \<exists>n event. keeps_on es k n \<and> es (k + n) = Some event \<and> closes event"
    and run: "(case es k of None \<Rightarrow> None
      | Some event \<Rightarrow> if closes event then Some (ev, w)
          else (case watch_step lib ctx event ev w of (ev1, w1) \<Rightarrow> f lib ctx es (Suc k) ev1 w1)) = Some s"
  from run obtain event where e: "es k = Some event" by (auto split: option.splits)
  show "\<exists>n event. keeps_on es k n \<and> es (k + n) = Some event \<and> closes event"
  proof (cases "closes event")
    case True
    with e show ?thesis by (intro exI [of _ 0]) (simp add: keeps_on_def)
  next
    case False
    obtain ev1 w1 where "watch_step lib ctx event ev w = (ev1, w1)" by fastforce
    with run e False have "f lib ctx es (Suc k) ev1 w1 = Some s" by simp
    from IH [OF this] obtain n c where "keeps_on es (Suc k) n" "es (Suc k + n) = Some c" "closes c" by blast
    with e False show ?thesis by (intro exI [of _ "Suc n"]) (simp add: keeps_on_Suc)
  qed
qed

lemma watch_run_iff:
  "watch_run lib ctx es 0 ev w = Some s \<longleftrightarrow>
     (\<exists>n event. keeps_on es 0 n \<and> es n = Some event \<and> closes event \<and>
        s = watch_loop lib ctx (map (\<lambda>i. the (es i)) [0..<n]) ev w)"
proof -
  have after: "watch_run lib ctx es 0 ev w = Some (watch_loop lib ctx (map (\<lambda>i. the (es i)) [0..<n]) ev w)"
    if "keeps_on es 0 n" "es n = Some event" "closes event" for n event
    using watch_run_after [OF that(1), of lib ctx ev w] watch_run_stops [of es n event lib ctx, OF that(2,3)] by (simp split: prod.split)
  show ?thesis
  proof
    assume s: "watch_run lib ctx es 0 ev w = Some s"
    from watch_run_Some [OF s] obtain n event where "keeps_on es 0 n" "es n = Some event" "closes event" by auto
    with after [OF this] s show "\<exists>n event. keeps_on es 0 n \<and> es n = Some event \<and> closes event \<and>
        s = watch_loop lib ctx (map (\<lambda>i. the (es i)) [0..<n]) ev w" by auto
  qed (use after in blast)
qed

subsection \<open>The query in force\<close>

lemma watch_step_query:
  assumes "watch_step lib ctx event ev w = (ev1, w1)"
  shows "ev_path ev1 = ev_path ev"
    and "ev1 = ev \<or> ev_reads ev1 = Suc (ev_reads ev) \<and>
      (case compile_policy lib (ev_path ev) (ev_reads ev) of Inl err \<Rightarrow> ev_query ev1 = ev_query ev | Inr c \<Rightarrow> ev_query ev1 = c)"
  using assms by (cases event; auto simp: reload_def Let_def split: if_splits option.splits sum.splits)+

lemma watch_loop_query:
  assumes "watch_loop lib ctx es ev w = (ev', w')"
  shows "ev_reads ev \<le> ev_reads ev' \<and> ev_path ev' = ev_path ev \<and>
     (case filter (\<lambda>k. \<not> isl (compile_policy lib (ev_path ev) k)) (rev [ev_reads ev..<ev_reads ev']) of
        [] \<Rightarrow> ev_query ev' = ev_query ev
      | k # _ \<Rightarrow> compile_policy lib (ev_path ev) k = Inr (ev_query ev'))"
  using assms
proof (induction es arbitrary: ev w)
  case (Cons event es)
  show ?case
  proof (cases "closes event")
    case False
    obtain ev1 w1 where s: "watch_step lib ctx event ev w = (ev1, w1)" by fastforce
    with Cons.prems False have l: "watch_loop lib ctx es ev1 w1 = (ev', w')" by simp
    note IH = Cons.IH [OF l]
    from watch_step_query(2) [OF s] show ?thesis
    proof
      assume ev1: "ev_reads ev1 = Suc (ev_reads ev) \<and>
        (case compile_policy lib (ev_path ev) (ev_reads ev) of Inl err \<Rightarrow> ev_query ev1 = ev_query ev | Inr c \<Rightarrow> ev_query ev1 = c)"
      then have "ev_reads ev < ev_reads ev'" using IH by simp
      then have "[ev_reads ev..<ev_reads ev'] = ev_reads ev # [ev_reads ev1..<ev_reads ev']"
        using ev1 by (simp add: upt_conv_Cons)
      with IH ev1 watch_step_query(1) [OF s] show ?thesis
        by (cases "compile_policy lib (ev_path ev) (ev_reads ev)") (auto split: list.splits)
    next
      assume ev1: "ev1 = ev"
      show ?thesis using IH unfolding ev1 .
    qed
  qed (use Cons.prems in simp)
qed simp

subsection \<open>What the events lead to\<close>

text \<open>The first \<open>n\<close> events, those that load the policy, those that report an error.\<close>

definition received :: "(nat \<Rightarrow> watch_event option) \<Rightarrow> nat \<Rightarrow> watch_event list" where
  "received es n = map (\<lambda>i. the (es i)) [0..<n]"

fun reloads :: "watch_event \<Rightarrow> bool" where
  "reloads (FileEvent _ wr cr) \<longleftrightarrow> wr \<or> cr"
| "reloads _ \<longleftrightarrow> False"

fun fails :: "watch_event \<Rightarrow> bool" where
  "fails (WatchError _) \<longleftrightarrow> True"
| "fails _ \<longleftrightarrow> False"

lemma closes_iff: "closes a \<longleftrightarrow> a = ChannelClosed \<or> a = ContextDone"
  by (cases a) simp_all

lemma watch_step_effect:
  assumes "watch_step lib ctx a ev w = (ev', w')"
  shows "ev_reads ev' = ev_reads ev + (if reloads a then 1 else 0) \<and> w' = w\<lparr>w_log := w_log w'\<rparr> \<and>
     length (w_log w') = length (w_log w) + (if reloads a then 2 else 0) + (if fails a then 1 else 0)"
  using assms by (cases a; auto simp: reload_def Let_def log_at_def split: if_splits option.splits sum.splits)

lemma watch_loop_effect:
  assumes "watch_loop lib ctx as ev w = (ev', w')" "list_all (\<lambda>a. \<not> closes a) as"
  shows "ev_reads ev' = ev_reads ev + length (filter reloads as) \<and> w' = w\<lparr>w_log := w_log w'\<rparr> \<and>
     length (w_log w') = length (w_log w) + 2 * length (filter reloads as) + length (filter fails as)"
  using assms
proof (induction as arbitrary: ev w)
  case (Cons a as)
  obtain ev1 w1 where s: "watch_step lib ctx a ev w = (ev1, w1)" by fastforce
  with Cons.prems have "watch_loop lib ctx as ev1 w1 = (ev', w')" "list_all (\<lambda>a. \<not> closes a) as" by simp_all
  from Cons.IH [OF this] watch_step_effect [OF s] show ?case by (cases w; cases w1; cases w') auto
qed simp

text \<open>A loop that does not wait in vain reaches the first event that ends it.\<close>

lemma watch_run_stop:
  assumes "es n \<in> {Some ChannelClosed, Some ContextDone}" "\<not> (\<exists>i<n. es i = None)"
  shows "watch_run lib ctx es 0 ev w \<noteq> None"
proof -
  define m where "m = (LEAST m. es m \<in> {Some ChannelClosed, Some ContextDone})"
  have m: "es m \<in> {Some ChannelClosed, Some ContextDone}" unfolding m_def by (rule LeastI) (rule assms(1))
  have "m \<le> n" unfolding m_def by (rule Least_le) (rule assms(1))
  have "\<exists>a. es i = Some a \<and> \<not> closes a" if "i < m" for i
  proof -
    have "i < n" using that \<open>m \<le> n\<close> by (rule less_le_trans)
    with not_less_Least [OF that [unfolded m_def]] assms(2) show ?thesis by (cases "es i") (auto simp: closes_iff)
  qed
  then have "keeps_on es 0 m" by (simp add: keeps_on_def)
  moreover obtain event where "es m = Some event" "closes event" using m by (auto simp: closes_iff)
  ultimately show ?thesis using watch_run_iff [of lib ctx es ev w] by blast
qed

subsection \<open>Properties\<close>

text \<open>
  C34 (watcher_returns): the watcher runs until its context ends or a channel is closed, and no
  longer. Unless it waits for ever before that, it returns; it has then tried to load the policy
  once for each write or create it was told of before, in force is what the last load that
  succeeded compiled, and nothing of the world but the log has changed, which has two more lines
  for each load and one for each error of the watcher.
\<close>

theorem watcher_returns:
  "case watch_run lib ctx es 0 ev w of
     None \<Rightarrow> \<forall>n. es n \<in> {Some ChannelClosed, Some ContextDone} \<longrightarrow> (\<exists>i<n. es i = None)
   | Some (ev', w') \<Rightarrow>
       \<exists>n. es n \<in> {Some ChannelClosed, Some ContextDone} \<and>
         (\<forall>i<n. es i \<notin> {None, Some ChannelClosed, Some ContextDone}) \<and>
         ev_path ev' = ev_path ev \<and> ev_reads ev' = ev_reads ev + length (filter reloads (received es n)) \<and>
         (case filter (\<lambda>k. \<not> isl (compile_policy lib (ev_path ev) k)) (rev [ev_reads ev..<ev_reads ev']) of
            [] \<Rightarrow> ev_query ev' = ev_query ev
          | k # _ \<Rightarrow> compile_policy lib (ev_path ev) k = Inr (ev_query ev')) \<and>
         w' = w\<lparr>w_log := w_log w'\<rparr> \<and>
         length (w_log w') = length (w_log w) + 2 * length (filter reloads (received es n)) +
           length (filter fails (received es n))"
proof (cases "watch_run lib ctx es 0 ev w")
  case None
  have "\<exists>i<n. es i = None" if stop: "es n \<in> {Some ChannelClosed, Some ContextDone}" for n
  proof (rule ccontr)
    assume "\<not> (\<exists>i<n. es i = None)"
    with watch_run_stop [of es n lib ctx ev w] stop None show False by simp
  qed
  with None show ?thesis by simp
next
  case (Some s)
  obtain ev' w' where s: "s = (ev', w')" by fastforce
  from Some [unfolded watch_run_iff] s obtain n event where n: "keeps_on es 0 n" "es n = Some event" "closes event"
    "watch_loop lib ctx (received es n) ev w = (ev', w')" by (metis received_def)
  have open_events: "list_all (\<lambda>a. \<not> closes a) (received es n)"
    using n(1) by (auto simp: keeps_on_def received_def list_all_iff)
  have "es n \<in> {Some ChannelClosed, Some ContextDone}" using n(2,3) by (simp add: closes_iff)
  moreover have "\<forall>i<n. es i \<notin> {None, Some ChannelClosed, Some ContextDone}"
    using n(1) by (force simp: keeps_on_def closes_iff)
  moreover note watch_loop_query [OF n(4)] watch_loop_effect [OF n(4) open_events]
  ultimately show ?thesis unfolding Some s option.case prod.case by blast
qed

theorem watcher_returns_witness:
  "\<exists>ev' w'. watch_run sample_opa background
     (\<lambda>i. Some (if i < 3 then FileEvent ''policy.rego'' True False else ContextDone)) 0 sample_evaluator world_init = Some (ev', w') \<and>
     ev_reads ev' = ev_reads sample_evaluator + 3"
proof -
  let ?es = "\<lambda>i. Some (if i < 3 then FileEvent ''policy.rego'' True False else ContextDone)"
  have stop: "?es n \<in> {Some ChannelClosed, Some ContextDone} \<longleftrightarrow> 3 \<le> n" for n :: nat by auto
  have goes: "?es i \<notin> {None, Some ChannelClosed, Some ContextDone} \<longleftrightarrow> i < 3" for i :: nat by auto
  note ret = watcher_returns [where lib = sample_opa and ctx = background and es = ?es and ev = sample_evaluator and w = world_init]
  obtain ev' w' where run: "watch_run sample_opa background ?es 0 sample_evaluator world_init = Some (ev', w')"
    using ret by (cases "watch_run sample_opa background ?es 0 sample_evaluator world_init") (auto simp del: insert_iff split: if_splits)
  from ret [unfolded run option.case prod.case stop goes] obtain n where n: "3 \<le> n" "\<forall>i<n. i < 3"
    "ev_reads ev' = ev_reads sample_evaluator + length (filter reloads (received ?es n))" by blast
  have "n = 3" using n(1,2) by (metis le_less_linear le_antisym less_irrefl)
  then have "received ?es n = replicate 3 (FileEvent ''policy.rego'' True False)"
    by (simp add: received_def upt_rec numeral_3_eq_3)
  with run n(3) show ?thesis by simp
qed

text \<open>
  C33 (hot_reload): whatever the watcher of the policy file reports, the query in force is the
  one of the last load that succeeded, the first included; loads that fail change nothing.
\<close>

theorem hot_reload:
  assumes "watch_loop lib ctx es ev w = (ev', w')"
  shows "ev_reads ev \<le> ev_reads ev' \<and> ev_path ev' = ev_path ev \<and>
     (case filter (\<lambda>k. \<not> isl (compile_policy lib (ev_path ev) k)) (rev [ev_reads ev..<ev_reads ev']) of
        [] \<Rightarrow> ev_query ev' = ev_query ev
      | k # _ \<Rightarrow> compile_policy lib (ev_path ev) k = Inr (ev_query ev'))"
  by (rule watch_loop_query [OF assms])

theorem hot_reload_witness:
  "ev_query (fst (watch_loop sample_opa background
     [FileEvent ''policy.rego'' True False, WatchError (ErrNew ''overflow''), ChannelClosed] sample_evaluator world_init)) =
     authz_allow"
proof -
  let ?es = "[FileEvent ''policy.rego'' True False, WatchError (ErrNew ''overflow''), ChannelClosed]"
  obtain ev' w' where l: "watch_loop sample_opa background ?es sample_evaluator world_init = (ev', w')" by fastforce
  then have "ev_reads ev' = 2" by (auto simp: reload_def compile_policy_def sample_opa_def sample_evaluator_def Let_def)
  with hot_reload [OF l] have "ev_query ev' = authz_allow"
    by (simp add: compile_policy_def sample_opa_def sample_evaluator_def numeral_2_eq_2)
  then show ?thesis by (simp only: l fst_conv)
qed

end
