(* ===== verification/MetricsRegistry.thy ===== *)
theory MetricsRegistry
  imports Telemetry GoFloat
begin

text \<open>
  The metrics that \<open>internal/adapters/telemetry/prometheus_metrics.go\<close> defines and registers when
  the program starts. The registry is Prometheus's, a parameter. It panics over a name it has
  seen, an invalid name, or buckets that do not increase, before the program serves anything.
\<close>

subsection \<open>The metrics\<close>

text \<open>A constant of the source as the \<open>float64\<close> it becomes.\<close>

definition float_const :: "rat \<Rightarrow> rat" where
  "float_const x = (case float64 x of Some y \<Rightarrow> y | None \<Rightarrow> 0)"

datatype metric_kind = Histogram "rat list" | Counter | Gauge

record metric_opts =
  mo_kind :: metric_kind
  mo_name :: string
  mo_help :: string
  mo_labels :: "string list"

definition HTTPRequestDuration :: metric_opts where
  "HTTPRequestDuration =
     \<lparr>mo_kind = Histogram (map float_const
        [1 / 1000, 2 / 1000, 5 / 1000, 1 / 100, 2 / 100, 5 / 100, 1 / 10, 2 / 10, 5 / 10, 1, 2, 5]),
      mo_name = ''http_request_duration_seconds'',
      mo_help = ''Histogram of response latencies for HTTP requests.'',
      mo_labels = [''method'', ''path'', ''status'']\<rparr>"

definition HTTPRequestsTotal :: metric_opts where
  "HTTPRequestsTotal =
     \<lparr>mo_kind = Counter, mo_name = ''http_requests_total'',
      mo_help = ''Total count of processed HTTP requests.'',
      mo_labels = [''method'', ''path'', ''status'']\<rparr>"

definition CircuitBreakerState :: metric_opts where
  "CircuitBreakerState =
     \<lparr>mo_kind = Gauge, mo_name = ''circuit_breaker_state'',
      mo_help = ''Current state of circuit breakers (0 = Closed, 1 = HalfOpen, 2 = Open).'',
      mo_labels = [''name'']\<rparr>"

definition JWKSCacheHits :: metric_opts where
  "JWKSCacheHits =
     \<lparr>mo_kind = Counter, mo_name = ''jwks_cache_hits_total'',
      mo_help = ''Total number of JWKS caching hits.'', mo_labels = []\<rparr>"

subsection \<open>The registration\<close>

text \<open>The registry takes a metric or refuses it, and serves what it holds.\<close>

record 'r metric_registry =
  register :: "metric_opts \<Rightarrow> 'r \<Rightarrow> go_error option \<times> 'r"
  exposition :: handler

text \<open>\<open>MustRegister\<close>: a refusal is a panic, \<open>None\<close>.\<close>

definition must_register :: "'r metric_registry \<Rightarrow> metric_opts \<Rightarrow> 'r \<Rightarrow> 'r option" where
  "must_register lib m r = (case register lib m r of (Some err, _) \<Rightarrow> None | (None, r') \<Rightarrow> Some r')"

definition init_metrics :: "'r metric_registry \<Rightarrow> 'r \<Rightarrow> 'r option" where
  "init_metrics lib r =
     Option.bind (must_register lib HTTPRequestDuration r) (\<lambda>r1.
     Option.bind (must_register lib HTTPRequestsTotal r1) (\<lambda>r2.
     Option.bind (must_register lib CircuitBreakerState r2) (\<lambda>r3.
     must_register lib JWKSCacheHits r3)))"

definition MetricsHandler :: "'r metric_registry \<Rightarrow> handler" where
  "MetricsHandler lib = exposition lib"

text \<open>
  What Prometheus asks of a metric: a name of letters, digits, underscores and colons that does
  not start with a digit, labels that are distinct, valid and not reserved, and buckets that increase.
\<close>

definition metric_char :: "char \<Rightarrow> bool" where
  "metric_char c \<longleftrightarrow> is_digit c \<or> c \<in> set ''abcdefghijklmnopqrstuvwxyzABCDEFGHIJKLMNOPQRSTUVWXYZ_''"

definition valid_metric_name :: "string \<Rightarrow> bool" where
  "valid_metric_name s \<longleftrightarrow> s \<noteq> [] \<and> \<not> is_digit (hd s) \<and> list_all (\<lambda>c. metric_char c \<or> c = CHR '':'') s"

definition valid_label :: "string \<Rightarrow> bool" where
  "valid_label s \<longleftrightarrow> s \<noteq> [] \<and> \<not> is_digit (hd s) \<and> list_all metric_char s \<and> take 2 s \<noteq> ''__''"

fun valid_kind :: "string list \<Rightarrow> metric_kind \<Rightarrow> bool" where
  "valid_kind labels (Histogram bs) \<longleftrightarrow> sorted_wrt (<) bs \<and> ''le'' \<notin> set labels"
| "valid_kind _ _ \<longleftrightarrow> True"

definition valid_metric :: "metric_opts \<Rightarrow> bool" where
  "valid_metric m \<longleftrightarrow> valid_metric_name (mo_name m) \<and> valid_kind (mo_labels m) (mo_kind m) \<and>
     list_all valid_label (mo_labels m) \<and> distinct (mo_labels m)"

text \<open>A registry takes every valid metric under a name it does not hold.\<close>

definition registry_ok :: "'r metric_registry \<Rightarrow> ('r \<Rightarrow> string set) \<Rightarrow> bool" where
  "registry_ok lib names \<longleftrightarrow>
     (\<forall>m r. valid_metric m \<and> mo_name m \<notin> names r \<longrightarrow>
        (\<exists>r'. register lib m r = (None, r') \<and> names r' = insert (mo_name m) (names r)))"

subsection \<open>The start does not panic\<close>

text \<open>Constants that are far enough apart stay in order when rounded.\<close>

lemma float_const_near:
  assumes "1 / 2 ^ 100 \<le> x" "x \<le> 2 ^ 200"
  shows "\<bar>float_const x - x\<bar> \<le> x / 2 ^ 53"
  using float64_near [OF assms] by (auto simp: float_const_def)

lemma float_const_less:
  assumes "1 / 2 ^ 100 \<le> x" "2 * x \<le> y" "y \<le> 2 ^ 200"
  shows "float_const x < float_const y"
proof -
  have x: "0 < x" using less_le_trans [OF _ assms(1)] by simp
  have "\<bar>float_const x - x\<bar> \<le> x / 2 ^ 53" "\<bar>float_const y - y\<bar> \<le> y / 2 ^ 53"
    by (rule float_const_near; use assms x in linarith)+
  moreover have "x / 2 ^ 53 \<le> x / 8" "y / 2 ^ 53 \<le> y / 8" using x assms(2) by (auto intro!: divide_left_mono)
  ultimately show ?thesis using assms(2) x by linarith
qed

lemma sorted_float_const:
  assumes "sorted_wrt (\<lambda>x y. 2 * x \<le> y) xs" "list_all (\<lambda>x. 1 / 2 ^ 100 \<le> x \<and> x \<le> 2 ^ 200) xs"
  shows "sorted_wrt (<) (map float_const xs)"
  using assms by (induction xs) (auto simp: list_all_iff intro: float_const_less)

lemma metrics_named:
  "valid_metric_name (mo_name HTTPRequestDuration) \<and> list_all valid_label (mo_labels HTTPRequestDuration) \<and>
     distinct (mo_labels HTTPRequestDuration) \<and> ''le'' \<notin> set (mo_labels HTTPRequestDuration)"
  unfolding HTTPRequestDuration_def metric_opts.simps by code_simp

lemma metrics_valid:
  "valid_metric HTTPRequestDuration" "valid_metric HTTPRequestsTotal" "valid_metric CircuitBreakerState" "valid_metric JWKSCacheHits"
proof -
  have "sorted_wrt (<) (map float_const
      [1 / 1000, 2 / 1000, 5 / 1000, 1 / 100, 2 / 100, 5 / 100, 1 / 10, 2 / 10, 5 / 10, 1, 2, 5])"
    by (rule sorted_float_const) simp_all
  then have "valid_kind (mo_labels HTTPRequestDuration) (mo_kind HTTPRequestDuration)"
    using metrics_named by (simp add: HTTPRequestDuration_def)
  then show "valid_metric HTTPRequestDuration" using metrics_named by (simp add: valid_metric_def)
  show "valid_metric HTTPRequestsTotal" "valid_metric CircuitBreakerState" "valid_metric JWKSCacheHits"
    by code_simp+
qed

lemma must_register_new:
  assumes "registry_ok lib names" "valid_metric m" "mo_name m \<notin> names r"
  obtains r' where "must_register lib m r = Some r'" "names r' = insert (mo_name m) (names r)"
  proof -
  obtain r' where "register lib m r = (None, r')" "names r' = insert (mo_name m) (names r)"
    using assms unfolding registry_ok_def by blast
  with that show ?thesis by (simp add: must_register_def)
qed

text \<open>The program starts on every registry that holds none of its names.\<close>

theorem init_registers:
  assumes "registry_ok lib names"
    and "names r \<inter> {''http_request_duration_seconds'', ''http_requests_total'', ''circuit_breaker_state'', ''jwks_cache_hits_total''} = {}"
  shows "\<exists>r'. init_metrics lib r = Some r' \<and> names r' = names r \<union>
     {''http_request_duration_seconds'', ''http_requests_total'', ''circuit_breaker_state'', ''jwks_cache_hits_total''}"
proof -
  note new = must_register_new [OF assms(1)]
  have n: "mo_name HTTPRequestDuration = ''http_request_duration_seconds''" "mo_name HTTPRequestsTotal = ''http_requests_total''"
    "mo_name CircuitBreakerState = ''circuit_breaker_state''" "mo_name JWKSCacheHits = ''jwks_cache_hits_total''"
    by (simp_all add: HTTPRequestDuration_def HTTPRequestsTotal_def CircuitBreakerState_def JWKSCacheHits_def)
  obtain r1 where r1: "must_register lib HTTPRequestDuration r = Some r1" "names r1 = insert (mo_name HTTPRequestDuration) (names r)"
    using assms(2) by (rule_tac new [OF metrics_valid(1), of r]) (auto simp: n)
  obtain r2 where r2: "must_register lib HTTPRequestsTotal r1 = Some r2" "names r2 = insert (mo_name HTTPRequestsTotal) (names r1)"
    using assms(2) r1(2) by (rule_tac new [OF metrics_valid(2), of r1]) (auto simp: n)
  obtain r3 where r3: "must_register lib CircuitBreakerState r2 = Some r3" "names r3 = insert (mo_name CircuitBreakerState) (names r2)"
    using assms(2) r1(2) r2(2) by (rule_tac new [OF metrics_valid(3), of r2]) (auto simp: n)
  obtain r4 where "must_register lib JWKSCacheHits r3 = Some r4" "names r4 = insert (mo_name JWKSCacheHits) (names r3)"
    using assms(2) r1(2) r2(2) r3(2) by (rule_tac new [OF metrics_valid(4), of r3]) (auto simp: n)
  with r1 r2 r3 show ?thesis by (auto simp: init_metrics_def n)
qed

text \<open>A registry that keeps the names it was given.\<close>

definition name_registry :: "string list metric_registry" where
  "name_registry =
     \<lparr>register = (\<lambda>m r. if mo_name m \<in> set r
        then (Some (ErrNew ''duplicate metrics collector registration attempted''), r) else (None, mo_name m # r)),
      exposition = (\<lambda>rw r w. (write_header 200 rw, w))\<rparr>"

theorem init_registers_witness: "\<exists>r. init_metrics name_registry [] = Some r \<and> ''http_requests_total'' \<in> set r"
proof -
  have "registry_ok name_registry set" by (simp add: registry_ok_def name_registry_def)
  from init_registers [OF this, of "[]"] show ?thesis by auto
qed

text \<open>
  The middleware updates the histogram and the counter with as many label values as they have
  labels.
\<close>

lemma request_labels:
  "length [rq_method r, metric_path (rq_path r), StatusText s] = length (mo_labels HTTPRequestDuration)"
  "mo_labels HTTPRequestsTotal = mo_labels HTTPRequestDuration"
  by (simp_all add: HTTPRequestDuration_def HTTPRequestsTotal_def)

end
