(* ===== verification/Spec2Isabelle.thy ===== *)
theory Spec2Isabelle
  imports Prelude GoStrings GoEncoding GoHash GoJSON GoTime GoUrl GoFloat CoreDomain BankDomain World
    Pkce SessionRepo Auth0Gateway AuthService CallbackRace Http Telemetry Middleware AuthHandler
    BankCrypto Signature Attestation KeyRepo BankService SchemaMiddleware PolicyMiddleware RateLimiter
    BankHandler Tracer SessionRefinement LimiterFlow LoginFlow DeviceFlow
    PayloadTyping TransferFlow EnrolFlow SystemRun PolicyWatch MetricsRegistry
begin

text \<open>
  A verification library of the banking API gateway in \<open>src/\<close>, a Go program of an edge server,
  which browsers and phones talk to, and an intranet server, which only the edge talks to.

  \<^bold>\<open>The program.\<close> The edge logs users in at an identity provider (the authorization code flow
  with PKCE), keeps the transient login session in PostgreSQL, registers the signing keys of
  devices after a check of their attestation, and forwards transfers to the intranet under an
  internal token of one minute. The intranet verifies the internal token and the device's
  signature before it executes a transfer. In front of the handlers stand middlewares: the
  correlation identifier, metrics, the schema check, the policy of an embedded engine, the JWT
  check and a rate limiter whose token bucket lives in Valkey.

  \<^bold>\<open>The theories\<close>, each on those above it.
    \<^item> \<open>Prelude\<close>: Go errors and their chains, bytes and strings, list lemmas, the collections.
    \<^item> \<open>GoStrings\<close>, \<open>GoEncoding\<close>, \<open>GoHash\<close>, \<open>GoJSON\<close>, \<open>GoTime\<close>, \<open>GoUrl\<close>, \<open>GoFloat\<close>: what the program
      uses of Go's standard library, with the round trips of its encoders and decoders.
    \<^item> \<open>CoreDomain\<close> (\<open>internal/core/domain\<close>), \<open>BankDomain\<close> (\<open>internal/banking/domain\<close>).
    \<^item> \<open>World\<close>: the environment, the state, and the primitives that read and change it.
    \<^item> \<open>Pkce\<close> (\<open>adapters/crypto/pkce.go\<close>), \<open>SessionRepo\<close> (\<open>sql_session_repository.go\<close> and the schema),
      \<open>Auth0Gateway\<close> (\<open>auth0_gateway.go\<close>), \<open>AuthService\<close> (\<open>auth_service.go\<close>), \<open>AuthHandler\<close>
      (\<open>auth_handler.go\<close>): the login flow.
    \<^item> \<open>CallbackRace\<close>: callbacks that overlap, as a step relation whose uninterrupted run is
      \<open>HandleCallback\<close>; \<open>SessionRefinement\<close>: the session
      repository against a map; \<open>LoginFlow\<close>: the flow as a browser sees it.
    \<^item> \<open>Http\<close>, \<open>Telemetry\<close> and \<open>MetricsRegistry\<close> (\<open>prometheus_metrics.go\<close>), \<open>Tracer\<close> (\<open>otel_tracer.go\<close>), \<open>Middleware\<close>
      (\<open>middleware.go\<close>): requests, the response writer, start-up of tracing, outer middlewares.
    \<^item> \<open>BankCrypto\<close> (\<open>jwt.go\<close>), \<open>Signature\<close> (\<open>signature.go\<close>), \<open>Attestation\<close>
      (\<open>attestation_verifier.go\<close>), \<open>KeyRepo\<close> (\<open>sql_key_repository.go\<close>), \<open>BankService\<close>
      (\<open>banking_service.go\<close>), \<open>DeviceFlow\<close> (the life of a device key), \<open>BankHandler\<close>
      (\<open>banking_handler.go\<close>), \<open>PayloadTyping\<close> (the types of decoded payloads), \<open>TransferFlow\<close> (a
      transfer through both servers), \<open>EnrolFlow\<close> (a registration through the edge), \<open>SystemRun\<close>
      (requests at both servers in any order, as an inductive relation).
    \<^item> \<open>SchemaMiddleware\<close> (\<open>schema_middleware.go\<close>), \<open>PolicyMiddleware\<close> (\<open>policy_middleware.go\<close> and
      \<open>policies/policy.rego\<close>), \<open>PolicyWatch\<close> (its watcher), \<open>RateLimiter\<close> and \<open>LimiterFlow\<close> (\<open>rate_limiter.go\<close> with its script).
    \<^item> This theory: what holds between the edge and the intranet.

  \<^bold>\<open>State and operations.\<close> A Go \<open>string\<close> is a list of bytes (\<open>char\<close>), an \<open>int64\<close> an \<open>int\<close> with its
  range where it matters, an \<open>error\<close> a \<open>go_error\<close> compared as \<open>errors.Is\<close> does, a struct a
  record, a handler a function of writer, request and world. An operation takes the
  environment \<open>env\<close>, its arguments and the \<open>world\<close> and returns its result with the new world;
  every early return is a branch. The world holds the two tables, the buckets, the requests
  sent, the log and the metrics. What the program does not determine is a function of \<open>env\<close>,
  indexed by the number of times it was asked: the clock, the random source, faults of the
  database (before or after a statement took effect), answers of the network, decisions of
  the circuit breaker, faults of Valkey. A theorem that assumes nothing of these functions
  holds however they behave. The ports of the source are the records \<open>session_repo\<close>,
  \<open>auth_provider\<close> and \<open>key_repo\<close>; their contracts are the locales \<open>session_store\<close>, \<open>login_flow\<close>,
  \<open>key_store\<close>, \<open>key_registry\<close>, \<open>attestation_check\<close>, \<open>banking\<close> and \<open>bucket_backend\<close>, each
  interpreted on the adapters of the source in the theory that models them.

  \<^bold>\<open>What is shown.\<close>
    \<^item> Login: a callback sends nothing unless the session is stored, open and of the right
      state; used once it is gone; two overlapping callbacks can both succeed with one session, and
      what the requests of any interleaving still come from; what a login hands out is enough for the callback to succeed against a provider that
      keeps PKCE; answers and cookies of the handlers on each branch.
    \<^item> Sessions: the constraints of the table are kept by every sequence of calls, and the
      repository refines a partial map, faults included.
    \<^item> Tokens and signatures: exactly which tokens, signatures and attestations are accepted; the
      round trip of internal tokens; what the signed bytes determine and what they leave open.
    \<^item> Devices: keys stay bound to owner and public key; a registered device can have transfers
      executed, a revoked one cannot; a transfer can be executed twice; the edge enrols only keys of
      attested devices for the admitted subject, so that behind every executed transfer, whatever
      the two servers did before, stands such a request of the subject the token names.
    \<^item> Transfers: what is forwarded, what is executed, what is logged; nothing leaves the edge and
      nothing is executed unless every check passed; what is decoded is well typed; what the edge
      sends passes the intranet, so that the client learns whether its device's signature holds.
    \<^item> Middlewares: the schema check (its own constraints, which differ from those of
      \<open>openapi.yaml\<close>) and the policy as one condition each; the limit on amounts
      under the rounding of floats, and how a body with two spellings of a key evades it;
      hot reload keeps the last policy that compiled,
      and when its loop returns; the metrics register on a fresh registry.
    \<^item> Rate limiter: bounds of the buckets, an exact burst, the rate over any time, and that a
      client that waits is let in again, all under the rounding of the script's floats; what the
      middleware answers in each case.

  \<^bold>\<open>Bounds.\<close> The JSON reader stops at a nesting of 10000, as Go's does; its recursion is on the
  input. \<open>float64\<close> is IEEE 754 rounding of rationals; integers up to \<open>2 ^ 52\<close> are exact. The
  theorems on the limiter ask for a capacity and a rate of up to \<open>2 ^ 20\<close> and a period of up to
  \<open>2 ^ 32\<close> milliseconds (bursts: a capacity of up to \<open>10 ^ 12\<close>), so that the time to live stays
  within 64 bits; the rate also for a Valkey whose clock does not run backwards and is within half
  the time of a fill of the gateway's clock. No definition uses fuel: the one loop that may run for ever, the policy's watcher,
  is a partial function, and when it returns is a theorem.

  \<^bold>\<open>Third party, parameters.\<close> The chi router (\<open>mux_ok\<close>), the JWT middleware (\<open>jwt_gate\<close>), the
  policy engine and file watcher (\<open>opa_lib\<close>, with \<open>runs_policy\<close> for an engine that runs the
  repository's policy), PEM, PKIX, ECDSA and ASN.1 (\<open>crypto_lib\<close>), gobreaker, OpenTelemetry
  (\<open>otel_lib\<close>), Prometheus (\<open>metric_registry\<close>), the texts of library errors, Unicode lower case beyond ASCII. Each hypothesis on them has an instance.

  \<^bold>\<open>Not modelled.\<close> What Prometheus does with the metrics, a panic over a path that is not
  UTF-8 among it; the constructors that only store their arguments; the checks of \<open>url.Parse\<close> beyond whether they fail; limits of \<open>net/http\<close> on the
  number of cookies and parameters; redirects that \<open>http.Client\<close> follows, which count as part of the
  network's answer; timestamps spelled with JSON escapes; nil bodies, which
  \<open>net/http\<close> never hands out; the lock around the policy's query, whose swap is atomic here; the
  sign of a zero time to live under negative configurations, and replies of the script beyond
  nine quadrillion tokens, where its cast to 64 bits is not exact.
\<close>

section \<open>From the edge to the ledger\<close>

subsection \<open>What leaves the edge\<close>

text \<open>
  C3 (edge_gates): the edge sends nothing to the intranet on behalf of a request, unless the
  request starts a transfer, its body meets the contract, the policy allows it and the JWT
  middleware admitted it; it then sends one request, the transfer of that body with an
  internal token for the subject the JWT middleware validated.
\<close>

theorem edge_gates:
  assumes "mux_ok mux" "jwt_gate jwt" "runs_policy opa ev" "rq_raw_path r = []"
    and "w_sent (snd (EdgeRoutes e cfg (SQLEnclaveKeyRepository e) (VerifyAttestation e) mux
      (Some (PolicyMiddleware_Handler opa ev)) jwt rw r w)) \<noteq> w_sent w"
  shows "rq_path r = ''/transfer/initiate'' \<and> rq_method r = ''POST'' \<and>
     policy_allows (rq_path r) (rq_method r) (claims_subject (extractJWTClaims r))
       (claims_scope_list (extractJWTClaims r)) (fst (policy_body r)) \<and>
     (\<exists>p subj token bytes.
        Option.bind (body_json r) payload_of_json = Some p \<and> transfer_contract p \<and>
        (\<forall>h. jwt h (push_cell rw) r (snd (time_now e w)) =
           h (push_cell rw) (with_claims subj r) (snd (time_now e w))) \<and>
        fst (GenerateInternalJWT e subj (Some [''transfer:execute'']) (shared_secret cfg) minute (snd (time_now e w))) = Inr token \<and>
        payload_marshal p = Some bytes \<and>
        w_sent (snd (EdgeRoutes e cfg (SQLEnclaveKeyRepository e) (VerifyAttestation e) mux
          (Some (PolicyMiddleware_Handler opa ev)) jwt rw r w)) = w_sent w @ [transfer_request cfg token bytes])"
  by (rule edge_sends [OF assms]) (unfold policy_passes_def jwt_admits_def, blast)

theorem edge_gates_witness:
  "\<exists>tok token bytes.
     w_sent (snd (edge_server linked_env sample_config static_mux sample_opa sample_evaluator (bearer_gate tok ''alice'')
       writer_init (edge_request tok bytes) world_init)) = [transfer_request sample_config token bytes]"
proof -
  obtain tok bytes where s: "payload_marshal sample_payload = Some bytes"
    "Option.bind (body_json (edge_request tok bytes)) payload_of_json = Some sample_payload"
    "w_sent (snd (edge_server linked_env sample_config static_mux sample_opa sample_evaluator (bearer_gate tok ''alice'')
       writer_init (edge_request tok bytes) world_init)) \<noteq> w_sent world_init"
    by (rule sample_edge)
  have raw: "rq_raw_path (edge_request tok bytes) = []" by (simp add: edge_request_def)
  from edge_gates [OF static_mux_ok bearer_gate_ok sample_runs raw s(3)] s(1,2) show ?thesis
    by (auto simp: world_init_def)
qed

subsection \<open>Where keys come from\<close>

text \<open>
  C7 (edge_enrols): the edge's server changes the table of keys only for a registration call
  whose body meets the contract, whose caller the JWT middleware admitted and whose device passed
  attestation; it then adds one row, under an identifier that was free, with the key and the
  algorithm of the body and the admitted subject as the owner.
\<close>

theorem edge_enrols:
  assumes "mux_ok mux" "jwt_gate jwt" "runs_policy opa ev" "rq_raw_path r = []"
    and "w_keys (snd (EdgeRoutes e cfg (SQLEnclaveKeyRepository e) (VerifyAttestation e) mux
      (Some (PolicyMiddleware_Handler opa ev)) jwt rw r w)) \<noteq> w_keys w"
  shows "rq_path r = ''/auth/register-device'' \<and> rq_method r = ''POST'' \<and>
     (\<exists>d subj now row.
        Option.bind (body_json r) device_of_json = Some d \<and> device_contract e d \<and>
        attested e (dr_platform d) (dr_token d) \<and>
        (\<forall>h. jwt h (push_cell rw) r (snd (time_now e w)) =
           h (push_cell rw) (with_claims subj r) (snd (time_now e w))) \<and>
        key_row e ((device_key d)\<lparr>key_user := subj, registered_at := now\<rparr>) = Some row \<and>
        key_id row \<notin> key_id ` set (w_keys w) \<and>
        w_keys (snd (EdgeRoutes e cfg (SQLEnclaveKeyRepository e) (VerifyAttestation e) mux
          (Some (PolicyMiddleware_Handler opa ev)) jwt rw r w)) = w_keys w @ [row])"
  by (rule edge_keys [OF assms]) (unfold jwt_admits_def, blast)

theorem edge_enrols_witness:
  "attested still_env ''android'' ''valid-mock-token'' \<and>
   (\<exists>row. key_user row = ''alice'' \<and>
      w_keys (snd (edge_server still_env sample_config static_mux sample_opa sample_evaluator sample_gate writer_init
        device_post world_init)) = [row])"
proof -
  obtain k where k: "w_keys (snd (edge_server still_env sample_config static_mux sample_opa sample_evaluator sample_gate
      writer_init device_post world_init)) = [k]" "key_user k = ''alice''"
    by (rule sample_enrols)
  then have "w_keys (snd (edge_server still_env sample_config static_mux sample_opa sample_evaluator sample_gate
      writer_init device_post world_init)) \<noteq> w_keys world_init" by (simp add: world_init_def)
  from edge_enrols [OF static_mux_ok sample_gate_ok sample_runs _ this] device_post_json k
  show ?thesis by (auto simp: device_post_def sample_device_def)
qed

subsection \<open>What the intranet executes\<close>

text \<open>
  C4 (private_gates): a success of the intranet's server means that everything was checked: the
  request is the transfer call, its body meets the contract, the policy found the scope in the
  token, the token's signature, expiry and scope hold under the shared secret, and a device key
  registered to the token's subject verifies exactly the payload that was executed.
\<close>

theorem private_gates:
  assumes "mux_ok mux" "runs_policy opa ev" "rq_raw_path r = []" "rw_sent rw = None"
    and "sent_status (fst (PrivateRoutes e cfg lib (SQLEnclaveKeyRepository e) mux
      (Some (PolicyMiddleware_Handler opa ev)) rw r w)) = 200"
  shows "rq_path r = ''/private/transfers'' \<and> rq_method r = ''POST'' \<and>
     ''transfer:execute'' \<in> set (claims_scope_list (extractJWTClaims r)) \<and>
     (\<exists>p token c k.
        Option.bind (body_json r) payload_of_json = Some p \<and> transfer_contract p \<and>
        header_get (rq_headers r) ''Authorization'' = ''Bearer '' @ token \<and>
        fst (VerifyInternalJWT e token (shared_secret cfg) (snd (time_now e w))) = Inr c \<and>
        ''transfer:execute'' \<in> set (claims_scopes c) \<and>
        k \<in> set (w_keys w) \<and> key_user k = claims_sub c \<and>
        VerifyEnclaveSignature e lib (public_key_pem k) (Some p) = None)"
  by (rule private_checked [OF assms])

theorem private_gates_witness:
  "\<exists>token bytes c. sample_status token bytes = 200 \<and>
     fst (VerifyInternalJWT still_env token (shared_secret sample_config)
       (snd (time_now still_env (world_init\<lparr>w_keys := [sample_key]\<rparr>)))) = Inr c \<and> claims_sub c = key_user sample_key"
proof -
  obtain token where t: "fst (GenerateInternalJWT still_env ''alice'' (Some [''transfer:execute''])
      (shared_secret sample_config) minute world_init) = Inr token"
    using still_token [OF sample_user(2)] by blast
  obtain bytes where b: "payload_marshal sample_payload = Some bytes" using sample_marshal ..
  have st: "sample_status token bytes = 200" by (rule sample_executed [OF t b])
  have wi: "rw_sent writer_init = None" by (simp add: writer_init_def)
  from private_gates [OF static_mux_ok sample_runs arrives_simps(3) wi st [unfolded sample_status_def]]
  show ?thesis using st unfolding arrives_simps by auto
qed

subsection \<open>From end to end\<close>

text \<open>
  C5 (transfer_end_to_end): the two halves of the gateway fit. Whenever the edge sends a
  client's transfer on, over a network that brings the request to the intranet and the status
  back while the internal token lives, the client is told 200 exactly if a device key registered
  to the client's subject verifies the very payload the client sent: schema, policy, token and
  payload always pass the intranet. Otherwise the client is told 500.
\<close>

theorem transfer_end_to_end:
  assumes "mux_ok mux" "jwt_gate jwt" "runs_policy opa ev" "rq_raw_path r = []" "rw_sent rw = None"
    and "w_sent (snd (EdgeRoutes e cfg (SQLEnclaveKeyRepository e) (VerifyAttestation e) mux
      (Some (PolicyMiddleware_Handler opa ev)) jwt rw r w)) \<noteq> w_sent w"
    and "Option.bind (body_json r) payload_of_json = Some p"
    and "jwt_admits jwt (push_cell rw) r (snd (time_now e w)) subj" "pg_text subj"
    and "\<forall>n. in_int64 (time_unix (clock e n)) \<and> in_int64 (time_unix (time_add (clock e n) minute))"
    and "\<forall>n. time_unix (clock e' n) \<le> time_unix (time_add (clock e (w_clock (snd (time_now e w)))) minute)"
    and "mux_ok mux'" "runs_policy opa' ev'" "shared_secret cfg' = shared_secret cfg" "db_fault e' (w_db w') = None"
    and "\<forall>q. \<exists>resp. transport e (w_http w) q = Inr resp \<and>
      rs_status resp = int (sent_status (fst (PrivateRoutes e' cfg' lib (SQLEnclaveKeyRepository e') mux'
        (Some (PolicyMiddleware_Handler opa' ev')) writer_init (arrives remote q) w')))"
  shows "sent_status (fst (EdgeRoutes e cfg (SQLEnclaveKeyRepository e) (VerifyAttestation e) mux
       (Some (PolicyMiddleware_Handler opa ev)) jwt rw r w)) =
     (if \<exists>k. k \<in> set (w_keys w') \<and> key_user k = subj \<and>
         VerifyEnclaveSignature e' lib (public_key_pem k) (Some p) = None
      then 200 else 500)"
proof -
  from assms(1-4,6) obtain q subj' token bytes where s: "jwt_admits jwt (push_cell rw) r (snd (time_now e w)) subj'"
    "Option.bind (body_json r) payload_of_json = Some q" "transfer_contract q"
    "fst (GenerateInternalJWT e subj' (Some [''transfer:execute'']) (shared_secret cfg) minute (snd (time_now e w))) = Inr token"
    "payload_marshal q = Some bytes"
    "rw_sent rw = None \<longrightarrow> sent_status (fst (edge_server e cfg mux opa ev jwt rw r w)) =
       (if \<exists>resp. transport e (w_http w) (transfer_request cfg token bytes) = Inr resp \<and> rs_status resp = 200 then 200 else 500)"
    by (rule edge_sends)
  have same: "subj' = subj" "q = p" using jwt_admits_unique [OF s(1) assms(8)] s(2) assms(7) by simp_all
  have "payload_ok p" using assms(7) s(5) same body_payload_ok by blast
  with s(3-5) assms(9-15)
  have "sent_status (fst (private_server e' cfg' lib mux' opa' ev' writer_init (arrives remote (transfer_request cfg token bytes)) w')) =
      (if \<exists>k. k \<in> set (w_keys w') \<and> key_user k = subj \<and> VerifyEnclaveSignature e' lib (public_key_pem k) (Some p) = None
       then 200 else 401)"
    unfolding same by (intro end_to_end) auto
  with s(6) assms(5) spec [OF assms(16), of "transfer_request cfg token bytes"] show ?thesis
    by (auto split: if_splits)
qed

theorem transfer_end_to_end_witness:
  "\<exists>tok bytes. payload_marshal sample_payload = Some bytes \<and>
     sent_status (fst (edge_server linked_env sample_config static_mux sample_opa sample_evaluator (bearer_gate tok ''alice'')
       writer_init (edge_request tok bytes) world_init)) = 200"
proof -
  obtain tok bytes where s: "payload_marshal sample_payload = Some bytes"
    "Option.bind (body_json (edge_request tok bytes)) payload_of_json = Some sample_payload"
    "\<And>rw w. jwt_admits (bearer_gate tok ''alice'') rw (edge_request tok bytes) w ''alice''"
    "w_sent (snd (edge_server linked_env sample_config static_mux sample_opa sample_evaluator (bearer_gate tok ''alice'')
       writer_init (edge_request tok bytes) world_init)) \<noteq> w_sent world_init"
    using sample_edge by metis
  have raw: "rq_raw_path (edge_request tok bytes) = []" and wi: "rw_sent writer_init = None"
    by (simp_all add: edge_request_def writer_init_def)
  have ok: "db_fault still_env n = None" for n by (simp add: still_env_def sample_env_def)
  have "sent_status (fst (edge_server linked_env sample_config static_mux sample_opa sample_evaluator (bearer_gate tok ''alice'')
      writer_init (edge_request tok bytes) world_init)) = 200"
    by (subst transfer_end_to_end [where e' = still_env and w' = "world_init\<lparr>w_keys := [sample_key]\<rparr>" and lib = open_lib
          and remote = "''10.0.0.2:9000''", OF static_mux_ok bearer_gate_ok sample_runs raw wi s(4,2,3) sample_user(1) _ _
          static_mux_ok sample_runs refl ok])
       (simp_all only: linked_env_simps still_times in_int64_def sample_key_verifies, simp_all add: linked_env_def)
  with s(1) show ?thesis by blast
qed

subsection \<open>The past of an executed transfer\<close>

text \<open>
  C6 (execution_provenance): whatever requests the two servers took before, in any order, from an
  empty table of keys: a transfer that the intranet answers with success was signed by a key that
  the edge enrolled in one of those requests, and that request passed the contract and the
  attestation and was admitted by the JWT middleware as the very subject of the internal token.
\<close>

theorem execution_provenance:
  assumes "runs e cfg lib mux opa ev jwt as w" "mux_ok mux" "jwt_gate jwt" "runs_policy opa ev" "rq_raw_path r = []"
    and "sent_status (fst (PrivateRoutes e cfg lib (SQLEnclaveKeyRepository e) mux
      (Some (PolicyMiddleware_Handler opa ev)) writer_init r w)) = 200"
  shows "\<exists>p token c k r' w'.
     Option.bind (body_json r) payload_of_json = Some p \<and>
     header_get (rq_headers r) ''Authorization'' = ''Bearer '' @ token \<and>
     fst (VerifyInternalJWT e token (shared_secret cfg) (snd (time_now e w))) = Inr c \<and>
     VerifyEnclaveSignature e lib (public_key_pem k) (Some p) = None \<and> key_user k = claims_sub c \<and>
     (Edge, r', w') \<in> set as \<and> enrols e jwt r' w' k"
proof -
  have "rw_sent writer_init = None" by (simp add: writer_init_def)
  from private_checked [OF assms(2,4,5) this assms(6)] obtain p token c k where
    "Option.bind (body_json r) payload_of_json = Some p" "header_get (rq_headers r) ''Authorization'' = ''Bearer '' @ token"
    "fst (VerifyInternalJWT e token (shared_secret cfg) (snd (time_now e w))) = Inr c" "k \<in> set (w_keys w)"
    "key_user k = claims_sub c" "VerifyEnclaveSignature e lib (public_key_pem k) (Some p) = None"
    by blast
  with runs_provenance [OF assms(1-4)] show ?thesis by blast
qed

theorem execution_provenance_witness:
  "\<exists>w token bytes.
     runs still_env sample_config open_lib static_mux sample_opa sample_evaluator sample_gate [(Edge, device_post, world_init)] w \<and>
     sent_status (fst (private_server still_env sample_config open_lib static_mux sample_opa sample_evaluator writer_init
       (arrives ''10.0.0.2:9000'' (transfer_request sample_config token bytes)) w)) = 200 \<and>
     (\<exists>k. enrols still_env sample_gate device_post world_init k)"
proof -
  obtain w k where w: "w = snd (edge_server still_env sample_config static_mux sample_opa sample_evaluator sample_gate
      writer_init device_post world_init)" "w_keys w = [k]" "key_user k = ''alice''" "public_key_pem k \<noteq> []"
    using sample_enrols by metis
  have "runs still_env sample_config open_lib static_mux sample_opa sample_evaluator sample_gate [] world_init"
    by (rule runs.start) (simp add: world_init_def)
  from runs.at_edge [OF this, of device_post]
  have run: "runs still_env sample_config open_lib static_mux sample_opa sample_evaluator sample_gate [(Edge, device_post, world_init)] w"
    by (simp add: w(1) device_post_def)
  obtain token bytes where t: "sent_status (fst (private_server still_env sample_config open_lib static_mux sample_opa
      sample_evaluator writer_init (arrives ''10.0.0.2:9000'' (transfer_request sample_config token bytes)) w)) = 200"
    using sample_later [OF w(2-4)] by blast
  from execution_provenance [OF run static_mux_ok sample_gate_ok sample_runs arrives_simps(3) t] run t
  show ?thesis by auto
qed

end
